(* ===== verification/Prelude.thy ===== *)
theory Prelude
  imports
    Main
    "HOL-Library.Word"
    "HOL-Library.AList"
    "HOL-Library.Char_ord"
    "HOL-Library.List_Lexorder"
    "HOL-Library.Multiset"
begin

text \<open>
  Shared vocabulary of the development: the machine integers and strings of Go, Go's maps, the
  outcome of a Go computation (it returns, it panics, or it waits for a mutex that is never
  released), \<open>sync.RWMutex\<close>, insertion sort as \<open>sort.SliceStable\<close> performs it, and decimal and
  hexadecimal printing as \<open>fmt.Sprintf\<close> and \<open>encoding/hex\<close> perform it.

  A Go map is an association list with distinct keys. The position of an entry stands for the
  order in which \<open>range\<close> visits it, which Go leaves open: a statement that holds for every
  association list with the same entries holds for every iteration order.
\<close>

named_theorems go_simps \<open>unfolding rules of the Go outcome and mutex combinators\<close>
named_theorems gomap_simps \<open>rewrite rules for Go maps\<close>

type_synonym u8 = "8 word"
type_synonym u32 = "32 word"
type_synonym u64 = "64 word"
type_synonym bytes = "u8 list"

section \<open>Outcomes and mutexes\<close>

datatype 'a go = Ret 'a | Panic | Block

primrec go_bind :: "'a go \<Rightarrow> ('a \<Rightarrow> 'b go) \<Rightarrow> 'b go" where
  "go_bind (Ret x) f = f x"
| "go_bind Panic f = Panic"
| "go_bind Block f = Block"

lemma go_bind_Ret_iff [go_simps]:
  "go_bind m f = Ret y \<longleftrightarrow> (\<exists>x. m = Ret x \<and> f x = Ret y)"
  by (cases m) auto

lemma go_bind_Block_iff [go_simps]:
  "go_bind m f = Block \<longleftrightarrow> m = Block \<or> (\<exists>x. m = Ret x \<and> f x = Block)"
  by (cases m) auto

lemma go_bind_cong [fundef_cong]:
  "m = m' \<Longrightarrow> (\<And>x. m' = Ret x \<Longrightarrow> f x = g x) \<Longrightarrow> go_bind m f = go_bind m' g"
  by (cases m') auto

lemma go_bind_assoc: "go_bind (go_bind m f) g = go_bind m (\<lambda>x. go_bind (f x) g)"
  by (cases m) auto

text \<open>
  The state of a \<open>sync.RWMutex\<close> as one goroutine sees it: free, held by so many readers, or held
  by the writer. The lock is not reentrant, so a goroutine that asks for a lock it excludes
  itself from waits for ever.
\<close>

datatype rwmutex = Unlocked | RLocked nat | Locked

definition with_lock ::
  "('s \<Rightarrow> rwmutex) \<Rightarrow> (rwmutex \<Rightarrow> 's \<Rightarrow> 's) \<Rightarrow> ('s \<Rightarrow> ('s \<times> 'r) go) \<Rightarrow> 's \<Rightarrow> ('s \<times> 'r) go" where
  "with_lock mu_of set_mu body s =
     (case mu_of s of
        Unlocked \<Rightarrow> go_bind (body (set_mu Locked s)) (\<lambda>(s', r). Ret (set_mu Unlocked s', r))
      | _ \<Rightarrow> Block)"

definition with_rlock ::
  "('s \<Rightarrow> rwmutex) \<Rightarrow> (rwmutex \<Rightarrow> 's \<Rightarrow> 's) \<Rightarrow> ('s \<Rightarrow> ('s \<times> 'r) go) \<Rightarrow> 's \<Rightarrow> ('s \<times> 'r) go" where
  "with_rlock mu_of set_mu body s =
     (case mu_of s of
        Unlocked \<Rightarrow> go_bind (body (set_mu (RLocked 1) s)) (\<lambda>(s', r). Ret (set_mu Unlocked s', r))
      | RLocked n \<Rightarrow>
          go_bind (body (set_mu (RLocked (Suc n)) s)) (\<lambda>(s', r). Ret (set_mu (RLocked n) s', r))
      | Locked \<Rightarrow> Block)"

text \<open>
  What a component with a mutex promises: its lock is a field of its state, and the field can be
  written without disturbing the rest. The lemmas are what the components use of locking.
\<close>

locale mutexed =
  fixes mu_of :: "'s \<Rightarrow> rwmutex"
    and set_mu :: "rwmutex \<Rightarrow> 's \<Rightarrow> 's"
  assumes mu_set: "mu_of (set_mu m s) = m"
    and set_set: "set_mu m (set_mu m' s) = set_mu m s"
    and set_mu_same: "set_mu (mu_of s) s = s"
begin

lemma lock_enters:
  assumes "mu_of s = Unlocked"
  shows "with_lock mu_of set_mu body s =
    go_bind (body (set_mu Locked s)) (\<lambda>(s', r). Ret (set_mu Unlocked s', r))"
  using assms by (simp add: with_lock_def)

lemma lock_released:
  assumes "with_lock mu_of set_mu body s = Ret (s', r)"
  shows "mu_of s = Unlocked \<and> mu_of s' = Unlocked"
  using assms by (auto simp: with_lock_def go_simps mu_set split: rwmutex.splits)

lemma rlock_released:
  assumes "with_rlock mu_of set_mu body s = Ret (s', r)"
  shows "mu_of s' = mu_of s"
  using assms by (auto simp: with_rlock_def go_simps mu_set split: rwmutex.splits)

lemma lock_body:
  assumes "with_lock mu_of set_mu body s = Ret (s', r)"
  shows "\<exists>t. body (set_mu Locked s) = Ret (t, r) \<and> s' = set_mu Unlocked t \<and> mu_of s = Unlocked"
  using assms by (auto simp: with_lock_def go_simps split: rwmutex.splits)

lemma lock_held_blocks:
  assumes "mu_of s \<noteq> Unlocked"
  shows "with_lock mu_of set_mu body s = Block"
  using assms by (auto simp: with_lock_def split: rwmutex.splits)

lemma rlock_under_lock_blocks:
  assumes "mu_of s = Locked"
  shows "with_rlock mu_of set_mu body s = Block"
  using assms by (simp add: with_rlock_def)

text \<open>A body that asks for the lock again while it holds it never returns.\<close>

lemma reentry_blocks:
  assumes "\<And>t. mu_of t = Locked \<Longrightarrow> body t = Block"
  shows "with_lock mu_of set_mu body s = Block"
  using assms [OF mu_set] by (auto simp: with_lock_def split: rwmutex.splits)

text \<open>A body that changes nothing under the lock changes nothing.\<close>

lemma lock_readonly:
  assumes "mu_of s = Unlocked" and "body (set_mu Locked s) = Ret (set_mu Locked s, r)"
  shows "with_lock mu_of set_mu body s = Ret (s, r)"
  using assms set_mu_same [of s] by (simp add: lock_enters set_set)

lemma rlock_readonly:
  assumes "mu_of s = Unlocked" and "body (set_mu (RLocked 1) s) = Ret (set_mu (RLocked 1) s, r)"
  shows "with_rlock mu_of set_mu body s = Ret (s, r)"
  using assms set_mu_same [of s] by (simp add: with_rlock_def set_set)

end

section \<open>Maps\<close>

type_synonym ('k, 'v) gomap = "('k \<times> 'v) list"

abbreviation gomap_wf :: "('k, 'v) gomap \<Rightarrow> bool" where
  "gomap_wf m \<equiv> distinct (map fst m)"

abbreviation gomap_get :: "('k, 'v) gomap \<Rightarrow> 'k \<Rightarrow> 'v option" where
  "gomap_get m k \<equiv> map_of m k"

abbreviation gomap_put :: "'k \<Rightarrow> 'v \<Rightarrow> ('k, 'v) gomap \<Rightarrow> ('k, 'v) gomap" where
  "gomap_put k v m \<equiv> AList.update k v m"

abbreviation gomap_del :: "'k \<Rightarrow> ('k, 'v) gomap \<Rightarrow> ('k, 'v) gomap" where
  "gomap_del k m \<equiv> AList.delete k m"

text \<open>Reading a missing key yields the zero value of the element type.\<close>

definition gomap_get_or :: "'v \<Rightarrow> ('k, 'v) gomap \<Rightarrow> 'k \<Rightarrow> 'v" where
  "gomap_get_or z m k = (case map_of m k of None \<Rightarrow> z | Some v \<Rightarrow> v)"

lemma map_of_put [gomap_simps]: "map_of (AList.update k v m) = (map_of m)(k \<mapsto> v)"
  by (rule update_conv')

lemma map_of_del [gomap_simps]: "map_of (AList.delete k m) = (map_of m)(k := None)"
  by (rule delete_conv')

lemma wf_put: "gomap_wf m \<Longrightarrow> gomap_wf (AList.update k v m)"
  by (rule distinct_update)

lemma wf_del: "gomap_wf m \<Longrightarrow> gomap_wf (AList.delete k m)"
  by (rule distinct_delete)

lemma wf_perm:
  assumes "mset m = mset m'" and "gomap_wf m"
  shows "gomap_wf m'"
  using assms by (metis mset_eq_imp_distinct_iff mset_map)

lemma map_of_perm:
  assumes "mset m = mset m'" and "gomap_wf m"
  shows "map_of m = map_of m'"
  using assms wf_perm [OF assms] by (intro map_of_inject_set [THEN iffD2]) (auto dest: mset_eq_setD)

section \<open>Sorting\<close>

text \<open>
  The insertion sort that \<open>sort.SliceStable\<close> runs on its blocks: each element moves left past the
  elements it is less than. The sorted prefix is kept in reverse.
\<close>

fun insert_left :: "('a \<Rightarrow> 'a \<Rightarrow> bool) \<Rightarrow> 'a \<Rightarrow> 'a list \<Rightarrow> 'a list" where
  "insert_left lt x [] = [x]"
| "insert_left lt x (y # ys) = (if lt x y then y # insert_left lt x ys else x # y # ys)"

definition SliceStable :: "('a \<Rightarrow> 'a \<Rightarrow> bool) \<Rightarrow> 'a list \<Rightarrow> 'a list" where
  "SliceStable lt xs = rev (fold (insert_left lt) xs [])"

lemma mset_insert_left [simp]: "mset (insert_left lt x ys) = add_mset x (mset ys)"
  by (induction ys) auto

lemma mset_fold_insert_left: "mset (fold (insert_left lt) xs ys) = mset xs + mset ys"
  by (induction xs arbitrary: ys) auto

lemma mset_SliceStable [simp]: "mset (SliceStable lt xs) = mset xs"
  by (simp add: SliceStable_def mset_fold_insert_left)

lemma set_SliceStable [simp]: "set (SliceStable lt xs) = set xs"
  by (metis mset_SliceStable set_mset_mset)

lemma length_SliceStable [simp]: "length (SliceStable lt xs) = length xs"
  by (metis mset_SliceStable size_mset)

lemma SliceStable_Nil [simp]: "SliceStable lt [] = []"
  by (simp add: SliceStable_def)

lemma set_insert_left [simp]: "set (insert_left lt x ys) = insert x (set ys)"
  by (induction ys) auto

lemma sorted_insert_left:
  assumes asym: "\<And>a b. a \<in> S \<Longrightarrow> b \<in> S \<Longrightarrow> lt a b \<Longrightarrow> \<not> lt b a"
    and trans: "\<And>a b c. a \<in> S \<Longrightarrow> b \<in> S \<Longrightarrow> c \<in> S \<Longrightarrow> \<not> lt a b \<Longrightarrow> \<not> lt b c \<Longrightarrow> \<not> lt a c"
    and "insert x (set ys) \<subseteq> S"
    and "sorted_wrt (\<lambda>a b. \<not> lt a b) ys"
  shows "sorted_wrt (\<lambda>a b. \<not> lt a b) (insert_left lt x ys)"
  using assms(3,4)
proof (induction ys)
  case Nil
  then show ?case by simp
next
  case (Cons y ys)
  show ?case
  proof (cases "lt x y")
    case True
    then have "\<not> lt y x" using Cons.prems asym by auto
    with True Cons show ?thesis by auto
  next
    case False
    have "\<not> lt x z" if "z \<in> set ys" for z
      using trans [of x y z] False that Cons.prems by auto
    with False Cons.prems show ?thesis by auto
  qed
qed

lemma sorted_SliceStable:
  assumes asym: "\<And>a b. a \<in> set xs \<Longrightarrow> b \<in> set xs \<Longrightarrow> lt a b \<Longrightarrow> \<not> lt b a"
    and trans: "\<And>a b c. a \<in> set xs \<Longrightarrow> b \<in> set xs \<Longrightarrow> c \<in> set xs \<Longrightarrow>
      \<not> lt a b \<Longrightarrow> \<not> lt b c \<Longrightarrow> \<not> lt a c"
  shows "sorted_wrt (\<lambda>a b. \<not> lt b a) (SliceStable lt xs)"
proof -
  have "sorted_wrt (\<lambda>a b. \<not> lt a b) (fold (insert_left lt) us vs)"
    if "set us \<union> set vs \<subseteq> set xs" "sorted_wrt (\<lambda>a b. \<not> lt a b) vs" for us vs
    using that
  proof (induction us arbitrary: vs)
    case (Cons u us)
    then have "sorted_wrt (\<lambda>a b. \<not> lt a b) (insert_left lt u vs)"
      using sorted_insert_left [where S = "set xs" and lt = lt, OF asym trans] by simp
    with Cons show ?case by simp
  qed simp
  from this [of xs "[]"] show ?thesis
    by (simp add: SliceStable_def sorted_wrt_rev)
qed

text \<open>An input that is in order already is returned unchanged.\<close>

lemma SliceStable_sorted_id:
  assumes "sorted_wrt (\<lambda>a b. \<not> lt b a) xs"
  shows "SliceStable lt xs = xs"
proof -
  have "fold (insert_left lt) us vs = rev us @ vs"
    if "sorted_wrt (\<lambda>a b. \<not> lt b a) (rev vs @ us)" for us vs
    using that
  proof (induction us arbitrary: vs)
    case (Cons u us)
    have "insert_left lt u vs = u # vs"
      using Cons.prems by (cases vs) (auto simp: sorted_wrt_append)
    with Cons show ?case by simp
  qed simp
  from this [of "[]" xs] assms show ?thesis by (simp add: SliceStable_def)
qed

section \<open>Printing\<close>

definition digit_char :: "nat \<Rightarrow> char" where
  "digit_char d = char_of (48 + d)"

text \<open>\<open>%d\<close> of a non-negative integer.\<close>

fun show_nat :: "nat \<Rightarrow> string" where
  "show_nat n = (if n < 10 then [digit_char n] else show_nat (n div 10) @ [digit_char (n mod 10)])"

declare show_nat.simps [simp del]

definition show_int :: "int \<Rightarrow> string" where
  "show_int i = (if i < 0 then CHR ''-'' # show_nat (nat (- i)) else show_nat (nat i))"

definition show_u64 :: "u64 \<Rightarrow> string" where
  "show_u64 w = show_nat (unat w)"

text \<open>\<open>%0wd\<close>: pad with zeros on the left up to width \<open>w\<close>.\<close>

definition pad0 :: "nat \<Rightarrow> string \<Rightarrow> string" where
  "pad0 w s = replicate (w - length s) (CHR ''0'') @ s"

lemma of_char_digit_char: "d < 10 \<Longrightarrow> of_char (digit_char d) = 48 + d"
  by (simp add: digit_char_def)

lemma digit_char_inj: "d < 10 \<Longrightarrow> e < 10 \<Longrightarrow> digit_char d = digit_char e \<longleftrightarrow> d = e"
  by (metis of_char_digit_char add_left_cancel)

lemma show_nat_not_Nil [simp]: "show_nat n \<noteq> []" "[] \<noteq> show_nat n"
  by (cases "n < 10"; simp add: show_nat.simps [of n])+

lemma digit_char_not_minus: "d < 10 \<Longrightarrow> digit_char d \<noteq> CHR ''-''"
  using of_char_digit_char [of d] by auto

lemma minus_notin_show_nat: "CHR ''-'' \<notin> set (show_nat n)"
proof (induction n rule: show_nat.induct)
  case (1 n)
  have "digit_char (n mod 10) \<noteq> CHR ''-''"
    by (rule digit_char_not_minus) simp
  with 1 show ?case
    by (subst show_nat.simps) (auto dest: digit_char_not_minus)
qed

lemma show_nat_small: "n < 10 \<Longrightarrow> show_nat n = [digit_char n]"
  by (subst show_nat.simps) simp

lemma show_nat_big: "\<not> n < 10 \<Longrightarrow> show_nat n = show_nat (n div 10) @ [digit_char (n mod 10)]"
  by (subst show_nat.simps) simp

lemma show_nat_eqD: "show_nat m = show_nat n \<Longrightarrow> m = n"
proof (induction m arbitrary: n rule: show_nat.induct)
  case (1 m)
  show ?case
  proof (cases "m < 10")
    case True
    then have eq: "show_nat n = [digit_char m]" using "1.prems" by (simp add: show_nat_small)
    then have "n < 10" using show_nat_big [of n] by auto
    with eq True show ?thesis by (simp add: show_nat_small digit_char_inj)
  next
    case False
    then have eq: "show_nat n = show_nat (m div 10) @ [digit_char (m mod 10)]"
      using "1.prems" by (simp add: show_nat_big)
    then have n: "\<not> n < 10" using show_nat_small [of n] by auto
    then have tails: "show_nat (m div 10) = show_nat (n div 10)"
      "digit_char (m mod 10) = digit_char (n mod 10)"
      using eq show_nat_big [OF n] by simp_all
    have "m div 10 = n div 10" by (rule "1.IH" [OF False tails(1)])
    moreover have "m mod 10 = n mod 10"
      by (rule digit_char_inj [THEN iffD1, OF _ _ tails(2)]) simp_all
    ultimately have "m div 10 * 10 + m mod 10 = n div 10 * 10 + n mod 10" by (simp only:)
    then show ?thesis by (simp only: div_mult_mod_eq)
  qed
qed

lemma show_nat_inject: "show_nat m = show_nat n \<longleftrightarrow> m = n"
  by (metis show_nat_eqD)

definition hex_digit :: "nat \<Rightarrow> char" where
  "hex_digit d = (if d < 10 then char_of (48 + d) else char_of (87 + d))"

text \<open>\<open>hex.EncodeToString\<close>.\<close>

definition hex_byte :: "u8 \<Rightarrow> string" where
  "hex_byte b = [hex_digit (unat b div 16), hex_digit (unat b mod 16)]"

definition EncodeToString :: "bytes \<Rightarrow> string" where
  "EncodeToString bs = concat (map hex_byte bs)"

text \<open>The conversion \<open>[]byte(s)\<close>.\<close>

definition bytes_of_string :: "string \<Rightarrow> bytes" where
  "bytes_of_string s = map (\<lambda>c. word_of_nat (of_char c)) s"

lemma length_EncodeToString [simp]: "length (EncodeToString bs) = 2 * length bs"
  by (induction bs) (simp_all add: EncodeToString_def hex_byte_def)

lemma length_bytes_of_string [simp]: "length (bytes_of_string s) = length s"
  by (simp add: bytes_of_string_def)

lemma bytes_of_string_inject: "bytes_of_string s = bytes_of_string t \<longleftrightarrow> s = t"
proof -
  have "inj (\<lambda>c. word_of_nat (of_char c) :: u8)"
  proof (rule injI)
    fix c d :: char
    assume "(word_of_nat (of_char c) :: u8) = word_of_nat (of_char d)"
    then have "unat (word_of_nat (of_char c) :: u8) = unat (word_of_nat (of_char d) :: u8)" by simp
    moreover have "of_char c < (256 :: nat)" "of_char d < (256 :: nat)"
      by simp_all
    ultimately have "of_char c = (of_char d :: nat)" by (simp add: unat_of_nat take_bit_nat_eq_self)
    then show "c = d" by simp
  qed
  then show ?thesis by (simp add: bytes_of_string_def inj_map_eq_map)
qed

end
