(* ===== verification/Float64.thy ===== *)
theory Float64
  imports
    Complex_Main
    "HOL-Library.Log_Nat"
    Prelude
begin

text \<open>
  Go's \<open>float64\<close>: IEEE 754 binary64 with round to nearest, ties to even. A finite value is its
  rational value; the negative zero, the infinities and the not-a-number are constructors of their
  own. Every operation computes the exact rational result and rounds it once (\<open>round64\<close>).

  The lemmas show that rounding is monotone, that it is the identity on the representable
  rationals, and hence that integers up to \<open>2 ^ 53\<close> are exact. All the facts about amounts, fees,
  utilisations and ratios in the other theories come from these three.
\<close>

named_theorems float_simps \<open>evaluation of the float64 operations on finite values\<close>

datatype float64 = Fin rat | NegZero | PInf | NInf | NaN

section \<open>Rounding\<close>

text \<open>The exponent of the binade of a positive rational: \<open>2 ^ e \<le> a < 2 ^ (e + 1)\<close>.\<close>

definition exponent :: "rat \<Rightarrow> int" where
  "exponent a = (if 1 \<le> a then bitlen \<lfloor>a\<rfloor> - 1 else - bitlen (\<lceil>1 / a\<rceil> - 1))"

text \<open>The exponent of the last place; subnormal numbers all have the exponent -1074.\<close>

definition last_place :: "rat \<Rightarrow> int" where
  "last_place a = max (exponent a - 52) (- 1074)"

definition round_even :: "rat \<Rightarrow> int" where
  "round_even y = (let f = \<lfloor>y\<rfloor>; r = y - of_int f in
     if r < 1 / 2 then f else if 1 / 2 < r then f + 1 else if even f then f else f + 1)"

definition round_pos :: "rat \<Rightarrow> rat" where
  "round_pos a = of_int (round_even (a / 2 powi last_place a)) * 2 powi last_place a"

definition round64 :: "rat \<Rightarrow> float64" where
  "round64 x =
    (if x = 0 then Fin 0
     else let r = round_pos \<bar>x\<bar> in
       if 2 ^ 1024 \<le> r then (if x < 0 then NInf else PInf)
       else if x < 0 then (if r = 0 then NegZero else Fin (- r))
       else Fin r)"

section \<open>Operations\<close>

fun f64_rat :: "float64 \<Rightarrow> rat" where
  "f64_rat (Fin x) = x"
| "f64_rat _ = 0"

fun is_neg :: "float64 \<Rightarrow> bool" where
  "is_neg (Fin x) = (x < 0)"
| "is_neg NegZero = True"
| "is_neg NInf = True"
| "is_neg _ = False"

fun is_finite :: "float64 \<Rightarrow> bool" where
  "is_finite (Fin _) = True"
| "is_finite NegZero = True"
| "is_finite _ = False"

fun fneg :: "float64 \<Rightarrow> float64" where
  "fneg (Fin x) = (if x = 0 then NegZero else Fin (- x))"
| "fneg NegZero = Fin 0"
| "fneg PInf = NInf"
| "fneg NInf = PInf"
| "fneg NaN = NaN"

fun fadd :: "float64 \<Rightarrow> float64 \<Rightarrow> float64" where
  "fadd NaN _ = NaN"
| "fadd _ NaN = NaN"
| "fadd PInf NInf = NaN"
| "fadd NInf PInf = NaN"
| "fadd PInf _ = PInf"
| "fadd _ PInf = PInf"
| "fadd NInf _ = NInf"
| "fadd _ NInf = NInf"
| "fadd NegZero NegZero = NegZero"
| "fadd x y = round64 (f64_rat x + f64_rat y)"

definition fsub :: "float64 \<Rightarrow> float64 \<Rightarrow> float64" where
  "fsub x y = fadd x (fneg y)"

definition signed_zero :: "bool \<Rightarrow> float64" where
  "signed_zero neg = (if neg then NegZero else Fin 0)"

definition signed_inf :: "bool \<Rightarrow> float64" where
  "signed_inf neg = (if neg then NInf else PInf)"

definition is_zero :: "float64 \<Rightarrow> bool" where
  "is_zero x = (is_finite x \<and> f64_rat x = 0)"

definition fmul :: "float64 \<Rightarrow> float64 \<Rightarrow> float64" where
  "fmul x y =
    (if x = NaN \<or> y = NaN then NaN
     else if \<not> is_finite x \<or> \<not> is_finite y then
       (if is_zero x \<or> is_zero y then NaN else signed_inf (is_neg x \<noteq> is_neg y))
     else if is_zero x \<or> is_zero y then signed_zero (is_neg x \<noteq> is_neg y)
     else round64 (f64_rat x * f64_rat y))"

definition fdiv :: "float64 \<Rightarrow> float64 \<Rightarrow> float64" where
  "fdiv x y =
    (if x = NaN \<or> y = NaN then NaN
     else if \<not> is_finite x then
       (if \<not> is_finite y then NaN else signed_inf (is_neg x \<noteq> is_neg y))
     else if \<not> is_finite y then signed_zero (is_neg x \<noteq> is_neg y)
     else if is_zero y then (if is_zero x then NaN else signed_inf (is_neg x \<noteq> is_neg y))
     else if is_zero x then signed_zero (is_neg x \<noteq> is_neg y)
     else round64 (f64_rat x / f64_rat y))"

text \<open>Comparisons are false as soon as one side is not a number.\<close>

fun flt :: "float64 \<Rightarrow> float64 \<Rightarrow> bool" where
  "flt NaN _ = False"
| "flt _ NaN = False"
| "flt NInf y = (y \<noteq> NInf)"
| "flt _ NInf = False"
| "flt PInf _ = False"
| "flt _ PInf = True"
| "flt x y = (f64_rat x < f64_rat y)"

definition feq :: "float64 \<Rightarrow> float64 \<Rightarrow> bool" where
  "feq x y = (x \<noteq> NaN \<and> y \<noteq> NaN \<and> (x = y \<or> is_zero x \<and> is_zero y))"

definition fle :: "float64 \<Rightarrow> float64 \<Rightarrow> bool" where
  "fle x y = (flt x y \<or> feq x y)"

text \<open>\<open>math.Min\<close> and \<open>math.Max\<close>, with their special cases in the order of the library.\<close>

definition fmin :: "float64 \<Rightarrow> float64 \<Rightarrow> float64" where
  "fmin x y =
    (if x = NInf \<or> y = NInf then NInf
     else if x = NaN \<or> y = NaN then NaN
     else if is_zero x \<and> is_zero y then (if x = NegZero then x else y)
     else if flt x y then x else y)"

definition fmax :: "float64 \<Rightarrow> float64 \<Rightarrow> float64" where
  "fmax x y =
    (if x = PInf \<or> y = PInf then PInf
     else if x = NaN \<or> y = NaN then NaN
     else if is_zero x \<and> is_zero y then (if x = NegZero then y else x)
     else if flt y x then x else y)"

definition fabs :: "float64 \<Rightarrow> float64" where
  "fabs x = (if is_neg x then fneg x else x)"

text \<open>Conversions. An out-of-range \<open>float64\<close> converts to an integer as on amd64.\<close>

definition of_int64 :: "int \<Rightarrow> float64" where
  "of_int64 n = round64 (of_int n)"

definition of_u64 :: "u64 \<Rightarrow> float64" where
  "of_u64 w = round64 (of_int (uint w))"

definition trunc_rat :: "rat \<Rightarrow> int" where
  "trunc_rat x = (if x < 0 then \<lceil>x\<rceil> else \<lfloor>x\<rfloor>)"

fun to_int64 :: "float64 \<Rightarrow> int" where
  "to_int64 (Fin x) = (let t = trunc_rat x in if - (2 ^ 63) \<le> t \<and> t < 2 ^ 63 then t else - (2 ^ 63))"
| "to_int64 NegZero = 0"
| "to_int64 _ = - (2 ^ 63)"

definition to_u64 :: "float64 \<Rightarrow> u64" where
  "to_u64 x =
    (if flt x (Fin (2 ^ 63)) then word_of_int (to_int64 x)
     else word_of_int (to_int64 (fsub x (Fin (2 ^ 63))) + 2 ^ 63))"

text \<open>\<open>fmt\<close>'s \<open>%.nf\<close>: the decimal nearest to the exact value, ties to even.\<close>

definition show_rat :: "nat \<Rightarrow> rat \<Rightarrow> string" where
  "show_rat n x =
    (let k = nat (round_even (x * 10 ^ n)) in
     show_nat (k div 10 ^ n) @
       (if n = 0 then [] else CHR ''.'' # pad0 n (show_nat (k mod 10 ^ n))))"

fun show_f64 :: "nat \<Rightarrow> float64 \<Rightarrow> string" where
  "show_f64 n (Fin x) = (if x < 0 then CHR ''-'' # show_rat n (- x) else show_rat n x)"
| "show_f64 n NegZero = CHR ''-'' # show_rat n 0"
| "show_f64 n PInf = ''+Inf''"
| "show_f64 n NInf = ''-Inf''"
| "show_f64 n NaN = ''NaN''"

section \<open>Rounding to an integer\<close>

lemma round_even_of_int [simp]: "round_even (of_int n) = n"
  by (simp add: round_even_def)

lemma round_even_cases: "round_even y = \<lfloor>y\<rfloor> \<or> round_even y = \<lfloor>y\<rfloor> + 1 \<and> 1 / 2 \<le> y - of_int \<lfloor>y\<rfloor>"
  by (auto simp: round_even_def Let_def)

lemma round_even_mono:
  assumes "x \<le> y"
  shows "round_even x \<le> round_even y"
proof (cases "\<lfloor>x\<rfloor> = \<lfloor>y\<rfloor>")
  case True
  then show ?thesis using assms by (auto simp: round_even_def Let_def)
next
  case False
  with assms have "\<lfloor>x\<rfloor> + 1 \<le> \<lfloor>y\<rfloor>" using floor_mono [of x y] by linarith
  moreover have "round_even x \<le> \<lfloor>x\<rfloor> + 1" using round_even_cases [of x] by linarith
  moreover have "\<lfloor>y\<rfloor> \<le> round_even y" using round_even_cases [of y] by linarith
  ultimately show ?thesis by linarith
qed

lemma round_even_le: "y \<le> of_int n \<Longrightarrow> round_even y \<le> n"
  using round_even_mono [of y "of_int n"] by simp

lemma round_even_ge: "of_int n \<le> y \<Longrightarrow> n \<le> round_even y"
  using round_even_mono [of "of_int n" y] by simp

lemma round_even_error: "\<bar>of_int (round_even y) - y\<bar> \<le> 1 / 2"
proof -
  have "of_int \<lfloor>y\<rfloor> \<le> y" "y < of_int \<lfloor>y\<rfloor> + 1" by linarith+
  then show ?thesis by (auto simp: round_even_def Let_def)
qed

section \<open>The binade of a rational\<close>

lemma powi_2_nat: "0 \<le> k \<Longrightarrow> (2 :: rat) powi k = of_int (2 ^ nat k)"
  by (simp add: power_int_def)

lemma powi_2_mono: "m \<le> n \<Longrightarrow> (2 :: rat) powi m \<le> 2 powi n"
  by (rule power_int_increasing) simp_all

lemma powi_2_inverse:
  assumes "0 < a"
  shows "1 / a \<le> 2 powi k \<longleftrightarrow> 2 powi (- k) \<le> (a :: rat)" "2 powi k < 1 / a \<longleftrightarrow> (a :: rat) < 2 powi (- k)"
  using assms zero_less_power_int [of "2 :: rat" k] by (simp_all add: power_int_minus field_simps)

lemma exponent_bounds:
  assumes "0 < a"
  shows "2 powi exponent a \<le> a \<and> a < 2 powi (exponent a + 1)"
proof (cases "1 \<le> a")
  case True
  let ?b = "bitlen \<lfloor>a\<rfloor>"
  have b: "2 ^ nat (?b - 1) \<le> \<lfloor>a\<rfloor>" "\<lfloor>a\<rfloor> < 2 ^ nat ?b"
    using bitlen_bounds [of "\<lfloor>a\<rfloor>"] True by (auto simp: less_le_trans [OF zero_less_one])
  have "1 \<le> ?b" using bitlen_nonneg [of "\<lfloor>a\<rfloor>"] bitlen_eq_zero_iff [of "\<lfloor>a\<rfloor>"] True
    by (smt (verit) one_le_floor)
  then show ?thesis
    using b True by (simp add: exponent_def powi_2_nat le_floor_iff floor_less_iff)
next
  case False
  let ?c = "\<lceil>1 / a\<rceil> - 1" let ?j = "bitlen ?c"
  have c: "1 \<le> ?c" using assms False
    by (smt (verit) ceiling_le_one less_divide_eq_1_pos linorder_not_less)
  have b: "2 ^ nat (?j - 1) \<le> ?c" "?c < 2 ^ nat ?j"
    using bitlen_bounds [of ?c] c by auto
  have j: "1 \<le> ?j" using bitlen_nonneg [of ?c] bitlen_eq_zero_iff [of ?c] c by linarith
  have "1 / a \<le> of_int (2 ^ nat ?j)" using b(2) by (simp add: ceiling_le_iff [symmetric] del: of_int_power)
  then have "1 / a \<le> 2 powi ?j" using j by (simp add: powi_2_nat)
  then have 1: "2 powi (- ?j) \<le> a" by (simp only: powi_2_inverse [OF assms])
  have "of_int (2 ^ nat (?j - 1)) < 1 / a" using b(1) by (simp add: less_ceiling_iff [symmetric] del: of_int_power)
  then have "2 powi (?j - 1) < 1 / a" using j by (simp add: powi_2_nat)
  then have "a < 2 powi (- (?j - 1))" by (simp only: powi_2_inverse [OF assms])
  then have 2: "a < 2 powi (- ?j + 1)" by (simp only: minus_diff_eq uminus_add_conv_diff)
  show ?thesis using 1 2 False by (simp add: exponent_def)
qed

lemma exponent_mono:
  assumes "0 < x" "x \<le> y"
  shows "exponent x \<le> exponent y"
proof (rule ccontr)
  assume "\<not> exponent x \<le> exponent y"
  then have "(2 :: rat) powi (exponent y + 1) \<le> 2 powi exponent x" by (intro powi_2_mono) simp
  with exponent_bounds [of x] exponent_bounds [of y] assms show False by auto
qed

lemma exponent_eqI:
  assumes "0 < a" "2 powi e \<le> a" "a < 2 powi (e + 1)"
  shows "exponent a = e"
proof -
  have "\<not> exponent a + 1 \<le> e"
    using exponent_bounds [OF assms(1)] powi_2_mono [of "exponent a + 1" e] assms by force
  moreover have "\<not> e + 1 \<le> exponent a"
    using exponent_bounds [OF assms(1)] powi_2_mono [of "e + 1" "exponent a"] assms by force
  ultimately show ?thesis by simp
qed

section \<open>Monotonicity\<close>

lemma powi_2_grid: "k \<le> e \<Longrightarrow> (2 :: rat) powi e = of_int (2 ^ nat (e - k)) * 2 powi k"
  by (simp add: powi_2_nat [symmetric] power_int_add [symmetric] del: of_int_power)

text \<open>A point of the grid that lies above (below) the argument also lies above (below) its rounding.\<close>

lemma round_pos_le: "a \<le> of_int n * 2 powi last_place a \<Longrightarrow> round_pos a \<le> of_int n * 2 powi last_place a"
  unfolding round_pos_def by (intro mult_right_mono) (simp_all add: round_even_le divide_le_eq)

lemma round_pos_ge: "of_int n * 2 powi last_place a \<le> a \<Longrightarrow> of_int n * 2 powi last_place a \<le> round_pos a"
  unfolding round_pos_def by (intro mult_right_mono) (simp_all add: round_even_ge le_divide_eq)

lemma round_pos_nonneg: "0 \<le> a \<Longrightarrow> 0 \<le> round_pos a"
  using round_pos_ge [of 0 a] by simp

lemma round_pos_mono:
  assumes "0 < x" "x \<le> y"
  shows "round_pos x \<le> round_pos y"
proof (cases "last_place x = last_place y")
  case True
  then show ?thesis
    using assms unfolding round_pos_def True
    by (intro mult_right_mono) (simp_all add: round_even_mono divide_right_mono)
next
  case False
  have "exponent x \<le> exponent y" using exponent_mono assms .
  with False have lp: "last_place x < exponent y" "last_place y \<le> exponent y" "exponent x < exponent y"
    by (auto simp: last_place_def)
  have "x \<le> 2 powi exponent y"
    using exponent_bounds [OF assms(1)] powi_2_mono [of "exponent x + 1" "exponent y"] lp by force
  then have "round_pos x \<le> 2 powi exponent y"
    using lp(1) round_pos_le [of x "2 ^ nat (exponent y - last_place x)"]
    by (simp only: powi_2_grid [of "last_place x" "exponent y"] less_imp_le)
  also have "\<dots> \<le> round_pos y"
    using lp(2) exponent_bounds [of y] assms round_pos_ge [of "2 ^ nat (exponent y - last_place y)" y]
    by (simp only: powi_2_grid [of "last_place y" "exponent y"])
  finally show ?thesis .
qed

lemma round64_0 [simp]: "round64 0 = Fin 0"
  by (simp add: round64_def)

lemma round64_minus: "x \<noteq> 0 \<Longrightarrow> round64 (- x) = fneg (round64 x)"
  using round_pos_nonneg [of "\<bar>x\<bar>"] by (auto simp: round64_def Let_def)

lemma round64_not_NaN [simp]: "round64 x \<noteq> NaN"
  by (simp add: round64_def Let_def)

lemma fle_fneg: "fle (fneg x) (fneg y) = fle y x"
  by (cases x; cases y) (auto simp: fle_def feq_def is_zero_def)

lemma fle_Fin [simp]: "fle (Fin x) (Fin y) \<longleftrightarrow> x \<le> y"
  by (auto simp: fle_def feq_def is_zero_def)

lemma round64_mono_pos: "0 < x \<Longrightarrow> x \<le> y \<Longrightarrow> fle (round64 x) (round64 y)"
  using round_pos_mono [of x y] by (auto simp: round64_def Let_def fle_def feq_def is_zero_def)

lemma round64_nonneg: "0 \<le> x \<Longrightarrow> fle (Fin 0) (round64 x)"
  using round_pos_nonneg [of x] by (auto simp: round64_def Let_def) (auto simp: fle_def)

lemma round64_nonpos: "x \<le> 0 \<Longrightarrow> fle (round64 x) (Fin 0)"
  using round_pos_nonneg [of "- x"]
  by (auto simp: round64_def Let_def) (auto simp: fle_def feq_def is_zero_def)

lemma fle_trans: "fle x y \<Longrightarrow> fle y z \<Longrightarrow> fle x z"
  by (cases x; cases y; cases z) (auto simp: fle_def feq_def is_zero_def)

lemma round64_mono:
  assumes "x \<le> y"
  shows "fle (round64 x) (round64 y)"
proof -
  consider "0 < x" | "x \<le> 0" "0 \<le> y" | "y < 0" by linarith
  then show ?thesis
  proof cases
    case 1
    then show ?thesis using assms by (rule round64_mono_pos)
  next
    case 2
    then show ?thesis using fle_trans round64_nonneg round64_nonpos by blast
  next
    case 3
    then have "fle (round64 (- y)) (round64 (- x))" using assms by (intro round64_mono_pos) simp_all
    then show ?thesis using 3 assms by (simp add: round64_minus fle_fneg)
  qed
qed

section \<open>Representable values\<close>

definition representable :: "rat \<Rightarrow> bool" where
  "representable x \<longleftrightarrow> x = 0 \<or> round_pos \<bar>x\<bar> = \<bar>x\<bar> \<and> \<bar>x\<bar> < 2 ^ 1024"

lemma round64_representable: "representable x \<Longrightarrow> round64 x = Fin x"
  by (auto simp: representable_def round64_def Let_def abs_if split: if_splits)

lemma round_pos_grid:
  assumes "0 < m" "m < 2 ^ 53" "- 1074 \<le> e"
  shows "round_pos (of_int m * 2 powi e) = of_int m * 2 powi e"
proof -
  let ?a = "of_int m * (2 :: rat) powi e"
  have a: "0 < ?a" using assms by simp
  have "?a < of_int (2 ^ 53) * 2 powi e"
    using assms by (intro mult_strict_right_mono) (simp_all del: of_int_power)
  also have "\<dots> = 2 powi (e + 53)" by (simp add: power_int_add)
  finally have "exponent ?a < e + 53"
    using exponent_bounds [OF a] powi_2_mono [of "e + 53" "exponent ?a"] by force
  then have lp: "last_place ?a \<le> e" using assms by (simp add: last_place_def)
  define l where "l = last_place ?a"
  have "l \<le> e" using lp by (simp only: l_def)
  then have a': "?a = of_int (m * 2 ^ nat (e - l)) * 2 powi l"
    by (simp add: powi_2_grid [of l e])
  have "?a / 2 powi l = of_int (m * 2 ^ nat (e - l))"
    by (subst a') simp
  then have re: "round_even (?a / 2 powi l) = m * 2 ^ nat (e - l)"
    by (simp only: round_even_of_int)
  show ?thesis
    unfolding round_pos_def l_def [symmetric] re by (rule a' [symmetric])
qed

lemma representableI:
  assumes "x = of_int m * 2 powi e" "\<bar>m\<bar> \<le> 2 ^ 53" "- 1074 \<le> e" "\<bar>x\<bar> < 2 ^ 1024"
  shows "representable x"
proof (cases "m = 0 \<or> \<bar>m\<bar> = 2 ^ 53")
  case False
  then have "round_pos (of_int \<bar>m\<bar> * 2 powi e) = of_int \<bar>m\<bar> * 2 powi e"
    using assms by (intro round_pos_grid) auto
  then show ?thesis using assms by (simp add: representable_def abs_mult)
next
  case True
  have "round_pos (of_int (2 ^ 52) * 2 powi (e + 1)) = of_int (2 ^ 52) * 2 powi (e + 1)"
    using assms by (intro round_pos_grid) auto
  moreover have "of_int \<bar>m\<bar> * (2 :: rat) powi e = of_int (2 ^ 52) * 2 powi (e + 1)" if "m \<noteq> 0"
    using True that by (simp add: power_int_add)
  ultimately show ?thesis using assms by (cases "m = 0") (simp_all add: representable_def abs_mult)
qed

lemma representable_int:
  assumes "\<bar>n\<bar> \<le> 2 ^ 53"
  shows "representable (of_int n)"
proof (rule representableI [of _ n 0])
  have "\<bar>n\<bar> < 2 ^ 1024" by (rule le_less_trans [OF assms]) simp
  then show "\<bar>of_int n :: rat\<bar> < 2 ^ 1024" by (simp flip: of_int_abs)
qed (use assms in simp_all)

lemma representable_dyadic:
  assumes "\<bar>k\<bar> \<le> 2 ^ 53" "n \<le> 1074"
  shows "representable (of_int k / 2 ^ n)"
proof (rule representableI [of _ k "- int n"])
  have "\<bar>k\<bar> < 2 ^ 1024" by (rule le_less_trans [OF assms(1)]) simp
  then have "\<bar>of_int k :: rat\<bar> < 2 ^ 1024" by (simp flip: of_int_abs)
  moreover have "\<bar>of_int k\<bar> / 2 ^ n \<le> \<bar>of_int k :: rat\<bar> / 1"
    by (intro divide_left_mono) simp_all
  ultimately show "\<bar>of_int k / 2 ^ n :: rat\<bar> < 2 ^ 1024"
    by (simp only: abs_divide power_abs abs_numeral div_by_1 le_less_trans)
qed (use assms in \<open>simp_all add: power_int_minus divide_inverse\<close>)

lemma representable_nat: "n \<le> 2 ^ 53 \<Longrightarrow> representable (of_nat n)"
  using representable_int [of "int n"] by (simp flip: of_nat_le_numeral_power_cancel_iff)

lemma representable_minus [simp]: "representable (- x) = representable x"
  by (simp add: representable_def)

lemma representable_0 [simp]: "representable 0"
  by (simp add: representable_def)

text \<open>Every finite result of rounding is representable.\<close>

lemma round_pos_representable:
  assumes "0 < a" "round_pos a < 2 ^ 1024"
  shows "representable (round_pos a)"
proof -
  define l where "l = last_place a"
  define k where "k = round_even (a / 2 powi l)"
  have r: "round_pos a = of_int k * 2 powi l" by (simp add: round_pos_def k_def l_def)
  have "exponent a + 1 \<le> l + 53" by (auto simp: l_def last_place_def)
  then have "a \<le> 2 powi (l + 53)"
    using exponent_bounds [OF assms(1)] powi_2_mono [of "exponent a + 1" "l + 53"] by force
  then have "a / 2 powi l \<le> of_int (2 ^ 53)"
    by (simp add: power_int_add divide_le_eq mult.commute)
  then have "k \<le> 2 ^ 53" unfolding k_def by (rule round_even_le)
  moreover have "0 \<le> k" unfolding k_def using assms by (intro round_even_ge) simp
  moreover have "- 1074 \<le> l" by (simp add: l_def last_place_def)
  ultimately show ?thesis
    using assms round_pos_nonneg [of a] by (intro representableI [OF r]) simp_all
qed

lemma round64_Fin_representable: "round64 x = Fin r \<Longrightarrow> representable r"
  using round_pos_representable [of "\<bar>x\<bar>"]
  by (auto simp: round64_def Let_def split: if_splits)

lemma round64_ge: "representable r \<Longrightarrow> r \<le> x \<Longrightarrow> fle (Fin r) (round64 x)"
  using round64_mono [of r x] by (simp add: round64_representable)

lemma round64_le: "representable r \<Longrightarrow> x \<le> r \<Longrightarrow> fle (round64 x) (Fin r)"
  using round64_mono [of x r] by (simp add: round64_representable)

text \<open>A value between two representable values rounds to a finite value between them.\<close>

lemma round64_between:
  assumes "representable l" "representable u" "l \<le> x" "x \<le> u" "0 \<le> l"
  obtains r where "round64 x = Fin r" "l \<le> r" "r \<le> u"
proof -
  have "fle (Fin l) (round64 x)" "fle (round64 x) (Fin u)"
    using assms by (simp_all add: round64_ge round64_le)
  moreover have "round64 x \<noteq> NegZero"
    using assms by (auto simp: round64_def Let_def)
  ultimately show ?thesis
    using that by (cases "round64 x") (auto simp: fle_def feq_def is_zero_def)
qed

section \<open>Exact operations\<close>

definition f64_ok :: "float64 \<Rightarrow> bool" where
  "f64_ok x = (case x of Fin r \<Rightarrow> representable r | _ \<Rightarrow> True)"

lemma round64_ok [simp]: "f64_ok (round64 x)"
  by (auto simp: f64_ok_def split: float64.split intro: round64_Fin_representable)

lemma fneg_ok: "f64_ok x \<Longrightarrow> f64_ok (fneg x)"
  by (cases x) (auto simp: f64_ok_def)

lemma fadd_ok: "f64_ok (fadd x y)"
  by (cases x; cases y) (auto simp: f64_ok_def split: float64.split intro: round64_Fin_representable)

lemma fmul_ok: "f64_ok (fmul x y)"
  by (auto simp: fmul_def signed_zero_def signed_inf_def f64_ok_def
      split: float64.split intro: round64_Fin_representable)

lemma fdiv_ok: "f64_ok (fdiv x y)"
  by (auto simp: fdiv_def signed_zero_def signed_inf_def f64_ok_def
      split: float64.split intro: round64_Fin_representable)

lemma fadd_Fin [float_simps]: "representable (x + y) \<Longrightarrow> fadd (Fin x) (Fin y) = Fin (x + y)"
  by (simp add: round64_representable)

lemma fsub_Fin [float_simps]: "representable x \<Longrightarrow> representable (x - y) \<Longrightarrow> fsub (Fin x) (Fin y) = Fin (x - y)"
  by (auto simp: fsub_def round64_representable)

lemma fmul_Fin [float_simps]:
  "0 \<le> x \<Longrightarrow> 0 \<le> y \<Longrightarrow> representable (x * y) \<Longrightarrow> fmul (Fin x) (Fin y) = Fin (x * y)"
  by (auto simp: fmul_def is_zero_def signed_zero_def round64_representable)

lemma fmul_Fin_round:
  "0 \<le> x \<Longrightarrow> 0 \<le> y \<Longrightarrow> fmul (Fin x) (Fin y) = round64 (x * y)"
  by (auto simp: fmul_def is_zero_def signed_zero_def)

lemma fdiv_Fin_round: "0 \<le> x \<Longrightarrow> 0 < y \<Longrightarrow> fdiv (Fin x) (Fin y) = round64 (x / y)"
  by (auto simp: fdiv_def is_zero_def signed_zero_def)

lemma feq_Fin [simp]: "feq (Fin x) (Fin y) \<longleftrightarrow> x = y"
  by (auto simp: feq_def is_zero_def)

lemma fmin_Fin [simp]: "fmin (Fin x) (Fin y) = Fin (min x y)"
  by (auto simp: fmin_def is_zero_def)

lemma fmax_Fin [simp]: "fmax (Fin x) (Fin y) = Fin (max x y)"
  by (auto simp: fmax_def is_zero_def)

lemma of_u64_exact: "uint w \<le> 2 ^ 53 \<Longrightarrow> of_u64 w = Fin (of_int (uint w))"
  unfolding of_u64_def by (rule round64_representable [OF representable_int]) simp

lemma of_int64_exact: "\<bar>n\<bar> \<le> 2 ^ 53 \<Longrightarrow> of_int64 n = Fin (of_int n)"
  by (simp add: of_int64_def round64_representable representable_int)

lemma to_u64_Fin: "0 \<le> x \<Longrightarrow> x < 2 ^ 63 \<Longrightarrow> to_u64 (Fin x) = word_of_int \<lfloor>x\<rfloor>"
  by (auto simp: to_u64_def trunc_rat_def Let_def floor_less_iff le_floor_iff)

text \<open>
  A comparison with a rounded constant is exact as soon as no argument lies strictly between the
  constant and its neighbour.
\<close>

lemma flt_not_fle: "x \<noteq> NaN \<Longrightarrow> y \<noteq> NaN \<Longrightarrow> flt x y \<longleftrightarrow> \<not> fle y x"
  by (cases x; cases y) (auto simp: fle_def feq_def is_zero_def)

lemma fle_total: "x \<noteq> NaN \<Longrightarrow> y \<noteq> NaN \<Longrightarrow> fle x y \<or> fle y x"
  by (cases x; cases y) (auto simp: fle_def feq_def is_zero_def)

lemma fle_refl: "x \<noteq> NaN \<Longrightarrow> fle x x"
  using fle_total by blast

lemma fle_less_trans: "flt x y \<Longrightarrow> fle y z \<Longrightarrow> flt x z"
  by (cases x; cases y; cases z) (auto simp: fle_def feq_def is_zero_def)

lemma fle_flt_trans: "fle x y \<Longrightarrow> flt y z \<Longrightarrow> flt x z"
  by (cases x; cases y; cases z) (auto simp: fle_def feq_def is_zero_def)

lemma flt_round64_above:
  assumes "round64 c = Fin r" "representable s" "r < s" "c < x \<Longrightarrow> s \<le> x"
  shows "flt (round64 c) (round64 x) \<longleftrightarrow> c < x"
proof
  assume "flt (round64 c) (round64 x)"
  then show "c < x" using round64_mono [of x c] by (auto simp: flt_not_fle not_le [symmetric])
next
  assume "c < x"
  then have "fle (Fin s) (round64 x)" using assms by (simp add: round64_ge)
  moreover have "flt (round64 c) (Fin s)" using assms by simp
  ultimately show "flt (round64 c) (round64 x)" by (blast intro: fle_less_trans)
qed

lemma flt_round64_below:
  assumes "round64 c = Fin r" "representable s" "s < r" "x < c \<Longrightarrow> x \<le> s"
  shows "flt (round64 x) (round64 c) \<longleftrightarrow> x < c"
proof
  assume "flt (round64 x) (round64 c)"
  then show "x < c" using round64_mono [of c x] by (auto simp: flt_not_fle not_le [symmetric])
next
  assume "x < c"
  then have "fle (round64 x) (Fin s)" using assms by (simp add: round64_le)
  moreover have "flt (Fin s) (round64 c)" using assms by simp
  ultimately show "flt (round64 x) (round64 c)" by (blast intro: fle_flt_trans)
qed

section \<open>Evaluation\<close>

text \<open>Rewrite rules with which \<open>simp\<close> evaluates the rounding of a fraction of numerals.\<close>

named_theorems float_eval \<open>evaluation of rounding on numerals\<close>

lemma bitlen_numeral [float_eval]:
  "bitlen 1 = 1"
  "bitlen (numeral (num.Bit0 n)) = bitlen (numeral n) + 1"
  "bitlen (numeral (num.Bit1 n)) = bitlen (numeral n) + 1"
  by (subst compute_bitlen, simp)+

lemma floor_fraction [float_eval]:
  "\<lfloor>numeral a / numeral b :: rat\<rfloor> = numeral a div numeral b"
  "\<lfloor>1 / numeral b :: rat\<rfloor> = 1 div numeral b"
  by (metis floor_divide_of_int_eq of_int_numeral of_int_1)+

lemma ceiling_fraction [float_eval]:
  "\<lceil>numeral a / numeral b :: rat\<rceil> = - (- numeral a div numeral b)"
  "\<lceil>1 / numeral b :: rat\<rceil> = - (- 1 div numeral b)"
  using floor_divide_of_int_eq [where 'a = rat, of "- numeral a" "numeral b"]
    floor_divide_of_int_eq [where 'a = rat, of "- 1" "numeral b"]
  by (simp_all add: ceiling_def)

lemma round_pos_scaled [float_eval, code]:
  "round_pos a = (let l = last_place a in
     if 0 \<le> l then of_int (round_even (a / 2 ^ nat l)) * 2 ^ nat l
     else of_int (round_even (a * 2 ^ nat (- l))) / 2 ^ nat (- l))"
  by (simp add: round_pos_def Let_def power_int_def power_one_over divide_simps inverse_eq_divide)

lemma Let_numeral_int [float_eval]: "Let (numeral k :: int) f = f (numeral k)"
  by (simp add: Let_def)

lemmas float_eval_defs [float_eval] =
  round64_def last_place_def exponent_def round_even_def

end
