(* ===== verification/Gas.thy ===== *)
theory Gas
  imports Float64 "HOL-Library.Sublist"
begin

text \<open>
  The gas package (\<open>src/blockchain/gas\<close>) and the conversion between gas and tokens
  (\<open>src/blockchain/gas_conversion.go\<close>): the price model, the fee of a transaction, the gas budget
  of a block, the dynamic gas limit, and the previews shown to users. Only the text that is printed
  to the log is left out.
\<close>

section \<open>The price model\<close>

definition BaseTxGas :: u64 where "BaseTxGas = 21000"
definition TxDataByteGas :: u64 where "TxDataByteGas = 16"
definition TxSigGas :: u64 where "TxSigGas = 2000"
definition BaseGasLimit :: u64 where "BaseGasLimit = 1000000"
definition PriorityLow :: int where "PriorityLow = 0"
definition PriorityNormal :: int where "PriorityNormal = 1"
definition PriorityHigh :: int where "PriorityHigh = 2"
definition MinGasPrice :: u64 where "MinGasPrice = 10"
definition MaxGasPrice :: u64 where "MaxGasPrice = 100"

text \<open>The untyped constants become \<open>float64\<close> where they are used, rounded to the nearest value.\<close>

definition TargetBlockGas :: rat where "TargetBlockGas = 4 / 5"
definition GasPriceAdjustmentFactor :: rat where "GasPriceAdjustmentFactor = 1 / 5"

lemmas gas_consts = BaseTxGas_def TxDataByteGas_def TxSigGas_def BaseGasLimit_def
  PriorityLow_def PriorityNormal_def PriorityHigh_def MinGasPrice_def MaxGasPrice_def
  TargetBlockGas_def GasPriceAdjustmentFactor_def

record GasModel =
  gm_mu :: rwmutex
  currentGasPrice :: u64
  blockGasUsed :: u64
  blockGasLimit :: u64

abbreviation set_gm_mu :: "rwmutex \<Rightarrow> GasModel \<Rightarrow> GasModel" where
  "set_gm_mu m g \<equiv> g\<lparr>gm_mu := m\<rparr>"

definition NewGasModel :: "u64 \<Rightarrow> u64 \<Rightarrow> GasModel" where
  "NewGasModel initialGasPrice limit =
    \<lparr>gm_mu = Unlocked,
     currentGasPrice = (if initialGasPrice < MinGasPrice then 20 else initialGasPrice),
     blockGasUsed = 0, blockGasLimit = limit\<rparr>"

definition CalculateBaseFee :: "GasModel \<Rightarrow> int \<Rightarrow> u64" where
  "CalculateBaseFee g dataSize = BaseTxGas + word_of_int dataSize * TxDataByteGas + TxSigGas"

definition CalculatePriorityFee :: "GasModel \<Rightarrow> int \<Rightarrow> u64" where
  "CalculatePriorityFee g priority =
    (if priority = PriorityHigh then currentGasPrice g * 2
     else if priority = PriorityNormal then currentGasPrice g
     else currentGasPrice g div 2)"

definition utilization :: "u64 \<Rightarrow> u64 \<Rightarrow> float64" where
  "utilization used limit = fdiv (of_u64 used) (of_u64 limit)"

definition UpdateGasPrice :: "GasModel \<Rightarrow> (GasModel \<times> unit) go" where
  "UpdateGasPrice = with_lock gm_mu set_gm_mu (\<lambda>g.
    let u = utilization (blockGasUsed g) (blockGasLimit g);
        price = of_u64 (currentGasPrice g);
        adjustment = fmul price (round64 GasPriceAdjustmentFactor)
    in Ret (if flt (round64 TargetBlockGas) u then
              g\<lparr>currentGasPrice := to_u64 (fmin (fadd price adjustment) (of_u64 MaxGasPrice))\<rparr>
            else if flt u (round64 (TargetBlockGas / 2)) then
              g\<lparr>currentGasPrice := to_u64 (fmax (fsub price adjustment) (of_u64 MinGasPrice))\<rparr>
            else g, ()))"

definition GetCurrentGasPrice :: "GasModel \<Rightarrow> (GasModel \<times> u64) go" where
  "GetCurrentGasPrice = with_rlock gm_mu set_gm_mu (\<lambda>g. Ret (g, currentGasPrice g))"

section \<open>The fee of a transaction\<close>

record TxGasInfo =
  GasUsed :: u64
  GasPrice :: u64
  TotalFee :: u64
  Priority :: int

definition CalculateTransactionGas :: "GasModel \<Rightarrow> int \<Rightarrow> int \<Rightarrow> (GasModel \<times> TxGasInfo) go" where
  "CalculateTransactionGas g txSize priority =
    (let baseFee = CalculateBaseFee g txSize; priorityFee = CalculatePriorityFee g priority in
     go_bind (GetCurrentGasPrice g) (\<lambda>(g', gasPrice).
       Ret (g', \<lparr>GasUsed = baseFee, GasPrice = gasPrice,
                  TotalFee = baseFee * gasPrice + priorityFee, Priority = priority\<rparr>)))"

definition ValidateGas :: "TxGasInfo \<Rightarrow> bool" where
  "ValidateGas gasInfo =
    (if GasPrice gasInfo < MinGasPrice \<or> GasPrice gasInfo > MaxGasPrice then False
     else if Priority gasInfo < PriorityLow \<or> Priority gasInfo > PriorityHigh then False
     else True)"

section \<open>The gas budget of a block\<close>

datatype gas_error = BlockGasLimitExceeded

record BlockGasTracker =
  bt_mu :: rwmutex
  bt_gasUsed :: u64
  bt_gasLimit :: u64
  bt_txCount :: int
  bt_gasModel :: "GasModel option"

abbreviation set_bt_mu :: "rwmutex \<Rightarrow> BlockGasTracker \<Rightarrow> BlockGasTracker" where
  "set_bt_mu m t \<equiv> t\<lparr>bt_mu := m\<rparr>"

definition NewBlockGasTracker :: "u64 \<Rightarrow> GasModel option \<Rightarrow> BlockGasTracker" where
  "NewBlockGasTracker limit model =
    \<lparr>bt_mu = Unlocked, bt_gasUsed = 0, bt_gasLimit = limit, bt_txCount = 0, bt_gasModel = model\<rparr>"

definition Tracker_AddTransaction :: "TxGasInfo \<Rightarrow> BlockGasTracker \<Rightarrow> (BlockGasTracker \<times> (gas_error + unit)) go" where
  "Tracker_AddTransaction gasInfo = with_lock bt_mu set_bt_mu (\<lambda>t.
    if bt_gasUsed t + GasUsed gasInfo > bt_gasLimit t then Ret (t, Inl BlockGasLimitExceeded)
    else Ret (t\<lparr>bt_gasUsed := bt_gasUsed t + GasUsed gasInfo, bt_txCount := bt_txCount t + 1\<rparr>, Inr ()))"

definition GetUtilization :: "BlockGasTracker \<Rightarrow> (BlockGasTracker \<times> float64) go" where
  "GetUtilization = with_rlock bt_mu set_bt_mu (\<lambda>t. Ret (t, utilization (bt_gasUsed t) (bt_gasLimit t)))"

definition Tracker_Reset :: "BlockGasTracker \<Rightarrow> (BlockGasTracker \<times> unit) go" where
  "Tracker_Reset = with_lock bt_mu set_bt_mu (\<lambda>t. Ret (t\<lparr>bt_gasUsed := 0, bt_txCount := 0\<rparr>, ()))"

text \<open>Adding the transactions of a block one after the other; a rejected one is skipped.\<close>

fun add_all :: "TxGasInfo list \<Rightarrow> BlockGasTracker \<Rightarrow> (BlockGasTracker \<times> TxGasInfo list) go" where
  "add_all [] t = Ret (t, [])"
| "add_all (i # is) t =
    go_bind (Tracker_AddTransaction i t) (\<lambda>(t', r).
      go_bind (add_all is t') (\<lambda>(t'', acc).
        Ret (t'', case r of Inl _ \<Rightarrow> acc | Inr _ \<Rightarrow> i # acc)))"

section \<open>The gas limit and the size of a block\<close>

record BlockGasCalculator =
  baseGasLimit :: u64

definition NewBlockGasCalculator :: "u64 \<Rightarrow> BlockGasCalculator" where
  "NewBlockGasCalculator baseLimit = \<lparr>baseGasLimit = baseLimit\<rparr>"

definition CalculateDynamicGasLimit :: "BlockGasCalculator \<Rightarrow> u64 \<Rightarrow> u64 \<Rightarrow> u64" where
  "CalculateDynamicGasLimit bgc prevGasUsed prevGasLimit =
    (if prevGasLimit = 0 then baseGasLimit bgc
     else let u = utilization prevGasUsed prevGasLimit in
       if flt (round64 (4 / 5)) u then
         let newLimit = prevGasLimit + prevGasLimit div 20 in
         to_u64 (fmin (of_u64 newLimit) (of_u64 (baseGasLimit bgc * 2)))
       else if flt u (round64 (2 / 5)) then
         let newLimit = prevGasLimit - prevGasLimit div 20 in
         to_u64 (fmax (of_u64 newLimit) (of_u64 (baseGasLimit bgc)))
       else prevGasLimit)"

definition CalculateBlockSize :: "BlockGasCalculator \<Rightarrow> int \<Rightarrow> u64" where
  "CalculateBlockSize bgc pendingTxCount =
    (let baseSize = 10 * 1024; txSpace = word_of_int (pendingTxCount * 250); maxSize = 1 * 1024 * 1024 in
     to_u64 (fmin (of_u64 (baseSize + txSpace)) (of_u64 maxSize)))"

section \<open>Estimates and previews\<close>

record EstimationResult =
  er_BaseFee :: u64
  er_PriorityFee :: u64
  er_TotalFee :: u64
  er_EstimatedTime :: string
  er_Priority :: string

definition getPriorityString :: "int \<Rightarrow> string" where
  "getPriorityString priority =
    (if priority = PriorityLow then ''Low Priority (Slower, Cheaper)''
     else if priority = PriorityNormal then ''Normal Priority (Regular Speed)''
     else if priority = PriorityHigh then ''High Priority (Faster, More Expensive)''
     else ''Unknown Priority'')"

definition getEstimatedTime :: "int \<Rightarrow> string" where
  "getEstimatedTime priority =
    (if priority = PriorityLow then ''5-10 minutes''
     else if priority = PriorityNormal then ''2-5 minutes''
     else if priority = PriorityHigh then ''< 2 minutes''
     else ''unknown'')"

definition EstimateGas :: "GasModel \<Rightarrow> int \<Rightarrow> int \<Rightarrow> EstimationResult" where
  "EstimateGas g txSize priority =
    (let baseFee = CalculateBaseFee g txSize; priorityFee = CalculatePriorityFee g priority in
     \<lparr>er_BaseFee = baseFee, er_PriorityFee = priorityFee, er_TotalFee = baseFee + priorityFee,
      er_EstimatedTime = getEstimatedTime priority, er_Priority = getPriorityString priority\<rparr>)"

record FeeDetails =
  fd_BaseFee :: u64
  fd_PriorityFee :: u64
  fd_TotalFee :: u64
  fd_MaxFee :: u64
  fd_EstimatedTime :: string
  fd_PriorityLevel :: string
  fd_NetworkCongestion :: string
  fd_USDEstimate :: float64

definition GetNetworkCongestion :: "GasModel \<Rightarrow> string" where
  "GetNetworkCongestion g =
    (let u = utilization (blockGasUsed g) (blockGasLimit g) in
     if flt (round64 (4 / 5)) u then ''High Congestion''
     else if flt (Fin (1 / 2)) u then ''Medium Congestion''
     else ''Low Congestion'')"

definition fee_details :: "EstimationResult \<Rightarrow> string \<Rightarrow> string \<Rightarrow> FeeDetails" where
  "fee_details estimate level congestion =
    \<lparr>fd_BaseFee = er_BaseFee estimate, fd_PriorityFee = er_PriorityFee estimate,
     fd_TotalFee = er_TotalFee estimate,
     fd_MaxFee = er_TotalFee estimate + er_TotalFee estimate div 10,
     fd_EstimatedTime = er_EstimatedTime estimate, fd_PriorityLevel = level,
     fd_NetworkCongestion = congestion, fd_USDEstimate = Fin 0\<rparr>"

definition GetTransactionFeePreview :: "GasModel \<Rightarrow> int \<Rightarrow> (string, FeeDetails) gomap" where
  "GetTransactionFeePreview g txSize =
    (let congestion = GetNetworkCongestion g in
     fold (\<lambda>(level, name) previews.
         gomap_put name (fee_details (EstimateGas g txSize level) name congestion) previews)
       [(PriorityLow, ''Economic''), (PriorityNormal, ''Standard''), (PriorityHigh, ''Fast'')] [])"

definition GetRecommendedFee :: "GasModel \<Rightarrow> int \<Rightarrow> FeeDetails" where
  "GetRecommendedFee g txSize =
    (let congestion = GetNetworkCongestion g;
         priority = (if congestion = ''High Congestion'' then PriorityHigh
                     else if congestion = ''Medium Congestion'' then PriorityNormal
                     else PriorityLow)
     in fee_details (EstimateGas g txSize priority) (getPriorityString priority) congestion)"

section \<open>Gas and tokens\<close>

definition ConvertGasToTokens :: "u64 \<Rightarrow> float64" where
  "ConvertGasToTokens gasAmount = fdiv (of_u64 gasAmount) (Fin 100000000)"

definition ConvertTokensToGas :: "float64 \<Rightarrow> u64" where
  "ConvertTokensToGas tokenAmount = to_u64 (fmul tokenAmount (Fin 100000000))"

section \<open>The gas limit follows the integer rule\<close>

interpretation gas_mu: mutexed gm_mu set_gm_mu
  by unfold_locales simp_all

interpretation tracker_mu: mutexed bt_mu set_bt_mu
  by unfold_locales simp_all

lemma to_u64_int: "0 \<le> n \<Longrightarrow> n < 2 ^ 63 \<Longrightarrow> to_u64 (Fin (of_int n)) = word_of_int n"
  by (subst to_u64_Fin) (simp_all flip: of_int_power)

lemma to_u64_uint: "uint w < 2 ^ 63 \<Longrightarrow> to_u64 (Fin (of_int (uint w))) = w"
  by (subst to_u64_int) simp_all

lemma min_u64_exact:
  assumes "uint v \<le> 2 ^ 53" "uint w \<le> 2 ^ 53"
  shows "to_u64 (fmin (of_u64 v) (of_u64 w)) = min v w"
  using assms to_u64_uint [of "min v w"]
  by (auto simp: of_u64_exact min_def word_le_def simp del: of_int_uint split: if_splits)

lemma max_u64_exact:
  assumes "uint v \<le> 2 ^ 53" "uint w \<le> 2 ^ 53"
  shows "to_u64 (fmax (of_u64 v) (of_u64 w)) = max v w"
  using assms to_u64_uint [of "max v w"]
  by (auto simp: of_u64_exact max_def word_le_def simp del: of_int_uint split: if_splits)

text \<open>Below \<open>2 ^ 50\<close> the comparisons of the utilisation with 0.8 and 0.4 are exact.\<close>

lemma round64_4_5: "round64 (4 / 5) = Fin (3602879701896397 / 2 ^ 52)"
  by (simp add: float_eval)

lemma round64_2_5: "round64 (2 / 5) = Fin (3602879701896397 / 2 ^ 53)"
  by (simp add: float_eval)

lemma above_4_5:
  fixes used limit :: int
  assumes "4 / 5 < (of_int used / of_int limit :: rat)" "0 < limit" "limit \<le> 2 ^ 50"
  shows "7205759403792795 / 2 ^ 53 \<le> (of_int used / of_int limit :: rat)"
proof -
  have "of_int (4 * limit) < (of_int (5 * used) :: rat)" using assms by (simp add: field_simps)
  then have "4 * limit + 1 \<le> 5 * used" by (simp only: of_int_less_iff)
  with assms have "7205759403792795 * limit \<le> 2 ^ 53 * used" by simp
  then have "of_int (7205759403792795 * limit) \<le> (of_int (2 ^ 53 * used) :: rat)"
    by (simp only: of_int_le_iff)
  then show ?thesis using assms by (simp add: field_simps)
qed

lemma below_2_5:
  fixes used limit :: int
  assumes "(of_int used / of_int limit :: rat) < 2 / 5" "0 < limit" "limit \<le> 2 ^ 50"
  shows "(of_int used / of_int limit :: rat) \<le> 7205759403792793 / 2 ^ 54"
proof -
  have "(of_int (5 * used) :: rat) < of_int (2 * limit)" using assms by (simp add: field_simps)
  then have "5 * used + 1 \<le> 2 * limit" by (simp only: of_int_less_iff)
  with assms have "2 ^ 54 * used \<le> 7205759403792793 * limit" by simp
  then have "of_int (2 ^ 54 * used) \<le> (of_int (7205759403792793 * limit) :: rat)"
    by (simp only: of_int_le_iff)
  then show ?thesis using assms by (simp add: field_simps)
qed

lemma utilization_round:
  assumes "uint used \<le> 2 ^ 53" "0 < uint limit" "uint limit \<le> 2 ^ 53"
  shows "utilization used limit = round64 (of_int (uint used) / of_int (uint limit))"
  using assms by (simp add: utilization_def of_u64_exact fdiv_Fin_round del: of_int_uint)

lemma utilization_high_iff:
  assumes "uint used \<le> 2 ^ 53" "0 < uint limit" "uint limit \<le> 2 ^ 50"
  shows "flt (round64 (4 / 5)) (utilization used limit) \<longleftrightarrow> 4 * uint limit < 5 * uint used"
proof -
  let ?x = "of_int (uint used) / of_int (uint limit) :: rat"
  have "flt (round64 (4 / 5)) (round64 ?x) \<longleftrightarrow> 4 / 5 < ?x"
    by (rule flt_round64_above [OF round64_4_5, of "7205759403792795 / 2 ^ 53"])
      (use above_4_5 [of "uint used" "uint limit"] assms in
        \<open>auto simp: representable_def float_eval simp del: of_int_uint\<close>)
  also have "\<dots> \<longleftrightarrow> of_int (4 * uint limit) < (of_int (5 * uint used) :: rat)"
    using assms by (simp add: field_simps del: of_int_uint)
  finally show ?thesis
    using assms by (simp only: of_int_less_iff) (simp add: utilization_round del: of_int_uint)
qed

lemma utilization_low_iff:
  assumes "uint used \<le> 2 ^ 53" "0 < uint limit" "uint limit \<le> 2 ^ 50"
  shows "flt (utilization used limit) (round64 (2 / 5)) \<longleftrightarrow> 5 * uint used < 2 * uint limit"
proof -
  let ?x = "of_int (uint used) / of_int (uint limit) :: rat"
  have "flt (round64 ?x) (round64 (2 / 5)) \<longleftrightarrow> ?x < 2 / 5"
    by (rule flt_round64_below [OF round64_2_5, of "7205759403792793 / 2 ^ 54"])
      (use below_2_5 [of "uint used" "uint limit"] assms in
        \<open>auto simp: representable_def float_eval simp del: of_int_uint\<close>)
  also have "\<dots> \<longleftrightarrow> (of_int (5 * uint used) :: rat) < of_int (2 * uint limit)"
    using assms by (simp add: field_simps del: of_int_uint)
  finally show ?thesis
    using assms by (simp only: of_int_less_iff) (simp add: utilization_round del: of_int_uint)
qed

lemma uint_plus_small: "uint v + uint w < 2 ^ 64 \<Longrightarrow> uint (v + w :: u64) = uint v + uint w"
  by (simp add: uint_plus_if')

lemma uint_times_small: "uint v * uint w < 2 ^ 64 \<Longrightarrow> uint (v * w :: u64) = uint v * uint w"
  by (simp add: uint_word_arith_bintrs take_bit_int_eq_self)

lemma uint_minus_small: "uint w \<le> uint v \<Longrightarrow> uint (v - w :: u64) = uint v - uint w"
  by (simp add: uint_sub_if')

text \<open>
  C33. The dynamic gas limit follows the integer rule: five percent up when the previous block used
  more than four fifths of its limit, five percent down when it used less than two fifths, clamped
  between the base limit and twice the base limit, in which the limit therefore always stays.
\<close>

theorem CalculateDynamicGasLimit_rule:
  assumes "0 < uint (baseGasLimit c)" "uint (baseGasLimit c) \<le> 2 ^ 48"
    and "uint (baseGasLimit c) \<le> uint prev" "uint prev \<le> 2 * uint (baseGasLimit c)"
    and "uint used \<le> 2 ^ 53"
  shows "uint (CalculateDynamicGasLimit c used prev) =
      (if 4 * uint prev < 5 * uint used then min (uint prev + uint prev div 20) (2 * uint (baseGasLimit c))
       else if 5 * uint used < 2 * uint prev then max (uint prev - uint prev div 20) (uint (baseGasLimit c))
       else uint prev)
    \<and> uint (baseGasLimit c) \<le> uint (CalculateDynamicGasLimit c used prev)
    \<and> uint (CalculateDynamicGasLimit c used prev) \<le> 2 * uint (baseGasLimit c)"
proof -
  let ?b = "baseGasLimit c"
  have q: "uint (prev div 20) = uint prev div 20" by (simp add: uint_div)
  have up: "uint (prev + prev div 20) = uint prev + uint prev div 20"
    using assms by (subst uint_plus_small) (simp_all add: q)
  have "uint prev div 20 \<le> uint prev" using uint_ge_0 [of prev] by presburger
  then have down: "uint (prev - prev div 20) = uint prev - uint prev div 20"
    by (subst uint_minus_small) (simp_all add: q)
  have twice: "uint (?b * 2) = uint ?b * 2"
    using assms by (subst uint_times_small) simp_all
  have "prev \<noteq> 0" using assms by auto
  then have eq: "uint (CalculateDynamicGasLimit c used prev) =
      (if 4 * uint prev < 5 * uint used then min (uint prev + uint prev div 20) (2 * uint ?b)
       else if 5 * uint used < 2 * uint prev then max (uint prev - uint prev div 20) (uint ?b)
       else uint prev)"
    using assms up down twice
    by (simp add: CalculateDynamicGasLimit_def Let_def utilization_high_iff utilization_low_iff
        min_u64_exact max_u64_exact min_def max_def word_le_def del: of_int_uint)
  show ?thesis unfolding eq using assms by (auto simp: min_def max_def)
qed

section \<open>The gas price\<close>

lemma round64_1_5: "round64 (1 / 5) = Fin (3602879701896397 / 2 ^ 54)"
  by (simp add: float_eval)

text \<open>A fifth of the price, as \<open>float64\<close> computes it: exact for multiples of five, strictly between
  two integers otherwise.\<close>

lemma fifth_of_multiple:
  assumes "2 \<le> k" "k \<le> 20"
  shows "round64 (of_int (5 * k) * (3602879701896397 / 2 ^ 54)) = Fin (of_int k)"
proof -
  have "list_all (\<lambda>k. round64 (of_int (5 * k) * (3602879701896397 / 2 ^ 54)) = Fin (of_int k)) [2..20]"
    by (simp add: float_eval)
  then show ?thesis using assms by (simp add: list_all_iff del: upto_rec_numeral)
qed

lemma representable_eighths: "\<bar>k\<bar> \<le> 2 ^ 53 \<Longrightarrow> representable (of_int k / 8)"
  using representable_dyadic [of k 3] by simp

lemma fifth_of_price:
  assumes "10 \<le> n" "n \<le> 100"
  obtains r where "fmul (Fin (of_int n)) (round64 GasPriceAdjustmentFactor) = Fin r"
    "n mod 5 = 0 \<longrightarrow> r = of_int (n div 5)"
    "n mod 5 \<noteq> 0 \<longrightarrow> of_int (8 * (n div 5) + 1) / 8 \<le> r"
    "r \<le> of_int (8 * (n div 5) + 7) / 8"
proof -
  let ?k = "n div 5" and ?x = "of_int n * (3602879701896397 / 2 ^ 54) :: rat"
  have fmul: "fmul (Fin (of_int n)) (round64 GasPriceAdjustmentFactor) = round64 ?x"
    using assms by (simp add: GasPriceAdjustmentFactor_def round64_1_5 fmul_Fin_round)
  show ?thesis
  proof (cases "n mod 5 = 0")
    case True
    then have "round64 ?x = Fin (of_int ?k)"
      using fifth_of_multiple [of ?k] assms by fastforce
    then show ?thesis
      using True fmul that [of "of_int ?k"] assms by simp
  next
    case False
    have lo: "of_int (8 * ?k + 1) / 8 \<le> ?x"
    proof -
      have "5 * ?k + 1 \<le> n" using False by presburger
      then have "(8 * ?k + 1) * 2 ^ 54 \<le> 8 * n * 3602879701896397" using assms by simp
      then have "of_int ((8 * ?k + 1) * 2 ^ 54) \<le> (of_int (8 * n * 3602879701896397) :: rat)"
        by (simp only: of_int_le_iff)
      then show ?thesis by simp
    qed
    have hi: "?x \<le> of_int (8 * ?k + 7) / 8"
    proof -
      have "n \<le> 5 * ?k + 4" by presburger
      then have "8 * n * 3602879701896397 \<le> (8 * ?k + 7) * 2 ^ 54" using assms by simp
      then have "(of_int (8 * n * 3602879701896397) :: rat) \<le> of_int ((8 * ?k + 7) * 2 ^ 54)"
        by (simp only: of_int_le_iff)
      then show ?thesis by simp
    qed
    obtain r where "round64 ?x = Fin r" "of_int (8 * ?k + 1) / 8 \<le> r" "r \<le> of_int (8 * ?k + 7) / 8"
      by (rule round64_between [OF representable_eighths representable_eighths lo hi])
        (use assms in simp_all)
    then show ?thesis using False fmul that [of r] by simp
  qed
qed

lemma raised_price:
  assumes "10 \<le> uint p" "uint p \<le> 100"
  shows "to_u64 (fmin (fadd (of_u64 p) (fmul (of_u64 p) (round64 GasPriceAdjustmentFactor))) (of_u64 MaxGasPrice))
    = word_of_int (min 100 (6 * uint p div 5))"
proof -
  define n where "n = uint p"
  have n: "10 \<le> n" "n \<le> 100" using assms by (simp_all add: n_def)
  have p: "of_u64 p = Fin (of_int n)" "of_u64 MaxGasPrice = Fin 100"
    using assms by (simp_all add: n_def of_u64_exact MaxGasPrice_def del: of_int_uint)
  obtain r where r: "fmul (Fin (of_int n)) (round64 GasPriceAdjustmentFactor) = Fin r"
    "n mod 5 = 0 \<longrightarrow> r = of_int (n div 5)"
    "n mod 5 \<noteq> 0 \<longrightarrow> of_int (8 * (n div 5) + 1) / 8 \<le> r" "r \<le> of_int (8 * (n div 5) + 7) / 8"
    by (rule fifth_of_price [OF n])
  have lo: "of_int (8 * (n + n div 5)) / 8 \<le> of_int n + r"
    using r(2,3) by (cases "n mod 5 = 0") simp_all
  have hi: "of_int n + r \<le> of_int (8 * (n + n div 5) + 7) / 8" using r by simp
  obtain s where s: "round64 (of_int n + r) = Fin s"
    "of_int (8 * (n + n div 5)) / 8 \<le> s" "s \<le> of_int (8 * (n + n div 5) + 7) / 8"
    by (rule round64_between [OF representable_eighths representable_eighths lo hi])
      (use n in simp_all)
  have floor: "\<lfloor>min s 100\<rfloor> = min 100 (n + n div 5)" using s n by (intro floor_unique) (auto simp: min_def)
  have "0 \<le> min s 100" using s n by (auto simp: min_def)
  moreover have "n + n div 5 = 6 * n div 5" using div_mult_self1 [of 5 n n] by simp
  ultimately show ?thesis
    using floor by (simp add: p r s n_def [symmetric] to_u64_Fin min_less_iff_disj)
qed

lemma four_fifths: "4 * n div 5 = n - n div 5 - (if n mod 5 = 0 then 0 else 1)" for n :: int
proof -
  define k r where "k = n div 5" and "r = n mod 5"
  have n: "n = 5 * k + r" "0 \<le> r" "r < 5" by (simp_all add: k_def r_def)
  have "4 * n div 5 = n - k - (if r = 0 then 0 else 1)"
    by (rule int_div_pos_eq [of _ _ _ "if r = 0 then 0 else 5 - r"]) (use n in auto)
  then show ?thesis by (simp only: k_def r_def)
qed

lemma lowered_price:
  assumes "10 \<le> uint p" "uint p \<le> 100"
  shows "to_u64 (fmax (fsub (of_u64 p) (fmul (of_u64 p) (round64 GasPriceAdjustmentFactor))) (of_u64 MinGasPrice))
    = word_of_int (max 10 (4 * uint p div 5))"
proof -
  define n where "n = uint p"
  have n: "10 \<le> n" "n \<le> 100" using assms by (simp_all add: n_def)
  have p: "of_u64 p = Fin (of_int n)" "of_u64 MinGasPrice = Fin 10"
    using assms by (simp_all add: n_def of_u64_exact MinGasPrice_def del: of_int_uint)
  obtain r where r: "fmul (Fin (of_int n)) (round64 GasPriceAdjustmentFactor) = Fin r"
    "n mod 5 = 0 \<longrightarrow> r = of_int (n div 5)"
    "n mod 5 \<noteq> 0 \<longrightarrow> of_int (8 * (n div 5) + 1) / 8 \<le> r" "r \<le> of_int (8 * (n div 5) + 7) / 8"
    by (rule fifth_of_price [OF n])
  define m where "m = 4 * n div 5"
  have m: "n mod 5 = 0 \<Longrightarrow> n - n div 5 = m" "n mod 5 \<noteq> 0 \<Longrightarrow> n - n div 5 = m + 1"
    using four_fifths [of n] by (simp_all add: m_def)
  have lo: "of_int (8 * m) / 8 \<le> of_int n - r" and hi: "of_int n - r \<le> of_int (8 * m + 7) / 8"
    using r m by (cases "n mod 5 = 0"; simp)+
  have m100: "0 \<le> m" "m \<le> 100" unfolding m_def using n by simp_all
  obtain s where s: "round64 (of_int n - r) = Fin s"
    "of_int (8 * m) / 8 \<le> s" "s \<le> of_int (8 * m + 7) / 8"
    by (rule round64_between [OF representable_eighths representable_eighths lo hi])
      (use m100 in simp_all)
  have floor: "\<lfloor>max s 10\<rfloor> = max 10 m" using s by (intro floor_unique) (auto simp: max_def)
  have "0 \<le> max s 10" "max s 10 < 2 ^ 63" using s m100 by (auto simp: max_def)
  moreover have "r \<noteq> 0" using r n by (cases "n mod 5 = 0") auto
  ultimately show ?thesis
    using floor by (simp add: p r s n_def [symmetric] m_def fsub_def to_u64_Fin)
qed

definition next_price :: "int \<Rightarrow> int \<Rightarrow> int \<Rightarrow> int" where
  "next_price used limit p =
    (if 4 * limit < 5 * used then min 100 (6 * p div 5)
     else if 5 * used < 2 * limit then max 10 (4 * p div 5) else p)"

lemma UpdateGasPrice_eq:
  assumes "gm_mu g = Unlocked" "10 \<le> uint (currentGasPrice g)" "uint (currentGasPrice g) \<le> 100"
    and "uint (blockGasUsed g) \<le> 2 ^ 53" "0 < uint (blockGasLimit g)" "uint (blockGasLimit g) \<le> 2 ^ 50"
  shows "UpdateGasPrice g = Ret (g\<lparr>currentGasPrice := word_of_int
    (next_price (uint (blockGasUsed g)) (uint (blockGasLimit g)) (uint (currentGasPrice g)))\<rparr>, ())"
  using assms
  by (simp add: UpdateGasPrice_def gas_mu.lock_enters Let_def TargetBlockGas_def utilization_high_iff
      utilization_low_iff raised_price lowered_price next_price_def)

text \<open>
  C32. The gas price follows the integer rule: a fifth up, capped at 100, after a block that used more
  than four fifths of its gas; a fifth down, not below 10, after one that used less than two fifths;
  unchanged otherwise. No other field changes and the mutex is free again.
\<close>

theorem UpdateGasPrice_rule:
  assumes "gm_mu g = Unlocked" "10 \<le> uint (currentGasPrice g)" "uint (currentGasPrice g) \<le> 100"
    and "uint (blockGasUsed g) \<le> 2 ^ 53" "0 < uint (blockGasLimit g)" "uint (blockGasLimit g) \<le> 2 ^ 50"
  shows "UpdateGasPrice g = Ret (g\<lparr>currentGasPrice := word_of_int
    (if 4 * uint (blockGasLimit g) < 5 * uint (blockGasUsed g) then min 100 (6 * uint (currentGasPrice g) div 5)
     else if 5 * uint (blockGasUsed g) < 2 * uint (blockGasLimit g) then max 10 (4 * uint (currentGasPrice g) div 5)
     else uint (currentGasPrice g))\<rparr>, ())"
  using UpdateGasPrice_eq [OF assms] by (simp only: next_price_def)

theorem UpdateGasPrice_rule_witness:
  "UpdateGasPrice \<lparr>gm_mu = Unlocked, currentGasPrice = 20, blockGasUsed = 900000, blockGasLimit = 1000000\<rparr>
   = Ret (\<lparr>gm_mu = Unlocked, currentGasPrice = 24, blockGasUsed = 900000, blockGasLimit = 1000000\<rparr>, ())"
  using UpdateGasPrice_rule [of "\<lparr>gm_mu = Unlocked, currentGasPrice = 20, blockGasUsed = 900000,
    blockGasLimit = 1000000\<rparr>"] by simp

text \<open>The update repeated for consecutive blocks.\<close>

primrec UpdateGasPrice_n :: "nat \<Rightarrow> GasModel \<Rightarrow> (GasModel \<times> unit) go" where
  "UpdateGasPrice_n 0 g = Ret (g, ())"
| "UpdateGasPrice_n (Suc n) g = go_bind (UpdateGasPrice g) (\<lambda>(g', _). UpdateGasPrice_n n g')"

lemma next_price_range:
  "10 \<le> p \<Longrightarrow> p \<le> 100 \<Longrightarrow> 10 \<le> next_price used limit p \<and> next_price used limit p \<le> 100"
  by (auto simp: next_price_def)

lemma UpdateGasPrice_n_eq:
  assumes "gm_mu g = Unlocked" "10 \<le> uint (currentGasPrice g)" "uint (currentGasPrice g) \<le> 100"
    and "uint (blockGasUsed g) \<le> 2 ^ 53" "0 < uint (blockGasLimit g)" "uint (blockGasLimit g) \<le> 2 ^ 50"
  shows "UpdateGasPrice_n n g = Ret (g\<lparr>currentGasPrice := word_of_int
    ((next_price (uint (blockGasUsed g)) (uint (blockGasLimit g)) ^^ n) (uint (currentGasPrice g)))\<rparr>, ())"
  using assms
proof (induction n arbitrary: g)
  case (Suc n)
  let ?p = "next_price (uint (blockGasUsed g)) (uint (blockGasLimit g)) (uint (currentGasPrice g))"
  have "10 \<le> ?p" "?p \<le> 100" using next_price_range Suc.prems by blast+
  then have "uint (word_of_int ?p :: u64) = ?p"
    by (simp add: uint_word_of_int take_bit_int_eq_self)
  with Suc \<open>10 \<le> ?p\<close> \<open>?p \<le> 100\<close> show ?case
    by (simp add: UpdateGasPrice_eq funpow_Suc_right del: funpow.simps)
qed simp

lemma congested_price_mono: "p \<le> q \<Longrightarrow> min 100 (6 * p div 5) \<le> min 100 (6 * q div (5 :: int))"
  by (intro min.mono zdiv_mono1) simp_all

lemma congested_price_climbs:
  assumes "10 \<le> p" "p \<le> (100 :: int)"
  shows "((\<lambda>p. min 100 (6 * p div 5)) ^^ 14) p = 100"
proof -
  let ?f = "\<lambda>p. min 100 (6 * p div (5 :: int))"
  have "(?f ^^ 14) 10 \<le> (?f ^^ 14) p"
    by (rule funpow_mono) (auto simp: mono_def congested_price_mono assms)
  moreover have "(?f ^^ 14) 10 = 100" by code_simp
  moreover have "(?f ^^ Suc 13) p \<le> 100" by (simp only: funpow.simps comp_apply min.cobounded1)
  ultimately show ?thesis by simp
qed

text \<open>
  C15. Under sustained congestion the price reaches its maximum: whatever the price in its range, after
  fourteen updates with more than four fifths of the gas used it is \<open>MaxGasPrice\<close>.
\<close>

theorem congestion_reaches_MaxGasPrice:
  assumes "gm_mu g = Unlocked" "10 \<le> uint (currentGasPrice g)" "uint (currentGasPrice g) \<le> 100"
    and "uint (blockGasUsed g) \<le> 2 ^ 53" "0 < uint (blockGasLimit g)" "uint (blockGasLimit g) \<le> 2 ^ 50"
    and "4 * uint (blockGasLimit g) < 5 * uint (blockGasUsed g)"
  shows "UpdateGasPrice_n 14 g = Ret (g\<lparr>currentGasPrice := MaxGasPrice\<rparr>, ())"
proof -
  have "next_price (uint (blockGasUsed g)) (uint (blockGasLimit g)) = (\<lambda>p. min 100 (6 * p div 5))"
    using assms(7) by (simp add: next_price_def fun_eq_iff)
  then show ?thesis
    using UpdateGasPrice_n_eq [OF assms(1-6)] congested_price_climbs assms
    by (simp add: MaxGasPrice_def)
qed

theorem congestion_reaches_MaxGasPrice_witness:
  "UpdateGasPrice_n 14 \<lparr>gm_mu = Unlocked, currentGasPrice = 20, blockGasUsed = 900000, blockGasLimit = 1000000\<rparr>
   = Ret (\<lparr>gm_mu = Unlocked, currentGasPrice = MaxGasPrice, blockGasUsed = 900000, blockGasLimit = 1000000\<rparr>, ())"
  using congestion_reaches_MaxGasPrice [of "\<lparr>gm_mu = Unlocked, currentGasPrice = 20,
    blockGasUsed = 900000, blockGasLimit = 1000000\<rparr>"] by simp

theorem CalculateDynamicGasLimit_rule_witness:
  "CalculateDynamicGasLimit \<lparr>baseGasLimit = 1000000\<rparr> 990000 1000000 = 1050000
   \<and> CalculateDynamicGasLimit \<lparr>baseGasLimit = 1000000\<rparr> 10 1040000 = 1000000"
  using CalculateDynamicGasLimit_rule [of "\<lparr>baseGasLimit = 1000000\<rparr>" 1000000 990000]
    CalculateDynamicGasLimit_rule [of "\<lparr>baseGasLimit = 1000000\<rparr>" 1040000 10]
  by (simp add: word_eq_iff_unsigned word_uint_eq_iff)

section \<open>The gas budget\<close>

definition gas_sum :: "TxGasInfo list \<Rightarrow> int" where
  "gas_sum is = (\<Sum>i\<leftarrow>is. uint (GasUsed i))"

lemma Tracker_AddTransaction_eq:
  assumes "bt_mu t = Unlocked" "uint (bt_gasUsed t) + uint (GasUsed i) < 2 ^ 64"
  shows "Tracker_AddTransaction i t =
    (if uint (bt_gasUsed t) + uint (GasUsed i) \<le> uint (bt_gasLimit t)
     then Ret (t\<lparr>bt_gasUsed := bt_gasUsed t + GasUsed i, bt_txCount := bt_txCount t + 1\<rparr>, Inr ())
     else Ret (t, Inl BlockGasLimitExceeded))"
  using assms by (cases t)
    (simp add: Tracker_AddTransaction_def tracker_mu.lock_enters word_less_def uint_plus_small)

lemma add_all_budget:
  assumes "bt_mu t = Unlocked" "\<forall>i\<in>set is. uint (GasUsed i) + uint (bt_gasLimit t) < 2 ^ 64"
    and "uint (bt_gasUsed t) \<le> uint (bt_gasLimit t)"
  shows "\<exists>t' acc. add_all is t = Ret (t', acc) \<and> bt_mu t' = Unlocked \<and> bt_gasLimit t' = bt_gasLimit t \<and>
    uint (bt_gasUsed t') = uint (bt_gasUsed t) + gas_sum acc \<and> uint (bt_gasUsed t') \<le> uint (bt_gasLimit t) \<and>
    bt_txCount t' = bt_txCount t + int (length acc) \<and> subseq acc is"
  using assms
proof (induction "is" arbitrary: t)
  case Nil
  then show ?case by (simp add: gas_sum_def)
next
  case (Cons i "is")
  have small: "uint (bt_gasUsed t) + uint (GasUsed i) < 2 ^ 64" using Cons.prems by fastforce
  show ?case
  proof (cases "uint (bt_gasUsed t) + uint (GasUsed i) \<le> uint (bt_gasLimit t)")
    case True
    then show ?thesis
      using Cons.IH [of "t\<lparr>bt_gasUsed := bt_gasUsed t + GasUsed i, bt_txCount := bt_txCount t + 1\<rparr>"] Cons.prems small
      by (auto simp: Tracker_AddTransaction_eq uint_plus_small gas_sum_def)
  next
    case False
    then show ?thesis
      using Cons.IH [of t] Cons.prems small by (auto simp: Tracker_AddTransaction_eq)
  qed
qed

text \<open>
  C32. The gas of the transactions accepted into a block never exceeds the block's gas limit. After a
  \<open>Reset\<close>, adding any sequence of transactions leaves the tracker with exactly the gas and the
  number of the accepted ones, as long as no single transaction's gas wraps around the limit.
\<close>

theorem block_gas_budget:
  assumes "bt_mu t = Unlocked" "\<forall>i\<in>set is. uint (GasUsed i) + uint (bt_gasLimit t) < 2 ^ 64"
  shows "\<exists>t' acc. go_bind (Tracker_Reset t) (\<lambda>(t0, _). add_all is t0) = Ret (t', acc) \<and>
    subseq acc is \<and> uint (bt_gasUsed t') = gas_sum acc \<and> gas_sum acc \<le> uint (bt_gasLimit t) \<and>
    bt_txCount t' = int (length acc) \<and> bt_mu t' = Unlocked"
proof -
  have "Tracker_Reset t = Ret (t\<lparr>bt_gasUsed := 0, bt_txCount := 0\<rparr>, ())"
    using assms(1) by (simp add: Tracker_Reset_def tracker_mu.lock_enters)
  then show ?thesis
    using add_all_budget [of "t\<lparr>bt_gasUsed := 0, bt_txCount := 0\<rparr>" "is"] assms by auto
qed

theorem block_gas_budget_witness:
  "\<exists>t' acc. go_bind (Tracker_Reset (NewBlockGasTracker 50000 None)) (\<lambda>(t0, _). add_all
      [\<lparr>GasUsed = 30000, GasPrice = 20, TotalFee = 0, Priority = 0\<rparr>,
       \<lparr>GasUsed = 30000, GasPrice = 20, TotalFee = 0, Priority = 0\<rparr>] t0) = Ret (t', acc) \<and>
    uint (bt_gasUsed t') = gas_sum acc \<and> gas_sum acc \<le> 50000 \<and> bt_txCount t' = int (length acc)"
  using block_gas_budget [of "NewBlockGasTracker 50000 None"
      "[\<lparr>GasUsed = 30000, GasPrice = 20, TotalFee = 0, Priority = 0\<rparr>,
        \<lparr>GasUsed = 30000, GasPrice = 20, TotalFee = 0, Priority = 0\<rparr>]"]
  by (fastforce simp: NewBlockGasTracker_def)

text \<open>
  C17. The sum that \<open>AddTransaction\<close> compares with the limit is a \<open>uint64\<close> and wraps around: a transaction
  whose gas is the two's complement of the gas already used is accepted under every limit, and it
  sets the block's gas counter back to zero.
\<close>

theorem AddTransaction_wraps:
  assumes "bt_mu t = Unlocked"
  shows "Tracker_AddTransaction (i\<lparr>GasUsed := - bt_gasUsed t\<rparr>) t =
    Ret (t\<lparr>bt_gasUsed := 0, bt_txCount := bt_txCount t + 1\<rparr>, Inr ())"
  using assms by (simp add: Tracker_AddTransaction_def tracker_mu.lock_enters)

theorem AddTransaction_wraps_witness:
  "Tracker_AddTransaction \<lparr>GasUsed = - 50000, GasPrice = 20, TotalFee = 0, Priority = 0\<rparr>
     \<lparr>bt_mu = Unlocked, bt_gasUsed = 50000, bt_gasLimit = 50000, bt_txCount = 2, bt_gasModel = None\<rparr>
   = Ret (\<lparr>bt_mu = Unlocked, bt_gasUsed = 0, bt_gasLimit = 50000, bt_txCount = 3, bt_gasModel = None\<rparr>, Inr ())"
  using AddTransaction_wraps [of "\<lparr>bt_mu = Unlocked, bt_gasUsed = 50000, bt_gasLimit = 50000, bt_txCount = 2,
    bt_gasModel = None\<rparr>" "\<lparr>GasUsed = 0, GasPrice = 20, TotalFee = 0, Priority = 0\<rparr>"] by simp

section \<open>Charged and quoted fees\<close>

lemma CalculateBaseFee_uint:
  assumes "0 \<le> n" "n \<le> 2 ^ 40"
  shows "uint (CalculateBaseFee g n) = 23000 + 16 * n"
proof -
  have "CalculateBaseFee g n = word_of_int (23000 + 16 * n)"
    by (simp add: CalculateBaseFee_def gas_consts)
  then have "uint (CalculateBaseFee g n) = take_bit 64 (23000 + 16 * n)"
    by (simp only: uint_word_of_int) (simp add: take_bit_eq_mod)
  then show ?thesis using assms by (simp add: take_bit_int_eq_self)
qed

lemma CalculatePriorityFee_uint:
  assumes "uint (currentGasPrice g) \<le> 2 ^ 60"
  shows "uint (CalculatePriorityFee g k) =
    (if k = 2 then 2 * uint (currentGasPrice g) else if k = 1 then uint (currentGasPrice g)
     else uint (currentGasPrice g) div 2)"
  using assms by (simp add: CalculatePriorityFee_def gas_consts uint_times_small uint_div)

lemma GetCurrentGasPrice_eq: "gm_mu g = Unlocked \<Longrightarrow> GetCurrentGasPrice g = Ret (g, currentGasPrice g)"
  unfolding GetCurrentGasPrice_def by (rule gas_mu.rlock_readonly) simp_all

text \<open>
  C16. What the estimator quotes is not what the calculator charges. For a transaction of \<open>n\<close> bytes at
  a price \<open>p\<close> in range, the charged fee is the gas times the price plus the priority fee, with no
  wrap-around; the quoted total leaves the price out, and even its maximum with the ten percent
  buffer is below a quarter of the charge.
\<close>

theorem estimate_below_charge:
  assumes "gm_mu g = Unlocked" "10 \<le> uint (currentGasPrice g)" "uint (currentGasPrice g) \<le> 100"
    and "0 \<le> n" "n \<le> 2 ^ 40"
  shows "\<exists>info. CalculateTransactionGas g n k = Ret (g, info) \<and>
    uint (TotalFee info) = (23000 + 16 * n) * uint (currentGasPrice g) + uint (CalculatePriorityFee g k) \<and>
    uint (er_TotalFee (EstimateGas g n k)) = 23000 + 16 * n + uint (CalculatePriorityFee g k) \<and>
    4 * uint (fd_MaxFee (fee_details (EstimateGas g n k) level congestion)) < uint (TotalFee info)"
proof -
  let ?p = "uint (currentGasPrice g)" and ?b = "CalculateBaseFee g n" and ?f = "CalculatePriorityFee g k"
  have b: "uint ?b = 23000 + 16 * n" using assms by (simp add: CalculateBaseFee_uint)
  have f: "uint ?f \<le> 200" "0 \<le> uint ?f" using assms by (auto simp: CalculatePriorityFee_uint)
  have bp: "uint ?b * ?p \<le> (23000 + 16 * 2 ^ 40) * 100" "uint ?b * 10 \<le> uint ?b * ?p"
    using assms by (intro mult_mono; simp add: b)+
  have m: "uint (?b * currentGasPrice g) = uint ?b * ?p" using bp by (intro uint_times_small) simp
  have c: "uint (?b * currentGasPrice g + ?f) = uint ?b * ?p + uint ?f"
    using bp f m by (subst uint_plus_small) simp_all
  have q: "uint (?b + ?f) = uint ?b + uint ?f" using b f assms by (intro uint_plus_small) simp
  have tenth: "uint ((?b + ?f) div 10) = (uint ?b + uint ?f) div 10" by (simp add: uint_div q)
  have mx: "uint (?b + ?f + (?b + ?f) div 10) = uint ?b + uint ?f + (uint ?b + uint ?f) div 10"
    using b f assms by (subst uint_plus_small) (simp_all add: tenth q)
  have "4 * (uint ?b + uint ?f + (uint ?b + uint ?f) div 10) < uint ?b * 10"
    using b f assms(4) by simp
  then have "4 * (uint ?b + uint ?f + (uint ?b + uint ?f) div 10) < uint ?b * ?p + uint ?f"
    using bp(2) f(2) by linarith
  then show ?thesis
    using assms(1) c q mx
    by (simp add: CalculateTransactionGas_def GetCurrentGasPrice_eq EstimateGas_def fee_details_def
        Let_def flip: b)
qed

theorem estimate_below_charge_witness:
  "\<exists>info. CalculateTransactionGas (NewGasModel 20 1000000) 250 1 = Ret (NewGasModel 20 1000000, info) \<and>
    uint (TotalFee info) = 540020 \<and>
    uint (er_TotalFee (EstimateGas (NewGasModel 20 1000000) 250 1)) = 27020"
  using estimate_below_charge [of "NewGasModel 20 1000000" 250 1]
  by (auto simp: NewGasModel_def CalculatePriorityFee_def gas_consts)

end
