(* ===== verification/Sha256.thy ===== *)
theory Sha256
  imports Prelude
begin

text \<open>
  \<open>crypto/sha256\<close> as the node uses it: \<open>Sum256\<close> of a byte string, written over 32-bit words, and
  the hexadecimal digest of a string that block hashes, transaction ids and Merkle nodes are made
  of. The round constants are the first 32 bits of the fractional parts of the cube roots (square
  roots for the initial state) of the first primes, in decimal.

  A digest has 32 bytes and prints as 64 hexadecimal characters, whatever the message; these two
  facts are all that the other theories use. No theorem assumes that the function has no
  collisions: where collision resistance matters the theorem exhibits the two colliding messages.
\<close>

unbundle bit_operations_syntax

section \<open>The compression function\<close>

definition round_constants :: "u32 list" where
  "round_constants = [
    1116352408, 1899447441, 3049323471, 3921009573, 961987163, 1508970993,
    2453635748, 2870763221, 3624381080, 310598401, 607225278, 1426881987,
    1925078388, 2162078206, 2614888103, 3248222580, 3835390401, 4022224774,
    264347078, 604807628, 770255983, 1249150122, 1555081692, 1996064986,
    2554220882, 2821834349, 2952996808, 3210313671, 3336571891, 3584528711,
    113926993, 338241895, 666307205, 773529912, 1294757372, 1396182291,
    1695183700, 1986661051, 2177026350, 2456956037, 2730485921, 2820302411,
    3259730800, 3345764771, 3516065817, 3600352804, 4094571909, 275423344,
    430227734, 506948616, 659060556, 883997877, 958139571, 1322822218,
    1537002063, 1747873779, 1955562222, 2024104815, 2227730452, 2361852424,
    2428436474, 2756734187, 3204031479, 3329325298]"

definition initial_state :: "u32 list" where
  "initial_state = [
    1779033703, 3144134277, 1013904242, 2773480762,
    1359893119, 2600822924, 528734635, 1541459225]"

definition rotr :: "nat \<Rightarrow> u32 \<Rightarrow> u32" where
  "rotr n w = word_rotr n w"

definition small_sigma0 :: "u32 \<Rightarrow> u32" where
  "small_sigma0 w = rotr 7 w XOR rotr 18 w XOR drop_bit 3 w"

definition small_sigma1 :: "u32 \<Rightarrow> u32" where
  "small_sigma1 w = rotr 17 w XOR rotr 19 w XOR drop_bit 10 w"

definition big_sigma0 :: "u32 \<Rightarrow> u32" where
  "big_sigma0 w = rotr 2 w XOR rotr 13 w XOR rotr 22 w"

definition big_sigma1 :: "u32 \<Rightarrow> u32" where
  "big_sigma1 w = rotr 6 w XOR rotr 11 w XOR rotr 25 w"

text \<open>The message schedule, latest word first.\<close>

fun extend_schedule :: "nat \<Rightarrow> u32 list \<Rightarrow> u32 list" where
  "extend_schedule 0 ws = ws"
| "extend_schedule (Suc n) ws =
    extend_schedule n ((small_sigma1 (ws ! 1) + ws ! 6 + small_sigma0 (ws ! 14) + ws ! 15) # ws)"

fun sha_round :: "u32 \<times> u32 \<Rightarrow> u32 list \<Rightarrow> u32 list" where
  "sha_round (k, w) [a, b, c, d, e, f, g, h] =
    (let t1 = h + big_sigma1 e + ((e AND f) XOR (NOT e AND g)) + k + w;
         t2 = big_sigma0 a + ((a AND b) XOR (a AND c) XOR (b AND c))
     in [t1 + t2, a, b, c, d + t1, e, f, g])"
| "sha_round _ s = s"

definition compress :: "u32 list \<Rightarrow> u32 list \<Rightarrow> u32 list" where
  "compress block state =
    (let ws = rev (extend_schedule 48 (rev block))
     in map2 (+) state (fold sha_round (zip round_constants ws) state))"

section \<open>Padding and blocks\<close>

definition be_bytes :: "nat \<Rightarrow> 'a::len word \<Rightarrow> bytes" where
  "be_bytes n x = map (\<lambda>i. ucast (drop_bit (8 * (n - 1 - i)) x)) [0..<n]"

definition pad_message :: "bytes \<Rightarrow> bytes" where
  "pad_message m = m @ [128] @ replicate ((119 - length m mod 64) mod 64) 0 @ be_bytes 8 (word_of_nat (8 * length m) :: u64)"

definition be_word :: "bytes \<Rightarrow> u32" where
  "be_word bs = foldl (\<lambda>acc b. push_bit 8 acc OR ucast b) 0 bs"

fun groups :: "nat \<Rightarrow> nat \<Rightarrow> 'a list \<Rightarrow> 'a list list" where
  "groups 0 n xs = []"
| "groups (Suc k) n xs = take n xs # groups k n (drop n xs)"

definition Sum256 :: "bytes \<Rightarrow> bytes" where
  "Sum256 m =
    (let p = pad_message m;
         blocks = map (map be_word \<circ> groups 16 4) (groups (length p div 64) 64 p)
     in concat (map (be_bytes 4) (fold compress blocks initial_state)))"

text \<open>\<open>hex.EncodeToString(sha256.Sum256([]byte(s))[:])\<close>, the digest of a string.\<close>

definition hash_hex :: "string \<Rightarrow> string" where
  "hash_hex s = EncodeToString (Sum256 (bytes_of_string s))"

section \<open>The length of a digest\<close>

lemma length_be_bytes [simp]: "length (be_bytes n x) = n"
  by (simp add: be_bytes_def)

lemma length_sha_round [simp]: "length (sha_round kw s) = length s"
  by (induction kw s rule: sha_round.induct) (simp_all add: Let_def)

lemma length_fold_sha_round [simp]: "length (fold sha_round kws s) = length s"
  by (induction kws arbitrary: s) simp_all

lemma length_compress [simp]: "length (compress block s) = length s"
  by (simp add: compress_def Let_def)

lemma length_fold_compress [simp]: "length (fold compress blocks s) = length s"
  by (induction blocks arbitrary: s) simp_all

lemma length_Sum256 [simp]: "length (Sum256 m) = 32"
  by (simp add: Sum256_def Let_def length_concat comp_def initial_state_def sum_list_triv)

lemma length_hash_hex [simp]: "length (hash_hex s) = 64"
  by (simp add: hash_hex_def)

text \<open>Padding fills whole blocks.\<close>

lemma pad_message_blocks: "length (pad_message m) mod 64 = 0"
proof -
  let ?n = "length m"
  have "length (pad_message m) = ?n + ((119 - ?n mod 64) mod 64 + 9)"
    by (simp add: pad_message_def)
  then have "length (pad_message m) mod 64 = (?n mod 64 + ((119 - ?n mod 64) mod 64 + 9)) mod 64"
    by (simp only: mod_add_left_eq)
  also have "\<dots> = (?n mod 64 + (119 - ?n mod 64) mod 64 + 9) mod 64" by (simp only: add.assoc)
  also have "\<dots> = (?n mod 64 + (119 - ?n mod 64) + 9) mod 64"
    by (metis mod_add_left_eq mod_add_right_eq)
  also have "?n mod 64 + (119 - ?n mod 64) + 9 = 128"
    using mod_less_divisor [of 64 ?n] by simp
  finally show ?thesis by simp
qed

end
