(* ===== verification/Merkle.thy ===== *)
theory Merkle
  imports Sha256
begin

text \<open>
  The Merkle trees of the node: the loop of \<open>UTXOPool.CalculateMerkleRoot\<close> (utxo.go), the loop of
  \<open>calculateMerkleRoot\<close> (block.go), the sorted pair hash, the inclusion proof of a transaction and
  the loop of \<open>verifyMerkleProof\<close>.

  The loops are written over the digest function, which the callers instantiate with \<open>hash_hex\<close>
  (trees of hexadecimal strings) or \<open>Sum256\<close> (trees of bytes). The locale \<open>digest\<close> is what the
  trees need of it, that all digests have one length; both functions interpret it.
\<close>

section \<open>The trees\<close>

text \<open>One level up, as in utxo.go: an odd last node is paired with itself.\<close>

fun pair_hashes :: "('a list \<Rightarrow> 'a list) \<Rightarrow> 'a list list \<Rightarrow> 'a list list" where
  "pair_hashes h (x # y # xs) = h (x @ y) # pair_hashes h xs"
| "pair_hashes h [x] = [h (x @ x)]"
| "pair_hashes h [] = []"

lemma length_pair_hashes [simp]: "length (pair_hashes h xs) = (length xs + 1) div 2"
  by (induction h xs rule: pair_hashes.induct) simp_all

function merkle_loop :: "('a list \<Rightarrow> 'a list) \<Rightarrow> 'a list list \<Rightarrow> 'a list list" where
  "merkle_loop h hashes = (if length hashes > 1 then merkle_loop h (pair_hashes h hashes) else hashes)"
  by auto
termination by (relation "measure (\<lambda>(h, xs). length xs)") auto

declare merkle_loop.simps [simp del]

text \<open>
  One level up, as in block.go: the last node is appended once more when their number is odd, and
  then the nodes are paired. The loop body indexes \<open>hashes[i+1]\<close>, out of range for an odd number.
\<close>

definition append_last_if_odd :: "'a list \<Rightarrow> 'a list" where
  "append_last_if_odd xs = (if length xs mod 2 \<noteq> 0 then xs @ [last xs] else xs)"

fun pair_even :: "('a list \<Rightarrow> 'a list) \<Rightarrow> 'a list list \<Rightarrow> 'a list list go" where
  "pair_even h (x # y # xs) = go_bind (pair_even h xs) (\<lambda>ys. Ret (h (x @ y) # ys))"
| "pair_even h [x] = Panic"
| "pair_even h [] = Ret []"

lemma pair_hashes_snoc: "length xs mod 2 \<noteq> 0 \<Longrightarrow> pair_hashes h (xs @ [last xs]) = pair_hashes h xs"
  by (induction h xs rule: pair_hashes.induct) (auto simp: mod_Suc split: if_splits)

lemma pair_even_Ret: "length xs mod 2 = 0 \<Longrightarrow> pair_even h xs = Ret (pair_hashes h xs)"
  by (induction h xs rule: pair_even.induct) (auto simp: mod_Suc split: if_splits)

lemma pair_even_append_last: "pair_even h (append_last_if_odd xs) = Ret (pair_hashes h xs)"
  by (auto simp: append_last_if_odd_def pair_even_Ret pair_hashes_snoc mod_Suc)

text \<open>\<open>calculateMerkleRoot\<close> of block.go.\<close>

function block_merkle_loop :: "('a list \<Rightarrow> 'a list) \<Rightarrow> 'a list list \<Rightarrow> 'a list list go" where
  "block_merkle_loop h hashes =
    (if length hashes > 1 then
       go_bind (pair_even h (append_last_if_odd hashes)) (\<lambda>temp. block_merkle_loop h temp)
     else Ret hashes)"
  by auto
termination
  by (relation "measure (\<lambda>(h, xs). length xs)") (auto simp: pair_even_append_last)

declare block_merkle_loop.simps [simp del]

definition zero_hash :: string where
  "zero_hash = ''0x'' @ replicate 64 (CHR ''0'')"

definition calculateMerkleRoot :: "string list \<Rightarrow> string go" where
  "calculateMerkleRoot hashes =
    (if length hashes = 0 then Ret zero_hash
     else go_bind (block_merkle_loop hash_hex hashes) (\<lambda>hs. Ret (''0x'' @ hd hs)))"

definition hashPair :: "string \<Rightarrow> string \<Rightarrow> string" where
  "hashPair left right = (if left > right then hash_hex (right @ left) else hash_hex (left @ right))"

section \<open>Both loops compute the same root\<close>

lemma block_merkle_loop_eq: "block_merkle_loop h xs = Ret (merkle_loop h xs)"
proof (induction h xs rule: merkle_loop.induct)
  case (1 h xs)
  then show ?case
    by (simp add: block_merkle_loop.simps [of h xs] merkle_loop.simps [of h xs] pair_even_append_last)
qed

lemma merkle_loop_singleton: "xs \<noteq> [] \<Longrightarrow> \<exists>r. merkle_loop h xs = [r]"
proof (induction h xs rule: merkle_loop.induct)
  case (1 h xs)
  show ?case
  proof (cases "length xs > 1")
    case True
    then have "length (pair_hashes h xs) \<noteq> 0" by simp
    then have "pair_hashes h xs \<noteq> []" by (metis length_0_conv)
    then show ?thesis using 1 True by (simp add: merkle_loop.simps [of h xs])
  next
    case False
    then have "length xs = 1" using 1 by (cases xs) auto
    then show ?thesis by (auto simp: merkle_loop.simps [of h xs] length_Suc_conv)
  qed
qed

lemma calculateMerkleRoot_eq:
  "hashes \<noteq> [] \<Longrightarrow> calculateMerkleRoot hashes = Ret (''0x'' @ hd (merkle_loop hash_hex hashes))"
  by (simp add: calculateMerkleRoot_def block_merkle_loop_eq)

section \<open>The root binds the leaves\<close>

text \<open>The messages that are hashed while a tree is built, level by level.\<close>

fun pair_inputs :: "'a list list \<Rightarrow> 'a list list" where
  "pair_inputs (x # y # xs) = (x @ y) # pair_inputs xs"
| "pair_inputs [x] = [x @ x]"
| "pair_inputs [] = []"

function tree_inputs :: "('a list \<Rightarrow> 'a list) \<Rightarrow> 'a list list \<Rightarrow> 'a list list" where
  "tree_inputs h xs = (if length xs > 1 then pair_inputs xs @ tree_inputs h (pair_hashes h xs) else [])"
  by auto
termination by (relation "measure (\<lambda>(h, xs). length xs)") auto

declare tree_inputs.simps [simp del]

definition collision :: "('a \<Rightarrow> 'b) \<Rightarrow> 'a list \<Rightarrow> 'a list \<Rightarrow> bool" where
  "collision h as bs = (\<exists>a\<in>set as. \<exists>b\<in>set bs. a \<noteq> b \<and> h a = h b)"

lemma collision_append1: "collision h bs cs \<Longrightarrow> collision h (as @ bs) (ds @ cs)"
  by (auto simp: collision_def)

lemma collision_append2: "collision h as ds \<Longrightarrow> collision h (as @ bs) (ds @ cs)"
  by (auto simp: collision_def)

lemma collision_map:
  "length as = length bs \<Longrightarrow> map h as = map h bs \<Longrightarrow> as = bs \<or> collision h as bs"
  by (induction as bs rule: list_induct2) (auto simp: collision_def)

lemma pair_hashes_map: "pair_hashes h xs = map h (pair_inputs xs)"
  by (induction xs rule: pair_inputs.induct) auto

lemma length_pair_inputs [simp]: "length (pair_inputs xs) = (length xs + 1) div 2"
  by (induction xs rule: pair_inputs.induct) simp_all

lemma pair_inputs_inject:
  assumes "pair_inputs xs = pair_inputs ys" "length xs = length ys"
    and "\<forall>x\<in>set xs. length x = n" "\<forall>y\<in>set ys. length y = n"
  shows "xs = ys"
  using assms
proof (induction xs arbitrary: ys rule: pair_inputs.induct)
  case (1 x y xs)
  then obtain u v us where ys: "ys = u # v # us"
    by (cases ys; cases "tl ys") auto
  then show ?case using 1 by auto
next
  case (2 x)
  then obtain u where "ys = [u]" by (cases ys) auto
  then show ?case using 2 by simp
qed simp

locale digest =
  fixes h :: "'a list \<Rightarrow> 'a list" and n :: nat
  assumes length_digest: "length (h m) = n"
begin

lemma length_pair_digest: "x \<in> set (pair_hashes h xs) \<Longrightarrow> length x = n"
  by (auto simp: pair_hashes_map length_digest)

lemma root_binds:
  assumes "length xs = length ys" "\<forall>x\<in>set xs. length x = n" "\<forall>y\<in>set ys. length y = n"
    and "merkle_loop h xs = merkle_loop h ys"
  shows "xs = ys \<or> collision h (tree_inputs h xs) (tree_inputs h ys)"
  using assms
proof (induction "length xs" arbitrary: xs ys rule: less_induct)
  case less
  show ?case
  proof (cases "length xs > 1")
    case False
    then show ?thesis using less.prems by (simp add: merkle_loop.simps [of h xs] merkle_loop.simps [of h ys])
  next
    case True
    let ?xs = "pair_hashes h xs" and ?ys = "pair_hashes h ys"
    have "merkle_loop h ?xs = merkle_loop h ?ys"
      using True less.prems by (simp add: merkle_loop.simps [of h xs] merkle_loop.simps [of h ys])
    moreover have "length ?xs < length xs" "length ?xs = length ?ys" using True less.prems by simp_all
    ultimately have "?xs = ?ys \<or> collision h (tree_inputs h ?xs) (tree_inputs h ?ys)"
      using length_pair_digest less.hyps [of ?xs ?ys] by blast
    moreover have "?xs = ?ys \<Longrightarrow> pair_inputs xs = pair_inputs ys \<or> collision h (pair_inputs xs) (pair_inputs ys)"
      using collision_map [of "pair_inputs xs" "pair_inputs ys" h] less.prems
      by (simp add: pair_hashes_map)
    moreover have "pair_inputs xs = pair_inputs ys \<Longrightarrow> xs = ys"
      using pair_inputs_inject [of xs ys n] less.prems by blast
    moreover have "tree_inputs h xs = pair_inputs xs @ tree_inputs h ?xs"
      "tree_inputs h ys = pair_inputs ys @ tree_inputs h ?ys"
      using True less.prems(1) by (simp_all add: tree_inputs.simps [of h xs] tree_inputs.simps [of h ys])
    ultimately show ?thesis by (metis collision_append1 collision_append2)
  qed
qed

text \<open>The root of a tree of two or more leaves, and every digest of a leaf, is a digest.\<close>

lemma length_root:
  assumes "xs \<noteq> []" "\<forall>x\<in>set xs. length x = n"
  shows "length (hd (merkle_loop h xs)) = n"
  using assms
proof (induction "length xs" arbitrary: xs rule: less_induct)
  case less
  show ?case
  proof (cases "length xs > 1")
    case False
    then show ?thesis using less.prems by (cases xs) (auto simp: merkle_loop.simps)
  next
    case True
    then have "length (pair_hashes h xs) \<noteq> 0" by simp
    then have "pair_hashes h xs \<noteq> []" by (metis length_0_conv)
    then show ?thesis
      using True less.hyps [of "pair_hashes h xs"] length_pair_digest
      by (simp add: merkle_loop.simps [of h xs])
  qed
qed

end

interpretation hex_digest: digest hash_hex 64
  by unfold_locales simp

interpretation byte_digest: digest Sum256 32
  by unfold_locales simp

section \<open>Inclusion proofs of transactions\<close>

text \<open>
  The loop over the pairs of one level in \<open>generateMerkleProofForIndex\<close> (block.go): \<open>i\<close> is the loop
  variable, \<open>idx\<close> the variable \<open>currentIndex\<close>, which the body overwrites with the position of the
  parent as soon as it meets the pair.
\<close>

fun proof_pairs :: "('a list \<Rightarrow> 'a list) \<Rightarrow> nat \<Rightarrow> 'a list list \<Rightarrow> nat \<Rightarrow> 'a list list \<Rightarrow> 'a list list \<Rightarrow>
    'a list list \<times> 'a list list \<times> nat" where
  "proof_pairs h i (x # y # xs) idx pf nxt =
    (if i = idx \<or> i + 1 = idx then
       proof_pairs h (i + 2) xs (length (nxt @ [h (x @ y)]) - 1)
         (pf @ [if i = idx then y else x]) (nxt @ [h (x @ y)])
     else proof_pairs h (i + 2) xs idx pf (nxt @ [h (x @ y)]))"
| "proof_pairs h i xs idx pf nxt = (pf, nxt, idx)"

lemma proof_pairs_next:
  "fst (snd (proof_pairs h i xs idx pf nxt)) = nxt @ pair_hashes h (take (2 * (length xs div 2)) xs)"
  by (induction h i xs idx pf nxt rule: proof_pairs.induct) auto

lemma length_append_last_if_odd: "xs \<noteq> [] \<Longrightarrow> length (append_last_if_odd xs) = 2 * ((length xs + 1) div 2)"
  by (simp add: append_last_if_odd_def) presburger

lemma pair_hashes_append_last: "pair_hashes h (append_last_if_odd xs) = pair_hashes h xs"
  by (simp add: append_last_if_odd_def pair_hashes_snoc)

lemma proof_pairs_next_level:
  "xs \<noteq> [] \<Longrightarrow> fst (snd (proof_pairs h i (append_last_if_odd xs) idx pf [])) = pair_hashes h xs"
  by (simp add: proof_pairs_next length_append_last_if_odd pair_hashes_append_last)

function proof_loop :: "('a list \<Rightarrow> 'a list) \<Rightarrow> 'a list list \<Rightarrow> nat \<Rightarrow> 'a list list \<Rightarrow> 'a list list" where
  "proof_loop h level idx pf =
    (if length level > 1 then
       let (pf', nxt, idx') = proof_pairs h 0 (append_last_if_odd level) idx pf []
       in proof_loop h nxt (idx' div 2) pf'
     else pf)"
  by auto
termination
proof (relation "measure (\<lambda>(h, level, _). length level)", goal_cases)
  case (2 h level idx pf p pf' q nxt idx')
  then have "nxt = pair_hashes h level"
    using proof_pairs_next_level [of level h 0 idx pf] by (metis fst_conv snd_conv
        length_greater_0_conv less_trans zero_less_one)
  with 2 show ?case by simp
qed simp

declare proof_loop.simps [simp del]

definition generateMerkleProofForIndex :: "string list \<Rightarrow> nat \<Rightarrow> string list" where
  "generateMerkleProofForIndex hashes index =
    (if length hashes = 0 then []
     else map EncodeToString (proof_loop Sum256 (map (Sum256 \<circ> bytes_of_string) hashes) index []))"

text \<open>
  What an inclusion proof is: the sibling of the node at every level, from the leaf up, with which
  a verifier recomputes the root.
\<close>

function siblings :: "('a list \<Rightarrow> 'a list) \<Rightarrow> 'a list list \<Rightarrow> nat \<Rightarrow> 'a list list" where
  "siblings h level i =
    (if length level > 1 then
       append_last_if_odd level ! (if i mod 2 = 0 then i + 1 else i - 1) # siblings h (pair_hashes h level) (i div 2)
     else [])"
  by auto
termination by (relation "measure (\<lambda>(h, level, _). length level)") auto

declare siblings.simps [simp del]

fun recompute :: "('a list \<Rightarrow> 'a list) \<Rightarrow> nat \<Rightarrow> 'a list \<Rightarrow> 'a list list \<Rightarrow> 'a list" where
  "recompute h i x [] = x"
| "recompute h i x (s # ss) = recompute h (i div 2) (if i mod 2 = 0 then h (x @ s) else h (s @ x)) ss"

lemma nth_pair_hashes:
  "i < length xs \<Longrightarrow> pair_hashes h xs ! (i div 2) =
    h (append_last_if_odd xs ! (2 * (i div 2)) @ append_last_if_odd xs ! (2 * (i div 2) + 1))"
proof (induction h xs arbitrary: i rule: pair_hashes.induct)
  case (1 h x y xs)
  show ?case
  proof (cases "i < 2")
    case True
    then show ?thesis by (auto simp: append_last_if_odd_def less_Suc_eq numeral_2_eq_2)
  next
    case False
    then obtain j where i: "i = Suc (Suc j)" by (metis Suc_1 Suc_lessI less_2_cases_iff nat.exhaust)
    have "append_last_if_odd (x # y # xs) = x # y # append_last_if_odd xs" if "xs \<noteq> []"
      using that by (simp add: append_last_if_odd_def)
    then show ?thesis using 1 i by (cases xs) auto
  qed
qed (auto simp: append_last_if_odd_def)

lemma nth_append_last_if_odd: "i < length xs \<Longrightarrow> append_last_if_odd xs ! i = xs ! i"
  by (simp add: append_last_if_odd_def nth_append)

text \<open>The siblings recompute the root.\<close>

lemma recompute_siblings:
  "i < length xs \<Longrightarrow> recompute h i (xs ! i) (siblings h xs i) = hd (merkle_loop h xs)"
proof (induction h xs i rule: siblings.induct)
  case (1 h xs i)
  show ?case
  proof (cases "length xs > 1")
    case False
    then show ?thesis using 1 by (cases xs) (auto simp: merkle_loop.simps siblings.simps)
  next
    case True
    have "2 * (i div 2) = (if i mod 2 = 0 then i else i - 1)" by presburger
    then have "(if i mod 2 = 0 then h (xs ! i @ append_last_if_odd xs ! (i + 1))
        else h (append_last_if_odd xs ! (i - 1) @ xs ! i)) = pair_hashes h xs ! (i div 2)"
      using 1(2) by (auto simp: nth_pair_hashes nth_append_last_if_odd)
    moreover have "i div 2 < length (pair_hashes h xs)" using 1(2) by simp
    ultimately show ?thesis
      using 1 True by (cases "i mod 2 = 0")
        (simp_all add: merkle_loop.simps [of h xs] siblings.simps [of h xs i] del: length_pair_hashes)
  qed
qed

lemma proof_pairs_past:
  "idx < i \<Longrightarrow> length xs mod 2 = 0 \<Longrightarrow> proof_pairs h i xs idx pf nxt = (pf, nxt @ pair_hashes h xs, idx)"
  by (induction h i xs idx pf nxt rule: proof_pairs.induct) (auto simp: mod_Suc split: if_splits)

lemma proof_pairs_eq:
  "i + k < i + length xs \<Longrightarrow> length xs mod 2 = 0 \<Longrightarrow> i = 2 * length nxt \<Longrightarrow>
   proof_pairs h i xs (i + k) pf nxt =
     (pf @ [xs ! (if k mod 2 = 0 then k + 1 else k - 1)], nxt @ pair_hashes h xs, (i + k) div 2)"
proof (induction h i xs "i + k" pf nxt arbitrary: k rule: proof_pairs.induct)
  case (1 h i x y xs pf nxt)
  show ?case
  proof (cases "k < 2")
    case True
    then have "k = 0 \<or> k = 1" by auto
    then show ?thesis using 1 by (auto simp: proof_pairs_past mod_Suc split: if_splits)
  next
    case False
    then obtain j where k: "k = Suc (Suc j)" by (metis Suc_1 Suc_lessI less_2_cases_iff nat.exhaust)
    have "proof_pairs h (i + 2) xs (i + 2 + j) pf (nxt @ [h (x @ y)]) =
      (pf @ [xs ! (if j mod 2 = 0 then j + 1 else j - 1)], (nxt @ [h (x @ y)]) @ pair_hashes h xs, (i + 2 + j) div 2)"
      using 1 k by (intro 1(2)) (auto simp: mod_Suc split: if_splits)
    then show ?thesis using k by (auto simp: mod_Suc nth_Cons' split: if_splits)
  qed
qed (auto simp: mod_Suc)

lemma proof_loop_step:
  assumes "length xs > 1" "k < length xs"
  shows "proof_loop h xs k pf = proof_loop h (pair_hashes h xs) (k div 2 div 2)
    (pf @ [append_last_if_odd xs ! (if k mod 2 = 0 then k + 1 else k - 1)])"
proof -
  have ne: "xs \<noteq> []" using assms by auto
  have "k < length (append_last_if_odd xs)" using assms by (auto simp: append_last_if_odd_def)
  then have "proof_pairs h 0 (append_last_if_odd xs) k pf [] =
      (pf @ [append_last_if_odd xs ! (if k mod 2 = 0 then k + 1 else k - 1)], pair_hashes h xs, k div 2)"
    using proof_pairs_eq [of 0 k "append_last_if_odd xs" "[]" h pf]
    by (simp add: length_append_last_if_odd [OF ne] pair_hashes_append_last)
  then show ?thesis using assms(1) by (simp add: proof_loop.simps [of h xs])
qed

lemma proof_loop_low:
  "k < length xs \<Longrightarrow> k < 2 \<Longrightarrow> proof_loop h xs k pf = pf @ siblings h xs k"
proof (induction h xs k arbitrary: pf rule: siblings.induct)
  case (1 h xs k)
  show ?case
  proof (cases "length xs > 1")
    case True
    then have "k div 2 < length (pair_hashes h xs)" "k div 2 div 2 = k div 2" "k div 2 < 2"
      using 1 by auto
    with 1 True show ?thesis
      by (simp add: proof_loop_step siblings.simps [of h xs k] del: length_pair_hashes)
  qed (simp add: proof_loop.simps siblings.simps)
qed

text \<open>
  C27. The inclusion proof that \<open>generateMerkleProofForIndex\<close> produces for the first or the second
  transaction of a block, whatever the number of transactions, is the list of siblings from which a
  verifier recomputes the Merkle root of the block's transaction hashes.
\<close>

theorem merkle_proof_of_first_pair:
  assumes "index < length hashes" "index < 2"
  shows "\<exists>ss. generateMerkleProofForIndex hashes index = map EncodeToString ss \<and>
    recompute Sum256 index (Sum256 (bytes_of_string (hashes ! index))) ss
      = hd (merkle_loop Sum256 (map (Sum256 \<circ> bytes_of_string) hashes))"
proof -
  let ?xs = "map (Sum256 \<circ> bytes_of_string) hashes"
  have "generateMerkleProofForIndex hashes index = map EncodeToString (siblings Sum256 ?xs index)"
    using assms by (auto simp: generateMerkleProofForIndex_def proof_loop_low)
  moreover have "recompute Sum256 index (?xs ! index) (siblings Sum256 ?xs index) = hd (merkle_loop Sum256 ?xs)"
    using assms by (intro recompute_siblings) simp
  ultimately show ?thesis using assms by auto
qed

theorem merkle_proof_of_first_pair_witness:
  "\<exists>ss. generateMerkleProofForIndex [''t0'', ''t1'', ''t2''] 1 = map EncodeToString ss \<and>
    recompute Sum256 1 (Sum256 (bytes_of_string ''t1'')) ss
      = hd (merkle_loop Sum256 (map (Sum256 \<circ> bytes_of_string) [''t0'', ''t1'', ''t2'']))"
  using merkle_proof_of_first_pair [of 1 "[''t0'', ''t1'', ''t2'']"] by simp

text \<open>
  C28. For a later transaction the proof is wrong: \<open>currentIndex\<close> is already the parent's position when it is
  halved again. In a block of four transactions the proof of the third one holds the node above the
  third and fourth transaction itself where its sibling belongs, and recomputing the root from it
  fails unless the two halves of the tree are equal or the digest has a collision on these inputs.
\<close>

theorem merkle_proof_third_of_four:
  defines "leaf \<equiv> Sum256 \<circ> bytes_of_string"
  shows "generateMerkleProofForIndex [a, b, c, d] 2 =
      map EncodeToString [leaf d, Sum256 (leaf c @ leaf d)]
    \<and> (recompute Sum256 2 (leaf c) [leaf d, Sum256 (leaf c @ leaf d)]
         = hd (merkle_loop Sum256 [leaf a, leaf b, leaf c, leaf d]) \<longrightarrow>
       Sum256 (leaf a @ leaf b) = Sum256 (leaf c @ leaf d) \<or>
       collision Sum256 [Sum256 (leaf c @ leaf d) @ Sum256 (leaf c @ leaf d)]
         [Sum256 (leaf a @ leaf b) @ Sum256 (leaf c @ leaf d)])"
proof -
  let ?l = "Sum256 (leaf a @ leaf b)" and ?r = "Sum256 (leaf c @ leaf d)"
  have "proof_loop Sum256 [leaf a, leaf b, leaf c, leaf d] 2 [] = [leaf d, ?r]"
    by (simp add: proof_loop_step append_last_if_odd_def proof_loop.simps)
  then have "generateMerkleProofForIndex [a, b, c, d] 2 = map EncodeToString [leaf d, ?r]"
    by (simp add: generateMerkleProofForIndex_def leaf_def)
  moreover have "hd (merkle_loop Sum256 [leaf a, leaf b, leaf c, leaf d]) = Sum256 (?l @ ?r)"
    by (simp add: merkle_loop.simps)
  ultimately show ?thesis by (auto simp: collision_def)
qed

theorem merkle_proof_third_of_four_witness:
  "generateMerkleProofForIndex [''t0'', ''t1'', ''t2'', ''t3''] 2 = map EncodeToString
     [Sum256 (bytes_of_string ''t3''),
      Sum256 (Sum256 (bytes_of_string ''t2'') @ Sum256 (bytes_of_string ''t3''))]"
  using merkle_proof_third_of_four [of "''t0''" "''t1''" "''t2''" "''t3''"] by simp

text \<open>
  C29. The root of an odd number of hashes, three or more, does not change when the last hash is
  appended once more: the two lists of leaves have one Merkle root in \<open>calculateMerkleRoot\<close>.
\<close>

theorem calculateMerkleRoot_duplicate_last:
  assumes "length hashes mod 2 = 1" "length hashes \<ge> 3"
  shows "calculateMerkleRoot (hashes @ [last hashes]) = calculateMerkleRoot hashes"
proof -
  have ne: "hashes \<noteq> []" using assms by auto
  then have "merkle_loop hash_hex (hashes @ [last hashes]) = merkle_loop hash_hex (pair_hashes hash_hex hashes)"
    using assms by (simp add: merkle_loop.simps [of _ "hashes @ [last hashes]"] pair_hashes_snoc)
  then have "merkle_loop hash_hex (hashes @ [last hashes]) = merkle_loop hash_hex hashes"
    using assms by (simp add: merkle_loop.simps [of _ hashes])
  with ne show ?thesis by (simp add: calculateMerkleRoot_eq)
qed

theorem calculateMerkleRoot_duplicate_last_witness:
  "calculateMerkleRoot [''a'', ''b'', ''c'', ''c''] = calculateMerkleRoot [''a'', ''b'', ''c'']"
  using calculateMerkleRoot_duplicate_last [of "[''a'', ''b'', ''c'']"] by simp

end
