(* ===== verification/Crypto.thy ===== *)
theory Crypto
  imports Sha256 Float64
begin

text \<open>
  Keys, signatures and addresses: \<open>crypto.go\<close> (signing and verifying a message), the address
  functions of \<open>wallet.go\<close> and \<open>wallet_utils.go\<close>, and \<open>multi_sig_wallet.go\<close>. Of the Go library it
  holds \<open>hex.DecodeString\<close>, the byte forms of \<open>big.Int\<close>, and ECDSA on the curve P-256.

  The lemmas show that hexadecimal coding and big-endian coding are inverse to decoding, that every
  generated address validates, when a signature survives its encoding, and what a multi-signature
  wallet guarantees.
\<close>

section \<open>Hexadecimal decoding\<close>

definition from_hex_char :: "char \<Rightarrow> nat option" where
  "from_hex_char c =
    (let k = of_char c in
     if 48 \<le> k \<and> k \<le> 57 then Some (k - 48)
     else if 97 \<le> k \<and> k \<le> 102 then Some (k - 87)
     else if 65 \<le> k \<and> k \<le> 70 then Some (k - 55)
     else None)"

text \<open>\<open>hex.DecodeString\<close>; None is the error for an odd length or a character that is no digit.\<close>

fun DecodeString :: "string \<Rightarrow> bytes option" where
  "DecodeString [] = Some []"
| "DecodeString [c] = None"
| "DecodeString (c # d # cs) =
    (case (from_hex_char c, from_hex_char d) of
       (Some x, Some y) \<Rightarrow> map_option (\<lambda>bs. word_of_nat (16 * x + y) # bs) (DecodeString cs)
     | _ \<Rightarrow> None)"

section \<open>Integers as bytes\<close>

text \<open>\<open>big.Int.SetBytes\<close> and \<open>big.Int.Bytes\<close>: big-endian, without leading zeros.\<close>

definition SetBytes :: "bytes \<Rightarrow> int" where
  "SetBytes bs = foldl (\<lambda>acc b. 256 * acc + uint b) 0 bs"

function int_bytes :: "int \<Rightarrow> bytes" where
  "int_bytes x = (if x \<le> 0 then [] else int_bytes (x div 256) @ [word_of_int x])"
  by auto
termination by (relation "measure nat") auto

declare int_bytes.simps [simp del]

text \<open>\<open>big.Int.Text(16)\<close>.\<close>

function hex_text :: "int \<Rightarrow> string" where
  "hex_text x = (if x < 16 then [hex_digit (nat x)] else hex_text (x div 16) @ [hex_digit (nat (x mod 16))])"
  by auto
termination by (relation "measure nat") auto

declare hex_text.simps [simp del]

section \<open>The curve P-256\<close>

definition P256_p :: int where
  "P256_p = 115792089210356248762697446949407573530086143415290314195533631308867097853951"
definition P256_n :: int where
  "P256_n = 115792089210356248762697446949407573529996955224135760342422259061068512044369"
definition P256_b :: int where
  "P256_b = 41058363725152142129326129780047268409114441015993725554835256314039467401291"
definition P256_G :: "int \<times> int" where
  "P256_G = (48439561293906451759052585252797914202762949526041747995844080717082404635286,
             36134250956749795798585127919587881956611106672985015071877198253568414405109)"

text \<open>The point at infinity is None.\<close>

type_synonym point = "(int \<times> int) option"

function pow_mod :: "int \<Rightarrow> int \<Rightarrow> int \<Rightarrow> int" where
  "pow_mod x k m =
    (if k \<le> 0 then 1 mod m
     else let r = pow_mod (x * x mod m) (k div 2) m in if odd k then x * r mod m else r)"
  by auto
termination by (relation "measure (\<lambda>(x, k, m). nat k)") auto

declare pow_mod.simps [simp del]

text \<open>The inverse modulo a prime, by Fermat's little theorem.\<close>

definition inv_mod :: "int \<Rightarrow> int \<Rightarrow> int" where
  "inv_mod x m = pow_mod (x mod m) (m - 2) m"

definition on_curve :: "int \<times> int \<Rightarrow> bool" where
  "on_curve = (\<lambda>(x, y). 0 \<le> x \<and> x < P256_p \<and> 0 \<le> y \<and> y < P256_p \<and>
     y * y mod P256_p = (x * x * x - 3 * x + P256_b) mod P256_p)"

fun point_add :: "point \<Rightarrow> point \<Rightarrow> point" where
  "point_add None q = q"
| "point_add q None = q"
| "point_add (Some (x1, y1)) (Some (x2, y2)) =
    (if x1 = x2 \<and> (y1 + y2) mod P256_p = 0 then None
     else let l = (if x1 = x2 then (3 * x1 * x1 - 3) * inv_mod (2 * y1) P256_p
                   else (y2 - y1) * inv_mod (x2 - x1) P256_p) mod P256_p;
              x3 = (l * l - x1 - x2) mod P256_p
          in Some (x3, (l * (x1 - x3) - y1) mod P256_p))"

function scalar_mult :: "int \<Rightarrow> point \<Rightarrow> point" where
  "scalar_mult k q =
    (if k \<le> 0 then None
     else let r = scalar_mult (k div 2) (point_add q q) in if odd k then point_add q r else r)"
  by auto
termination by (relation "measure (\<lambda>(k, q). nat k)") auto

declare scalar_mult.simps [simp del]

text \<open>A public key; its curve is P-256 everywhere in the program. A nil key is None.\<close>

record PublicKey =
  pk_X :: int
  pk_Y :: int

text \<open>\<open>ecdsa.Verify\<close>. A nil key is dereferenced once \<open>r\<close> and \<open>s\<close> are positive.\<close>

definition ecdsa_verify :: "PublicKey option \<Rightarrow> bytes \<Rightarrow> int \<Rightarrow> int \<Rightarrow> bool go" where
  "ecdsa_verify pub hash r s =
    (if r \<le> 0 \<or> s \<le> 0 then Ret False
     else case pub of
       None \<Rightarrow> Panic
     | Some pk \<Rightarrow>
         Ret (on_curve (pk_X pk, pk_Y pk) \<and> r < P256_n \<and> s < P256_n \<and>
           (let e = SetBytes hash mod P256_n; w = inv_mod s P256_n;
                u1 = e * w mod P256_n; u2 = r * w mod P256_n in
            case point_add (scalar_mult u1 (Some P256_G)) (scalar_mult u2 (Some (pk_X pk, pk_Y pk))) of
              None \<Rightarrow> False
            | Some (x, _) \<Rightarrow> x mod P256_n = r)))"

text \<open>\<open>ecdsa.Sign\<close> with private key \<open>d\<close> for one choice \<open>k\<close> of its random nonce; None is a choice that
  the library rejects and draws again.\<close>

definition ecdsa_sign :: "int \<Rightarrow> int \<Rightarrow> bytes \<Rightarrow> (int \<times> int) option" where
  "ecdsa_sign d k hash =
    (case scalar_mult k (Some P256_G) of
       None \<Rightarrow> None
     | Some (x, _) \<Rightarrow>
         let r = x mod P256_n;
             s = (SetBytes hash mod P256_n + r * d) * inv_mod k P256_n mod P256_n
         in if r = 0 \<or> s = 0 then None else Some (r, s))"

section \<open>Signing and verifying messages\<close>

definition SignMessage :: "int \<Rightarrow> int \<Rightarrow> string \<Rightarrow> string option" where
  "SignMessage d k message =
    map_option (\<lambda>(r, s). EncodeToString (int_bytes r @ int_bytes s))
      (ecdsa_sign d k (Sum256 (bytes_of_string message)))"

text \<open>The two halves of a decoded signature.\<close>

definition split_signature :: "bytes \<Rightarrow> int \<times> int" where
  "split_signature sigBytes =
    (let sigLen = length sigBytes div 2
     in (SetBytes (take sigLen sigBytes), SetBytes (drop sigLen sigBytes)))"

definition VerifySignature :: "PublicKey option \<Rightarrow> string \<Rightarrow> string \<Rightarrow> bool go" where
  "VerifySignature publicKey message signature =
    (case DecodeString signature of
       None \<Rightarrow> Ret False
     | Some sigBytes \<Rightarrow>
         let (r, s) = split_signature sigBytes
         in ecdsa_verify publicKey (Sum256 (bytes_of_string message)) r s)"

section \<open>Addresses and keys\<close>

definition GenerateAddress :: "PublicKey \<Rightarrow> string" where
  "GenerateAddress publicKey =
    (let pubKeyBytes = int_bytes (pk_X publicKey) @ int_bytes (pk_Y publicKey);
         hash = Sum256 pubKeyBytes;
         checksum = Sum256 (take 10 hash)
     in ''sup'' @ EncodeToString (take 10 hash) @ EncodeToString (take 4 checksum))"

text \<open>\<open>address[:36]\<close> panics on a shorter string.\<close>

definition slice_to :: "nat \<Rightarrow> 'a list \<Rightarrow> 'a list go" where
  "slice_to n xs = (if n \<le> length xs then Ret (take n xs) else Panic)"

definition EncodeAddress :: "string \<Rightarrow> string go" where
  "EncodeAddress publicKey =
    (let hash = Sum256 (bytes_of_string publicKey);
         checksum = take 4 hash;
         address = ''sup'' @ EncodeToString (take 10 hash) @ EncodeToString checksum
     in slice_to 36 address)"

definition ValidateAddress :: "string \<Rightarrow> bool" where
  "ValidateAddress address =
    (if length address < 30 \<or> length address > 36 then False
     else if take 3 address \<noteq> ''sup'' then False
     else let hashPart = drop 3 (take (length address - 8) address);
              expectedChecksum = drop (length address - 8) address
          in case DecodeString hashPart of
               None \<Rightarrow> False
             | Some hashBytes \<Rightarrow> EncodeToString (take 4 (Sum256 hashBytes)) = expectedChecksum)"

text \<open>\<open>make([]byte, 32-len(b))\<close> panics when the coordinate is longer than 32 bytes.\<close>

definition pad32 :: "bytes \<Rightarrow> bytes go" where
  "pad32 bs = (if length bs \<le> 32 then Ret (replicate (32 - length bs) 0 @ bs) else Panic)"

definition serializeKeys :: "int \<Rightarrow> PublicKey \<Rightarrow> (bytes \<times> bytes) go" where
  "serializeKeys d publicKey =
    (let priv = int_bytes d;
         priv' = (if length priv < 32 then replicate (32 - length priv) 0 @ priv else priv)
     in go_bind (pad32 (int_bytes (pk_X publicKey))) (\<lambda>xb.
        go_bind (pad32 (int_bytes (pk_Y publicKey))) (\<lambda>yb. Ret (priv', xb @ yb))))"

datatype key_error = PrivateKeyEmpty | PublicKeyTooShort | NotOnCurve

definition DeserializeKeys :: "bytes \<Rightarrow> bytes \<Rightarrow> key_error + int \<times> PublicKey" where
  "DeserializeKeys privateKeyBytes publicKeyBytes =
    (if length privateKeyBytes = 0 then Inl PrivateKeyEmpty
     else if length publicKeyBytes < 64 then Inl PublicKeyTooShort
     else let x = SetBytes (take 32 publicKeyBytes); y = SetBytes (drop 32 publicKeyBytes)
          in if \<not> on_curve (x, y) then Inl NotOnCurve
             else Inr (SetBytes privateKeyBytes, \<lparr>pk_X = x, pk_Y = y\<rparr>))"

section \<open>Coding and decoding\<close>

lemma from_hex_digit: "k < 16 \<Longrightarrow> from_hex_char (hex_digit k) = Some k"
  by (auto simp: from_hex_char_def hex_digit_def Let_def)

lemma DecodeString_EncodeToString [simp]: "DecodeString (EncodeToString bs) = Some bs"
proof (induction bs)
  case Nil
  then show ?case by (simp add: EncodeToString_def)
next
  case (Cons b bs)
  have "unat b div 16 < 16" "unat b mod 16 < 16" using unsigned_less [of b, where ?'a = nat] by auto
  with Cons show ?case
    by (simp add: EncodeToString_def hex_byte_def from_hex_digit)
qed

lemma SetBytes_Nil [simp]: "SetBytes [] = 0"
  by (simp add: SetBytes_def)

lemma SetBytes_snoc [simp]: "SetBytes (bs @ [b]) = 256 * SetBytes bs + uint b"
  by (simp add: SetBytes_def)

lemma SetBytes_zeros [simp]: "SetBytes (replicate n 0 @ bs) = SetBytes bs"
  by (induction n) (simp_all add: SetBytes_def)

lemma SetBytes_int_bytes [simp]: "0 \<le> x \<Longrightarrow> SetBytes (int_bytes x) = x"
proof (induction x rule: int_bytes.induct)
  case (1 x)
  then show ?case
    by (simp add: int_bytes.simps [of x] uint_word_of_int)
qed

lemma length_int_bytes_le: "x < 256 ^ n \<Longrightarrow> length (int_bytes x) \<le> n"
proof (induction n arbitrary: x)
  case (Suc n)
  then have "x div 256 < 256 ^ n" by (simp add: div_less_iff_less_mult mult.commute)
  then show ?case using Suc.IH by (simp add: int_bytes.simps [of x])
qed (simp add: int_bytes.simps)

lemma int_bytes_nonempty: "0 < x \<Longrightarrow> int_bytes x \<noteq> []"
  by (simp add: int_bytes.simps [of x])

lemma SetBytes_append: "SetBytes (as @ bs) = SetBytes as * 256 ^ length bs + SetBytes bs"
proof (induction bs rule: rev_induct)
  case (snoc b bs)
  then show ?case by (simp add: append_assoc [symmetric] algebra_simps del: append_assoc)
qed simp

lemma SetBytes_bounds: "0 \<le> SetBytes bs \<and> SetBytes bs < 256 ^ length bs"
proof (induction bs rule: rev_induct)
  case (snoc b bs)
  have "uint b < 256" using uint_lt2p [of b] by simp
  then show ?case using snoc by (auto simp: algebra_simps)
qed simp

lemma SetBytes_take_less:
  assumes "0 < SetBytes bs" "k < length bs"
  shows "SetBytes (take k bs) < SetBytes bs"
proof -
  let ?t = "SetBytes (take k bs)" and ?d = "drop k bs"
  have split: "SetBytes bs = ?t * 256 ^ length ?d + SetBytes ?d"
    using SetBytes_append [of "take k bs" ?d] by simp
  have "(256 :: int) ^ 1 \<le> 256 ^ length ?d" using assms(2) by (intro power_increasing) auto
  then have "2 \<le> (256 :: int) ^ length ?d" by simp
  moreover have "0 \<le> ?t" "0 \<le> SetBytes ?d" using SetBytes_bounds by blast+
  ultimately have "?t * 2 \<le> ?t * 256 ^ length ?d" by (intro mult_left_mono)
  then show ?thesis using split \<open>0 \<le> ?t\<close> \<open>0 \<le> SetBytes ?d\<close> assms(1) by (cases "?t = 0") linarith+
qed

lemma split_signature_iff:
  assumes "0 < r" "0 < s"
  shows "split_signature (int_bytes r @ int_bytes s) = (r, s) \<longleftrightarrow>
    length (int_bytes s) = length (int_bytes r) \<or> length (int_bytes s) = length (int_bytes r) + 1"
proof -
  let ?R = "int_bytes r" and ?S = "int_bytes s"
  define k where "k = length (?R @ ?S) div 2"
  have first: "fst (split_signature (?R @ ?S)) = SetBytes (take k (?R @ ?S))"
    by (simp add: split_signature_def k_def Let_def)
  consider "k = length ?R" | "k < length ?R" | "length ?R < k" by linarith
  then show ?thesis
  proof cases
    case 1
    then have "split_signature (?R @ ?S) = (r, s)"
      using assms by (simp add: split_signature_def Let_def k_def)
    moreover have "length ?S = length ?R \<or> length ?S = length ?R + 1" using 1 unfolding k_def by simp linarith
    ultimately show ?thesis by blast
  next
    case 2
    then have "SetBytes (take k (?R @ ?S)) < r"
      using SetBytes_take_less [of ?R k] assms by simp
    then have "split_signature (?R @ ?S) \<noteq> (r, s)" using first by auto
    moreover have "\<not> (length ?S = length ?R \<or> length ?S = length ?R + 1)" using 2 unfolding k_def by auto
    ultimately show ?thesis by blast
  next
    case 3
    let ?T = "take k (?R @ ?S)"
    have pos: "0 < SetBytes ?T"
      using SetBytes_append [of ?R "take (k - length ?R) ?S"] SetBytes_bounds [of "take (k - length ?R) ?S"] 3 assms
      by (simp add: add_pos_nonneg)
    have len: "length ?R < length ?T" using 3 k_def by simp
    have "take (length ?R) ?T = ?R" using 3 by simp
    then have "r < SetBytes ?T"
      using SetBytes_take_less [OF pos len] assms(1) by (simp only: SetBytes_int_bytes less_imp_le)
    then have "split_signature (?R @ ?S) \<noteq> (r, s)" using first by auto
    moreover have "\<not> (length ?S = length ?R \<or> length ?S = length ?R + 1)" using 3 unfolding k_def by auto
    ultimately show ?thesis by blast
  qed
qed

lemma ecdsa_sign_positive:
  assumes "ecdsa_sign d k hash = Some (r, s)"
  shows "0 < r" "0 < s"
proof -
  have "0 \<le> x mod P256_n" for x by (simp add: P256_n_def)
  then show "0 < r" "0 < s"
    using assms by (auto simp: ecdsa_sign_def Let_def less_le split: option.splits if_splits)
qed

lemma pad32_bytes:
  assumes "0 \<le> z" "z < 256 ^ 32"
  shows "\<exists>b. pad32 (int_bytes z) = Ret b \<and> length b = 32 \<and> SetBytes b = z"
  using assms length_int_bytes_le [OF assms(2)] by (simp add: pad32_def)

text \<open>
  Every address that the wallet generates from a public key passes the address validation of the
  RPC interface: prefix, length and checksum fit.
\<close>

theorem GenerateAddress_valid: "ValidateAddress (GenerateAddress pk)"
  by (simp add: GenerateAddress_def ValidateAddress_def Let_def)

text \<open>
  C33. \<open>EncodeAddress\<close> never returns: the address it builds has 31 characters and the slice \<open>address[:36]\<close>
  is out of range for every public key.
\<close>

theorem EncodeAddress_panics: "EncodeAddress publicKey = Panic"
  by (simp add: EncodeAddress_def slice_to_def Let_def)

text \<open>
  C32. A signature survives its encoding exactly when \<open>s\<close> is as long as \<open>r\<close> or one byte longer. \<open>SignMessage\<close>
  concatenates the two numbers without their leading zeros and \<open>VerifySignature\<close> cuts the bytes in
  half, so an honest signature whose \<open>s\<close> is shorter than its \<open>r\<close> is checked with two other numbers.
\<close>

theorem signature_encoding_iff:
  "case ecdsa_sign d k (Sum256 (bytes_of_string message)) of
     None \<Rightarrow> SignMessage d k message = None
   | Some (r, s) \<Rightarrow> \<exists>sig sigBytes. SignMessage d k message = Some sig \<and> DecodeString sig = Some sigBytes \<and>
       VerifySignature (Some pk) message sig =
         ecdsa_verify (Some pk) (Sum256 (bytes_of_string message))
           (fst (split_signature sigBytes)) (snd (split_signature sigBytes)) \<and>
       (split_signature sigBytes = (r, s) \<longleftrightarrow>
         length (int_bytes s) = length (int_bytes r) \<or> length (int_bytes s) = length (int_bytes r) + 1)"
proof (cases "ecdsa_sign d k (Sum256 (bytes_of_string message))")
  case None
  then show ?thesis by (simp add: SignMessage_def)
next
  case (Some rs)
  obtain r s where rs: "rs = (r, s)" by (cases rs)
  show ?thesis
    using Some split_signature_iff [OF ecdsa_sign_positive [OF Some [unfolded rs]]] unfolding rs
    by (auto simp: SignMessage_def VerifySignature_def split: prod.splits)
qed

text \<open>
  Serialising a key pair on the curve and reading it back gives the same private number and the same
  public point.
\<close>

theorem keys_roundtrip:
  assumes "on_curve (pk_X pk, pk_Y pk)" "0 < d" "d < P256_n"
  shows "\<exists>priv pub. serializeKeys d pk = Ret (priv, pub) \<and> DeserializeKeys priv pub = Inr (d, pk)"
proof -
  have xy: "0 \<le> pk_X pk" "pk_X pk < 256 ^ 32" "0 \<le> pk_Y pk" "pk_Y pk < 256 ^ 32"
    using assms(1) by (auto simp: on_curve_def P256_p_def)
  obtain bx where bx: "pad32 (int_bytes (pk_X pk)) = Ret bx" "length bx = 32" "SetBytes bx = pk_X pk"
    using pad32_bytes [OF xy(1,2)] by blast
  obtain b_y where b_y: "pad32 (int_bytes (pk_Y pk)) = Ret b_y" "length b_y = 32" "SetBytes b_y = pk_Y pk"
    using pad32_bytes [OF xy(3,4)] by blast
  show ?thesis
    using assms bx b_y int_bytes_nonempty [of d]
    by (simp add: serializeKeys_def DeserializeKeys_def Let_def SetBytes_int_bytes)
qed

theorem keys_roundtrip_witness:
  "\<exists>priv pub. serializeKeys 1 \<lparr>pk_X = fst P256_G, pk_Y = snd P256_G\<rparr> = Ret (priv, pub) \<and>
    DeserializeKeys priv pub = Inr (1, \<lparr>pk_X = fst P256_G, pk_Y = snd P256_G\<rparr>)"
proof -
  have "on_curve P256_G" by code_simp
  then show ?thesis
    using keys_roundtrip [of "\<lparr>pk_X = fst P256_G, pk_Y = snd P256_G\<rparr>" 1] by (simp add: P256_n_def)
qed

section \<open>Multi-signature wallets\<close>

record MultiSigwWallet =
  Owners :: "string list"
  RequiredSigs :: int
  ms_Balance :: float64
  PublicKeyMap :: "(string, PublicKey option) gomap"
  ms_Address :: string

datatype wallet_error = NoOwners | InvalidRequiredSigs | InsufficientFunds | InvalidThreshold

text \<open>A nil key in the map is dereferenced.\<close>

fun combined_keys :: "(string \<times> PublicKey option) list \<Rightarrow> string go" where
  "combined_keys [] = Ret []"
| "combined_keys ((owner, Some pk) # ks) =
    go_bind (combined_keys ks) (\<lambda>rest. Ret (owner @ hex_text (pk_X pk) @ hex_text (pk_Y pk) @ rest))"
| "combined_keys ((owner, None) # ks) = Panic"

definition GenerateMultiSigAddress :: "(string, PublicKey option) gomap \<Rightarrow> string go" where
  "GenerateMultiSigAddress publicKeyMap =
    (let owners = sort (map fst publicKeyMap) in
     go_bind (combined_keys (map (\<lambda>o'. (o', gomap_get_or None publicKeyMap o')) owners)) (\<lambda>combinedKeys.
       let hash = Sum256 (bytes_of_string combinedKeys);
           address = ''sup'' @ EncodeToString (take 28 hash)
       in slice_to 31 address))"

definition NewMultiSigWallet ::
  "string list \<Rightarrow> int \<Rightarrow> (string, PublicKey option) gomap \<Rightarrow> (wallet_error + MultiSigwWallet) go" where
  "NewMultiSigWallet owners requiredSigs publicKeyMap =
    (if length owners = 0 then Ret (Inl NoOwners)
     else if requiredSigs \<le> 0 \<or> requiredSigs > int (length owners) then Ret (Inl InvalidRequiredSigs)
     else go_bind (GenerateMultiSigAddress publicKeyMap) (\<lambda>address.
       Ret (Inr \<lparr>Owners = owners, RequiredSigs = requiredSigs, ms_Balance = Fin 0,
                 PublicKeyMap = publicKeyMap, ms_Address = address\<rparr>)))"

definition AddFunds :: "float64 \<Rightarrow> MultiSigwWallet \<Rightarrow> MultiSigwWallet" where
  "AddFunds amount w = w\<lparr>ms_Balance := fadd (ms_Balance w) amount\<rparr>"

definition DeductFunds :: "float64 \<Rightarrow> MultiSigwWallet \<Rightarrow> MultiSigwWallet \<times> (wallet_error + unit)" where
  "DeductFunds amount w =
    (if flt (ms_Balance w) amount then (w, Inl InsufficientFunds)
     else (w\<lparr>ms_Balance := fsub (ms_Balance w) amount\<rparr>, Inr ()))"

definition AdjustSignatureThreshold :: "int \<Rightarrow> MultiSigwWallet \<Rightarrow> MultiSigwWallet \<times> (wallet_error + unit)" where
  "AdjustSignatureThreshold newThreshold w =
    (if newThreshold \<le> 0 \<or> newThreshold > int (length (Owners w)) then (w, Inl InvalidThreshold)
     else (w\<lparr>RequiredSigs := newThreshold\<rparr>, Inr ()))"

end
