(* ===== verification/Transaction.thy ===== *)
theory Transaction
  imports Gas Crypto
begin

text \<open>
  Transactions (\<open>src/blockchain/transaction.go\<close>), the public key database of
  \<open>multi_sig_utils.go\<close> and the execution of multi-signature transactions
  (\<open>multi_sig_wallet.go\<close>). The clock is an argument \<open>now\<close>, the value of \<open>time.Now().Unix()\<close>.
  The \<open>gob\<close> serialisation is not modelled. \<open>SelectUTXOs\<close> is in the theory of the UTXO pool.
\<close>

section \<open>Data\<close>

definition DefaultGasPrice :: u64 where "DefaultGasPrice = 20"
definition DefaultGasLimit :: u64 where "DefaultGasLimit = 21000"
definition MaxTotalFee :: float64 where "MaxTotalFee = Fin 2"

definition TX_REGULAR :: int where "TX_REGULAR = 0"
definition TX_COINBASE :: int where "TX_COINBASE = 1"
definition TX_VALIDATOR_REWARD :: int where "TX_VALIDATOR_REWARD = 2"
definition TX_STAKE :: int where "TX_STAKE = 3"
definition TX_VOTE :: int where "TX_VOTE = 4"

lemmas tx_types = TX_REGULAR_def TX_COINBASE_def TX_VALIDATOR_REWARD_def TX_STAKE_def TX_VOTE_def

record TransactionInput =
  in_TransactionID :: string
  in_OutputIndex :: int
  in_Signature :: string

record TransactionOutput =
  out_Receiver :: string
  out_Amount :: float64
  out_ScriptPubKey :: string

record Transaction =
  tx_TransactionID :: string
  tx_Sender :: string
  tx_Receiver :: string
  tx_Amount :: float64
  tx_Timestamp :: int
  tx_Nonce :: u64
  tx_GasFee :: float64
  tx_Inputs :: "TransactionInput list"
  tx_Outputs :: "TransactionOutput list"
  tx_TxType :: int
  tx_GasLimit :: u64
  tx_GasPrice :: u64
  tx_GasUsed :: u64
  tx_Priority :: int
  tx_MaxFeePerGas :: u64
  tx_Data :: bytes
  tx_Signature :: string
  tx_SenderPubKey :: bytes

text \<open>The zero value of the struct.\<close>

definition zero_tx :: Transaction where
  "zero_tx = \<lparr>tx_TransactionID = [], tx_Sender = [], tx_Receiver = [], tx_Amount = Fin 0, tx_Timestamp = 0,
     tx_Nonce = 0, tx_GasFee = Fin 0, tx_Inputs = [], tx_Outputs = [], tx_TxType = 0, tx_GasLimit = 0,
     tx_GasPrice = 0, tx_GasUsed = 0, tx_Priority = 0, tx_MaxFeePerGas = 0, tx_Data = [],
     tx_Signature = [], tx_SenderPubKey = []\<rparr>"

datatype tx_error = GasPriceBelowMinimum | GasLimitOutOfRange | GasPriceAboveMaximum
  | TotalFeeTooHigh | StakeNotPositive | SignatureExists | NilPool | NoUTXOs | TxInsufficientFunds
  | ValidationFailed | DeductFailed

section \<open>Operations\<close>

text \<open>The data that \<open>GenerateTransactionID\<close> and \<open>Hash\<close> digest.\<close>

definition hash_data :: "Transaction \<Rightarrow> string" where
  "hash_data tx = tx_Sender tx @ tx_Receiver tx @ show_f64 6 (tx_Amount tx) @ show_u64 (tx_GasPrice tx) @
     show_u64 (tx_GasLimit tx) @ show_int (tx_Priority tx) @ show_int (tx_Timestamp tx)"

definition GenerateTransactionID :: "Transaction \<Rightarrow> string" where
  "GenerateTransactionID tx = hash_hex (hash_data tx)"

definition tx_Hash :: "Transaction \<Rightarrow> string" where
  "tx_Hash tx = hash_hex (hash_data tx)"

definition tx_ValidateGas :: "Transaction \<Rightarrow> tx_error + unit" where
  "tx_ValidateGas tx =
    (if tx_GasLimit tx < BaseTxGas \<or> tx_GasLimit tx > BaseTxGas * 100 then Inl GasLimitOutOfRange
     else if tx_GasPrice tx < MinGasPrice then Inl GasPriceBelowMinimum
     else if tx_GasPrice tx > MaxGasPrice * 10 then Inl GasPriceAboveMaximum
     else if flt MaxTotalFee (ConvertGasToTokens (tx_GasLimit tx * tx_GasPrice tx)) then Inl TotalFeeTooHigh
     else Inr ())"

definition NewTransaction ::
  "int \<Rightarrow> string \<Rightarrow> string \<Rightarrow> float64 \<Rightarrow> u64 \<Rightarrow> u64 \<Rightarrow> tx_error + Transaction" where
  "NewTransaction now sender receiver amount gasPrice limit0 =
    (if gasPrice < MinGasPrice then Inl GasPriceBelowMinimum
     else
       let limit = (if limit0 = 0 then DefaultGasLimit else limit0);
           tx = zero_tx\<lparr>tx_Sender := sender, tx_Receiver := receiver, tx_Amount := amount, tx_Timestamp := now,
                        tx_GasLimit := limit, tx_GasPrice := gasPrice, tx_MaxFeePerGas := gasPrice * 2,
                        tx_Priority := PriorityNormal, tx_TxType := TX_REGULAR,
                        tx_Outputs := [\<lparr>out_Receiver = receiver, out_Amount = amount, out_ScriptPubKey = []\<rparr>]\<rparr>;
           tx = tx\<lparr>tx_GasFee := ConvertGasToTokens (tx_GasLimit tx * tx_GasPrice tx)\<rparr>
       in if flt MaxTotalFee (tx_GasFee tx) then Inl TotalFeeTooHigh
          else case tx_ValidateGas tx of
            Inl e \<Rightarrow> Inl e
          | Inr _ \<Rightarrow> Inr (tx\<lparr>tx_TransactionID := GenerateTransactionID tx\<rparr>))"

text \<open>Go compares floats with \<open>!=\<close>, so a not-a-number differs from itself.\<close>

definition output_eq :: "TransactionOutput \<Rightarrow> TransactionOutput \<Rightarrow> bool" where
  "output_eq a b = (out_Receiver a = out_Receiver b \<and> feq (out_Amount a) (out_Amount b) \<and>
     out_ScriptPubKey a = out_ScriptPubKey b)"

definition tx_Equals :: "Transaction \<Rightarrow> Transaction \<Rightarrow> bool" where
  "tx_Equals tx other =
    (if tx_TransactionID tx \<noteq> tx_TransactionID other \<or> tx_Sender tx \<noteq> tx_Sender other \<or>
        tx_Receiver tx \<noteq> tx_Receiver other \<or> \<not> feq (tx_Amount tx) (tx_Amount other) \<or>
        tx_Timestamp tx \<noteq> tx_Timestamp other \<or> \<not> feq (tx_GasFee tx) (tx_GasFee other) \<or>
        tx_Signature tx \<noteq> tx_Signature other then False
     else if length (tx_Inputs tx) \<noteq> length (tx_Inputs other) then False
     else if \<not> list_all2 (=) (tx_Inputs tx) (tx_Inputs other) then False
     else if length (tx_Outputs tx) \<noteq> length (tx_Outputs other) then False
     else list_all2 output_eq (tx_Outputs tx) (tx_Outputs other))"

definition SignTransaction :: "int \<Rightarrow> int \<Rightarrow> Transaction \<Rightarrow> string option" where
  "SignTransaction d k tx = SignMessage d k (tx_Hash tx)"

definition CalculateFee :: "Transaction \<Rightarrow> u64" where
  "CalculateFee tx = tx_GasPrice tx * tx_GasUsed tx"

definition GetData :: "Transaction \<Rightarrow> bytes" where
  "GetData tx = bytes_of_string (tx_Sender tx @ tx_Receiver tx @ show_f64 6 (tx_Amount tx) @
     show_u64 (tx_GasPrice tx) @ show_u64 (tx_GasLimit tx))"

definition IsCoinbase :: "Transaction \<Rightarrow> bool" where
  "IsCoinbase tx = (tx_TxType tx = TX_COINBASE)"

definition IsValidatorReward :: "Transaction \<Rightarrow> bool" where
  "IsValidatorReward tx = (tx_TxType tx = TX_VALIDATOR_REWARD)"

text \<open>The address-to-key database; an absent key is the error.\<close>

definition GetPublicKeyForAddress ::
  "(string, PublicKey option) gomap \<Rightarrow> string \<Rightarrow> PublicKey option option" where
  "GetPublicKeyForAddress PublicKeyDatabase address =
    (if address = ''BLOCKCHAIN'' then Some None else gomap_get PublicKeyDatabase address)"

definition AddPublicKeyToDatabase ::
  "string \<Rightarrow> PublicKey option \<Rightarrow> (string, PublicKey option) gomap \<Rightarrow> (string, PublicKey option) gomap" where
  "AddPublicKeyToDatabase address publicKey db = gomap_put address publicKey db"

text \<open>\<open>ecdh.P256().NewPublicKey\<close> accepts the 65 bytes of an uncompressed point on the curve.\<close>

definition valid_point_bytes :: "bytes \<Rightarrow> bool" where
  "valid_point_bytes bs = (length bs = 64 \<and> on_curve (SetBytes (take 32 bs), SetBytes (drop 32 bs)))"

definition tx_VerifySignature :: "(string, PublicKey option) gomap \<Rightarrow> Transaction \<Rightarrow> bool go" where
  "tx_VerifySignature PublicKeyDatabase tx =
    (if IsCoinbase tx \<or> IsValidatorReward tx then Ret True
     else if length (tx_SenderPubKey tx) < 64 then
       (case GetPublicKeyForAddress PublicKeyDatabase (tx_Sender tx) of
          None \<Rightarrow> Ret False
        | Some publicKey \<Rightarrow> VerifySignature publicKey (tx_Hash tx) (tx_Signature tx))
     else if \<not> valid_point_bytes (tx_SenderPubKey tx) then Ret False
     else let publicKey = \<lparr>pk_X = SetBytes (take 32 (tx_SenderPubKey tx)),
                           pk_Y = SetBytes (drop 32 (tx_SenderPubKey tx))\<rparr>
          in if GenerateAddress publicKey \<noteq> tx_Sender tx then Ret False
             else VerifySignature (Some publicKey) (tx_Hash tx) (tx_Signature tx))"

definition GenerateCoinbaseID :: "u64 \<Rightarrow> Transaction \<Rightarrow> string" where
  "GenerateCoinbaseID blockHeight tx =
    hash_hex (''coinbase-'' @ tx_Receiver tx @ ''-'' @ show_f64 6 (tx_Amount tx) @ ''-'' @
      show_int (tx_Timestamp tx) @ ''-'' @ show_u64 blockHeight)"

definition NewCoinbaseTransaction :: "int \<Rightarrow> string \<Rightarrow> float64 \<Rightarrow> u64 \<Rightarrow> Transaction" where
  "NewCoinbaseTransaction now minerAddress reward blockHeight =
    (let tx = zero_tx\<lparr>tx_Sender := ''coinbase'', tx_Receiver := minerAddress, tx_Amount := reward,
                      tx_Timestamp := now, tx_TxType := TX_COINBASE,
                      tx_Data := bytes_of_string (''Block Reward '' @ show_u64 blockHeight)\<rparr>;
         tx = tx\<lparr>tx_TransactionID := GenerateCoinbaseID blockHeight tx\<rparr>
     in tx\<lparr>tx_Outputs := [\<lparr>out_Receiver = minerAddress, out_Amount = reward, out_ScriptPubKey = []\<rparr>]\<rparr>)"

definition GenerateValidatorRewardID :: "u64 \<Rightarrow> Transaction \<Rightarrow> string" where
  "GenerateValidatorRewardID blockHeight tx =
    hash_hex (''validator-reward-'' @ tx_Receiver tx @ ''-'' @ show_f64 6 (tx_Amount tx) @ ''-'' @
      show_int (tx_Timestamp tx) @ ''-'' @ show_u64 blockHeight)"

definition NewValidatorRewardTransaction :: "int \<Rightarrow> string \<Rightarrow> float64 \<Rightarrow> u64 \<Rightarrow> Transaction" where
  "NewValidatorRewardTransaction now validatorAddress reward blockHeight =
    (let tx = zero_tx\<lparr>tx_Sender := ''system'', tx_Receiver := validatorAddress, tx_Amount := reward,
                      tx_Timestamp := now, tx_TxType := TX_VALIDATOR_REWARD,
                      tx_Data := bytes_of_string (''Validator Reward '' @ show_u64 (blockHeight - 1))\<rparr>;
         tx = tx\<lparr>tx_TransactionID := GenerateValidatorRewardID blockHeight tx\<rparr>
     in tx\<lparr>tx_Outputs := [\<lparr>out_Receiver = validatorAddress, out_Amount = reward, out_ScriptPubKey = []\<rparr>]\<rparr>)"

definition AddInput :: "string \<Rightarrow> int \<Rightarrow> string \<Rightarrow> Transaction \<Rightarrow> Transaction" where
  "AddInput txID outputIndex signature tx =
    tx\<lparr>tx_Inputs := tx_Inputs tx @
      [\<lparr>in_TransactionID = txID, in_OutputIndex = outputIndex, in_Signature = signature\<rparr>]\<rparr>"

definition AddChangeOutput :: "float64 \<Rightarrow> Transaction \<Rightarrow> Transaction" where
  "AddChangeOutput changeAmount tx =
    (if flt (Fin 0) changeAmount then
       tx\<lparr>tx_Outputs := tx_Outputs tx @
         [\<lparr>out_Receiver = tx_Sender tx, out_Amount = changeAmount, out_ScriptPubKey = []\<rparr>]\<rparr>
     else tx)"

definition NewStakeTransaction :: "int \<Rightarrow> string \<Rightarrow> float64 \<Rightarrow> bytes \<Rightarrow> tx_error + Transaction" where
  "NewStakeTransaction now senderAddress amount publicKey =
    (if fle amount (Fin 0) then Inl StakeNotPositive
     else
       let tx = zero_tx\<lparr>tx_Sender := senderAddress, tx_Receiver := senderAddress, tx_Amount := amount,
                        tx_Timestamp := now, tx_Priority := 10, tx_TxType := TX_STAKE,
                        tx_Outputs := [\<lparr>out_Receiver = senderAddress, out_Amount = amount,
                                        out_ScriptPubKey = ''STAKE''\<rparr>],
                        tx_Data := bytes_of_string (''Stake '' @ show_f64 4 amount),
                        tx_SenderPubKey := publicKey\<rparr>;
           txData = tx_Sender tx @ tx_Receiver tx @ show_f64 8 (tx_Amount tx) @ show_int (tx_Timestamp tx) @
             show_int (tx_TxType tx)
       in Inr (tx\<lparr>tx_TransactionID := hash_hex (''STAKE-'' @ txData)\<rparr>))"

section \<open>Multi-signature transactions\<close>

record MultiSigTransaction =
  ms_Transaction :: Transaction
  Signatures :: "(string, string) gomap"

definition AddSignature :: "string \<Rightarrow> string \<Rightarrow> MultiSigTransaction \<Rightarrow> MultiSigTransaction \<times> (tx_error + unit)" where
  "AddSignature address signature tx =
    (if gomap_get (Signatures tx) address \<noteq> None then (tx, Inl SignatureExists)
     else (tx\<lparr>Signatures := gomap_put address signature (Signatures tx)\<rparr>, Inr ()))"

text \<open>The loop that counts valid signatures, in the order of the map iteration.\<close>

fun count_valid :: "(string, PublicKey option) gomap \<Rightarrow> string \<Rightarrow> (string \<times> string) list \<Rightarrow> int \<Rightarrow> int go" where
  "count_valid publicKeyMap hash [] validSigs = Ret validSigs"
| "count_valid publicKeyMap hash ((owner, signature) # sigs) validSigs =
    (case gomap_get publicKeyMap owner of
       Some (Some publicKey) \<Rightarrow>
         go_bind (VerifySignature (Some publicKey) hash signature) (\<lambda>ok.
           count_valid publicKeyMap hash sigs (if ok then validSigs + 1 else validSigs))
     | _ \<Rightarrow> count_valid publicKeyMap hash sigs validSigs)"

definition ms_ValidateSignatures ::
  "MultiSigwWallet \<Rightarrow> (string, PublicKey option) gomap \<Rightarrow> MultiSigTransaction \<Rightarrow> bool go" where
  "ms_ValidateSignatures wallet publicKeyMap tx =
    go_bind (count_valid publicKeyMap (tx_Hash (ms_Transaction tx)) (Signatures tx) 0) (\<lambda>validSigs.
      Ret (validSigs \<ge> RequiredSigs wallet))"

definition ExecuteTransaction ::
  "MultiSigTransaction \<Rightarrow> (string, PublicKey option) gomap \<Rightarrow> MultiSigwWallet \<Rightarrow>
   (MultiSigwWallet \<times> (tx_error + unit)) go" where
  "ExecuteTransaction tx publicKeyMap msw =
    go_bind (ms_ValidateSignatures msw publicKeyMap tx) (\<lambda>ok.
      if \<not> ok then Ret (msw, Inl ValidationFailed)
      else case DeductFunds (tx_Amount (ms_Transaction tx)) msw of
          (msw', Inl _) \<Rightarrow> Ret (msw', Inl DeductFailed)
        | (msw', Inr _) \<Rightarrow> Ret (msw', Inr ()))"

section \<open>What a transaction's signature covers\<close>

lemma VerifySignature_frame:
  "tx_VerifySignature db (tx\<lparr>tx_Inputs := ins, tx_Outputs := outs, tx_Nonce := n, tx_GasFee := fee, tx_Data := d\<rparr>)
     = tx_VerifySignature db tx"
  by (simp add: tx_VerifySignature_def IsCoinbase_def IsValidatorReward_def tx_Hash_def hash_data_def
      Let_def cong: option.case_cong if_cong)


text \<open>
  C21. A transaction that names \<open>BLOCKCHAIN\<close> as its sender, carries no public key and a signature of two
  nonzero bytes stops the node: the lookup returns a nil key without an error and the verification
  dereferences it.
\<close>

theorem BLOCKCHAIN_sender_panics:
  assumes "tx_Sender tx = ''BLOCKCHAIN''" "tx_TxType tx = TX_REGULAR" "tx_SenderPubKey tx = []"
    and "tx_Signature tx = EncodeToString [x, y]" "x \<noteq> 0" "y \<noteq> 0"
  shows "tx_VerifySignature db tx = Panic"
proof -
  have "0 < uint x" "0 < uint y"
    using assms(5,6) by (metis less_le uint_0_iff uint_ge_0)+
  then show ?thesis
    using assms by (simp add: tx_VerifySignature_def IsCoinbase_def IsValidatorReward_def tx_types
        GetPublicKeyForAddress_def VerifySignature_def split_signature_def SetBytes_def ecdsa_verify_def Let_def)
qed

theorem BLOCKCHAIN_sender_panics_witness:
  "tx_VerifySignature [] (zero_tx\<lparr>tx_Sender := ''BLOCKCHAIN'', tx_Signature := ''0101''\<rparr>) = Panic"
proof -
  have sig: "''0101'' = EncodeToString [1, 1]" by code_simp
  show ?thesis unfolding sig by (rule BLOCKCHAIN_sender_panics [of _ 1 1]) (simp_all add: zero_tx_def tx_types)
qed

section \<open>New transactions\<close>

lemma ConvertGasToTokens_high_iff:
  assumes "uint g \<le> 2 ^ 50"
  shows "flt MaxTotalFee (ConvertGasToTokens g) \<longleftrightarrow> 200000000 < uint g"
proof -
  let ?x = "of_int (uint g) / 100000000 :: rat"
  have conv: "ConvertGasToTokens g = round64 ?x"
    using assms by (simp add: ConvertGasToTokens_def of_u64_exact fdiv_Fin_round del: of_int_uint)
  have two: "round64 2 = Fin 2" using round64_representable [OF representable_int [of 2]] by simp
  define u :: rat where "u = of_int (2 ^ 41 + 1) / 2 ^ 40"
  have rep: "representable u" unfolding u_def by (rule representable_dyadic) simp_all
  have "2 < u" by (simp add: u_def)
  have "2 < ?x \<Longrightarrow> u \<le> ?x"
  proof -
    assume "2 < ?x"
    then have "(of_int 200000000 :: rat) < of_int (uint g)" by (simp add: field_simps del: of_int_uint)
    then have "200000001 \<le> uint g" by (simp only: of_int_less_iff)
    then have "(of_int 200000001 :: rat) \<le> of_int (uint g)" by (simp only: of_int_le_iff)
    then show ?thesis by (simp add: u_def field_simps del: of_int_uint)
  qed
  then have "flt (round64 2) (round64 ?x) \<longleftrightarrow> 2 < ?x"
    by (rule flt_round64_above [OF two rep \<open>2 < u\<close>])
  also have "\<dots> \<longleftrightarrow> (of_int 200000000 :: rat) < of_int (uint g)" by (simp add: field_simps del: of_int_uint)
  finally show ?thesis by (simp add: conv two MaxTotalFee_def del: of_int_uint)
qed

lemma tx_ValidateGas_iff:
  "tx_ValidateGas tx = Inr () \<longleftrightarrow>
    21000 \<le> uint (tx_GasLimit tx) \<and> uint (tx_GasLimit tx) \<le> 2100000 \<and>
    10 \<le> uint (tx_GasPrice tx) \<and> uint (tx_GasPrice tx) \<le> 1000 \<and>
    uint (tx_GasLimit tx) * uint (tx_GasPrice tx) \<le> 200000000"
proof (cases "uint (tx_GasLimit tx) \<le> 2100000 \<and> uint (tx_GasPrice tx) \<le> 1000")
  case True
  then have "uint (tx_GasLimit tx) * uint (tx_GasPrice tx) \<le> 2100000 * 1000" by (intro mult_mono) simp_all
  then have "uint (tx_GasLimit tx * tx_GasPrice tx) = uint (tx_GasLimit tx) * uint (tx_GasPrice tx)"
    "uint (tx_GasLimit tx * tx_GasPrice tx) \<le> 2 ^ 50"
    by (simp_all add: uint_times_small)
  then show ?thesis
    using True by (auto simp: tx_ValidateGas_def gas_consts word_less_def ConvertGasToTokens_high_iff)
next
  case False
  then show ?thesis by (auto simp: tx_ValidateGas_def gas_consts word_less_def)
qed


section \<open>Multi-signature execution\<close>

text \<open>The signatures that count: those of owners whose key is known and under whose key they verify.\<close>

definition counts :: "(string, PublicKey option) gomap \<Rightarrow> string \<Rightarrow> string \<times> string \<Rightarrow> bool" where
  "counts publicKeyMap hash = (\<lambda>(owner, signature).
     case gomap_get publicKeyMap owner of
       Some (Some publicKey) \<Rightarrow> VerifySignature (Some publicKey) hash signature = Ret True
     | _ \<Rightarrow> False)"

lemma ecdsa_verify_returns: "\<exists>b. ecdsa_verify (Some pk) hash r s = Ret b"
  by (cases "r \<le> 0 \<or> s \<le> 0") (auto simp: ecdsa_verify_def)

lemma VerifySignature_returns: "\<exists>b. VerifySignature (Some pk) message signature = Ret b"
  by (auto simp: VerifySignature_def Let_def split: option.split prod.split intro: ecdsa_verify_returns)

lemma counts_cases:
  "gomap_get keys owner = Some (Some pk) \<Longrightarrow> VerifySignature (Some pk) hash signature = Ret (counts keys hash (owner, signature))"
  "(\<nexists>pk. gomap_get keys owner = Some (Some pk)) \<Longrightarrow> \<not> counts keys hash (owner, signature)"
  using VerifySignature_returns [of pk hash signature] by (auto simp: counts_def split: option.split)

lemma count_valid_eq:
  "count_valid keys hash sigs n = Ret (n + int (length (filter (counts keys hash) sigs)))"
proof (induction sigs arbitrary: n)
  case (Cons s sigs)
  obtain owner signature where s: "s = (owner, signature)" by (cases s)
  show ?case
  proof (cases "\<exists>pk. gomap_get keys owner = Some (Some pk)")
    case True
    then show ?thesis using Cons s counts_cases(1) by auto
  next
    case False
    then have "count_valid keys hash (s # sigs) n = count_valid keys hash sigs n"
      by (auto simp: s split: option.split)
    then show ?thesis using Cons s counts_cases(2) [OF False] by simp
  qed
qed simp

text \<open>
  C34. A multi-signature transaction executes exactly when at least the required number of different
  addresses signed it under their known keys and the balance covers the amount. Execution then deducts
  the amount and changes nothing else; otherwise the wallet is unchanged. The order in which the
  signatures are visited does not matter, and no input makes the execution panic.
\<close>

theorem ExecuteTransaction_spec:
  assumes "gomap_wf (Signatures tx)"
  shows "\<exists>r. ExecuteTransaction tx keys w = Ret r \<and>
    (snd r = Inr () \<longleftrightarrow>
       RequiredSigs w \<le> int (card {owner \<in> dom (map_of (Signatures tx)).
         counts keys (tx_Hash (ms_Transaction tx)) (owner, the (map_of (Signatures tx) owner))}) \<and>
       \<not> flt (ms_Balance w) (tx_Amount (ms_Transaction tx))) \<and>
    fst r = (if snd r = Inr () then w\<lparr>ms_Balance := fsub (ms_Balance w) (tx_Amount (ms_Transaction tx))\<rparr> else w)"
proof -
  let ?h = "tx_Hash (ms_Transaction tx)" and ?S = "Signatures tx"
  let ?C = "{owner \<in> dom (map_of ?S). counts keys ?h (owner, the (map_of ?S owner))}"
  have "?C = fst ` set (filter (counts keys ?h) ?S)"
    using assms by (force simp: image_iff dest: map_of_SomeD)
  moreover have "distinct (map fst (filter (counts keys ?h) ?S))"
    using assms by (rule distinct_map_filter)
  ultimately have "card ?C = length (filter (counts keys ?h) ?S)"
    by (metis distinct_card length_map list.set_map)
  then have "ms_ValidateSignatures w keys tx = Ret (RequiredSigs w \<le> int (card ?C))"
    by (simp add: ms_ValidateSignatures_def count_valid_eq)
  then show ?thesis
    by (auto simp: ExecuteTransaction_def DeductFunds_def)
qed

theorem ExecuteTransaction_spec_witness:
  "\<exists>r. ExecuteTransaction \<lparr>ms_Transaction = zero_tx, Signatures = []\<rparr> []
      \<lparr>Owners = [''a''], RequiredSigs = 1, ms_Balance = Fin 5, PublicKeyMap = [], ms_Address = []\<rparr> = Ret r \<and>
    snd r \<noteq> Inr ()"
  using ExecuteTransaction_spec [of "\<lparr>ms_Transaction = zero_tx, Signatures = []\<rparr>" "[]"
      "\<lparr>Owners = [''a''], RequiredSigs = 1, ms_Balance = Fin 5, PublicKeyMap = [], ms_Address = []\<rparr>"]
  by auto

end
