(* ===== verification/Trie.thy ===== *)
theory Trie
  imports Merkle Transaction
begin

text \<open>
  The trie of a block's transactions (\<open>src/blockchain/patricia_trie.go\<close>). A node's children are a Go
  map, so the order of the list is the order in which \<open>range\<close> visits them. The parent pointers, which
  \<open>MarkDirty\<close> follows from a new leaf to the root, become the path on which \<open>Insert\<close> clears the
  cached hashes. The locks of the nodes are held for single accesses only and are left out.

  The lemmas show that the trie is a map from the digest of a transaction id to the transaction, that
  the cached hashes are the hashes of the current content, and that the root hash nevertheless
  depends on the order in which the children are visited.
\<close>

section \<open>The data structure\<close>

datatype PatriciaNode = PNode
  (Children: "(u8 \<times> PatriciaNode) list") (Value: "Transaction option")
  (Hash: string) (IsLeaf: bool) (hashCache: string)

definition empty_node :: PatriciaNode where
  "empty_node = PNode [] None [] False []"

definition NewPatriciaTrie :: PatriciaNode where
  "NewPatriciaTrie = empty_node"

fun insert_path :: "Transaction \<Rightarrow> string \<Rightarrow> bytes \<Rightarrow> PatriciaNode \<Rightarrow> PatriciaNode" where
  "insert_path tx h [] (PNode cs v hs l c) = PNode cs (Some tx) h True []"
| "insert_path tx h (b # bs) (PNode cs v hs l c) =
    (let child = (case gomap_get cs b of Some n \<Rightarrow> n | None \<Rightarrow> empty_node)
     in PNode (gomap_put b (insert_path tx h bs child) cs) v hs l [])"

definition Insert :: "Transaction \<Rightarrow> PatriciaNode \<Rightarrow> PatriciaNode" where
  "Insert tx trie =
    (let hash = Sum256 (bytes_of_string (tx_TransactionID tx))
     in insert_path tx (EncodeToString hash) hash trie)"

definition InsertBatch :: "Transaction list \<Rightarrow> PatriciaNode \<Rightarrow> PatriciaNode" where
  "InsertBatch transactions trie = fold Insert transactions trie"

text \<open>\<open>computeHash\<close> returns the hash and leaves it in the caches below.\<close>

fun computeHash :: "PatriciaNode \<Rightarrow> PatriciaNode \<times> string" where
  "computeHash (PNode cs v hs l c) =
    (if c \<noteq> [] then (PNode cs v hs l c, c)
     else if l then (PNode cs v hs l hs, hs)
     else let rs = map (\<lambda>(b, n). (b, computeHash n)) cs;
              combinedHash = concat (map (\<lambda>(b, n, s). s) rs);
              h = hash_hex combinedHash
          in (PNode (map (\<lambda>(b, n, s). (b, n)) rs) v hs l h, h))"

definition GenerateRootHash :: "PatriciaNode \<Rightarrow> PatriciaNode \<times> string" where
  "GenerateRootHash trie = (if length (Children trie) = 0 then (trie, hash_hex []) else computeHash trie)"

fun descend :: "bytes \<Rightarrow> PatriciaNode \<Rightarrow> PatriciaNode option" where
  "descend [] n = Some n"
| "descend (b # bs) n = (case gomap_get (Children n) b of None \<Rightarrow> None | Some n' \<Rightarrow> descend bs n')"

definition GetTransaction :: "string \<Rightarrow> PatriciaNode \<Rightarrow> PatriciaNode option \<times> bool" where
  "GetTransaction txID trie =
    (case descend (Sum256 (bytes_of_string txID)) trie of
       None \<Rightarrow> (None, False)
     | Some n \<Rightarrow> (Some n, Value n \<noteq> None))"

definition Search :: "string \<Rightarrow> PatriciaNode \<Rightarrow> Transaction option \<times> bool" where
  "Search txID trie =
    (case descend (Sum256 (bytes_of_string txID)) trie of
       None \<Rightarrow> (None, False)
     | Some n \<Rightarrow> (Value n, Value n \<noteq> None))"

fun GetAllTransactions :: "PatriciaNode \<Rightarrow> Transaction list" where
  "GetAllTransactions (PNode cs v hs l c) =
    (if l then (case v of Some tx \<Rightarrow> [tx] | None \<Rightarrow> []) else []) @
    concat (map (\<lambda>(b, n). GetAllTransactions n) cs)"

fun trie_Len :: "PatriciaNode \<Rightarrow> int" where
  "trie_Len (PNode cs v hs l c) =
    (if l \<and> v \<noteq> None then 1 else 0) + sum_list (map (\<lambda>(b, n). trie_Len n) cs)"

section \<open>The trie is a map\<close>

text \<open>The transaction stored under a path.\<close>

definition lookup_path :: "bytes \<Rightarrow> PatriciaNode \<Rightarrow> Transaction option" where
  "lookup_path k n = Option.bind (descend k n) Value"

lemma descend_empty: "descend k empty_node = (if k = [] then Some empty_node else None)"
  by (cases k) (auto simp: empty_node_def)

lemma lookup_empty: "lookup_path k empty_node = None"
  by (auto simp: lookup_path_def descend_empty) (simp add: empty_node_def)

lemma lookup_insert_path:
  "lookup_path k' (insert_path tx h k n) = (if k' = k then Some tx else lookup_path k' n)"
proof (induction tx h k n arbitrary: k' rule: insert_path.induct)
  case (1 tx h cs v hs l c)
  then show ?case by (cases k') (auto simp: lookup_path_def)
next
  case (2 tx h b bs cs v hs l c)
  show ?case
  proof (cases k')
    case Nil
    then show ?thesis by (simp add: lookup_path_def Let_def)
  next
    case (Cons b' bs')
    then show ?thesis
      using 2 [OF refl, of bs'] lookup_empty [of bs']
      by (auto simp: lookup_path_def Let_def gomap_simps split: option.splits)
  qed
qed

text \<open>What a map of transactions promises to the block and the chain.\<close>

locale tx_map =
  fixes empty :: 't and insert :: "Transaction \<Rightarrow> 't \<Rightarrow> 't" and lookup :: "bytes \<Rightarrow> 't \<Rightarrow> Transaction option"
    and key :: "Transaction \<Rightarrow> bytes"
  assumes lookup_empty_map: "lookup k empty = None"
    and lookup_insert_map: "lookup k (insert tx t) = (if k = key tx then Some tx else lookup k t)"
begin

lemma lookup_batch:
  "lookup k (fold insert txs t) = (case find (\<lambda>tx. key tx = k) (rev txs) of Some tx \<Rightarrow> Some tx | None \<Rightarrow> lookup k t)"
proof (induction txs rule: rev_induct)
  case (snoc tx txs)
  then show ?case by (simp add: lookup_insert_map)
qed simp

text \<open>After inserting transactions with different keys, each one is found, and nothing else is.\<close>

lemma lookup_batch_distinct:
  assumes "distinct (map key txs)"
  shows "lookup k (fold insert txs empty) = Some tx \<longleftrightarrow> tx \<in> set txs \<and> key tx = k"
  using assms
proof (induction txs rule: rev_induct)
  case (snoc t txs)
  then show ?case by (auto simp: lookup_insert_map rev_image_eqI)
qed (simp add: lookup_empty_map)

end

interpretation patricia: tx_map NewPatriciaTrie Insert lookup_path "\<lambda>tx. Sum256 (bytes_of_string (tx_TransactionID tx))"
  by unfold_locales (simp_all add: NewPatriciaTrie_def lookup_empty Insert_def Let_def lookup_insert_path)

lemma Search_lookup: "Search txID t = (let r = lookup_path (Sum256 (bytes_of_string txID)) t in (r, r \<noteq> None))"
  by (simp add: Search_def lookup_path_def Let_def split: option.split)

text \<open>
  A transaction that was inserted into a block's trie is found under its id, whatever was inserted
  before or after, as long as no later transaction has the same digest of its id; an id that was never
  inserted is not found.
\<close>

theorem Search_InsertBatch:
  assumes "distinct (map (\<lambda>tx. Sum256 (bytes_of_string (tx_TransactionID tx))) txs)"
  shows "Search txID (InsertBatch txs NewPatriciaTrie) = (Some tx, True) \<longleftrightarrow>
    tx \<in> set txs \<and> Sum256 (bytes_of_string (tx_TransactionID tx)) = Sum256 (bytes_of_string txID)"
  using patricia.lookup_batch_distinct [OF assms]
  by (auto simp: Search_lookup Let_def InsertBatch_def)

theorem Search_InsertBatch_witness:
  "Search ''t1'' (InsertBatch [zero_tx\<lparr>tx_TransactionID := ''t1''\<rparr>] NewPatriciaTrie)
     = (Some (zero_tx\<lparr>tx_TransactionID := ''t1''\<rparr>), True)"
  using Search_InsertBatch [of "[zero_tx\<lparr>tx_TransactionID := ''t1''\<rparr>]" "''t1''" "zero_tx\<lparr>tx_TransactionID := ''t1''\<rparr>"]
  by simp

section \<open>Caching is transparent\<close>

fun erase :: "PatriciaNode \<Rightarrow> PatriciaNode" where
  "erase (PNode cs v hs l c) = PNode (map (\<lambda>(b, n). (b, erase n)) cs) v hs l []"

text \<open>The hash of a node's content, without caches.\<close>

fun content_hash :: "PatriciaNode \<Rightarrow> string" where
  "content_hash (PNode cs v hs l c) =
    (if l then hs else hash_hex (concat (map (\<lambda>(b, n). content_hash n) cs)))"

fun cache_ok :: "PatriciaNode \<Rightarrow> bool" where
  "cache_ok (PNode cs v hs l c) =
    ((c = [] \<or> c = content_hash (PNode cs v hs l c)) \<and> (\<forall>(b, n)\<in>set cs. cache_ok n))"

lemma content_hash_erase: "content_hash (erase n) = content_hash n"
proof (induction n rule: erase.induct)
  case (1 cs v hs l c)
  then have "map (\<lambda>(b, n). content_hash n) (map (\<lambda>(b, n). (b, erase n)) cs) = map (\<lambda>(b, n). content_hash n) cs"
    by (auto simp: case_prod_beta)
  then show ?case by (simp only: erase.simps content_hash.simps)
qed

lemma erase_computeHash: "erase (fst (computeHash n)) = erase n"
proof (induction n rule: computeHash.induct)
  case (1 cs v hs l c)
  then show ?case by (auto simp: Let_def case_prod_beta comp_def)
qed

lemma computeHash_cache_ok:
  "cache_ok n \<Longrightarrow> snd (computeHash n) = content_hash n \<and> cache_ok (fst (computeHash n))"
proof (induction n rule: computeHash.induct)
  case (1 cs v hs l c)
  show ?case
  proof (cases "c \<noteq> [] \<or> l")
    case True
    then show ?thesis using 1 by auto
  next
    case False
    have hashes: "map (\<lambda>x. snd (computeHash (snd x))) cs = map (\<lambda>x. content_hash (snd x)) cs"
      using 1 False by (auto simp: case_prod_beta)
    have same: "content_hash (fst (computeHash n)) = content_hash n" for n
      using erase_computeHash [of n] content_hash_erase by metis
    have "\<forall>(b, n)\<in>set cs. cache_ok (fst (computeHash n))" using 1 False by auto
    then show ?thesis
      using False by (auto simp: Let_def case_prod_unfold comp_def same hashes)
  qed
qed

lemma map_update: "map (\<lambda>(b, n). (b, f n)) (AList.update k v cs) = AList.update k (f v) (map (\<lambda>(b, n). (b, f n)) cs)"
  by (induction cs) auto

lemma map_of_map_snd: "map_of (map (\<lambda>(b, n). (b, f n)) cs) k = map_option f (map_of cs k)"
  by (induction cs) auto

lemma erase_insert_path: "erase (insert_path tx h k n) = insert_path tx h k (erase n)"
  by (induction tx h k n rule: insert_path.induct)
    (auto simp: Let_def map_update map_of_map_snd empty_node_def split: option.splits)

lemma set_update_subset: "set (AList.update k v cs) \<subseteq> insert (k, v) (set cs)"
  by (induction cs) auto

lemma cache_ok_insert_path: "cache_ok n \<Longrightarrow> cache_ok (insert_path tx h k n)"
proof (induction tx h k n rule: insert_path.induct)
  case (2 tx h b bs cs v hs l c)
  have "cache_ok (case map_of cs b of Some n \<Rightarrow> n | None \<Rightarrow> empty_node)"
    using 2(2) by (auto simp: empty_node_def split: option.split dest: map_of_SomeD)
  then have "cache_ok (insert_path tx h bs (case map_of cs b of Some n \<Rightarrow> n | None \<Rightarrow> empty_node))"
    using 2(1) by blast
  then show ?case
    using 2(2) set_update_subset [of b _ cs] by (fastforce simp: Let_def)
qed auto

text \<open>The two operations that a block performs on its trie.\<close>

datatype trie_op = OpInsert Transaction | OpRootHash

fun trie_step :: "trie_op \<Rightarrow> PatriciaNode \<Rightarrow> PatriciaNode" where
  "trie_step (OpInsert tx) t = Insert tx t"
| "trie_step OpRootHash t = fst (GenerateRootHash t)"

fun inserted :: "trie_op list \<Rightarrow> Transaction list" where
  "inserted [] = []"
| "inserted (OpInsert tx # ops) = tx # inserted ops"
| "inserted (OpRootHash # ops) = inserted ops"

lemma trie_steps:
  "cache_ok t \<Longrightarrow> cache_ok (fold trie_step ops t) \<and> erase (fold trie_step ops t) = fold Insert (inserted ops) (erase t)"
proof (induction ops arbitrary: t rule: inserted.induct)
  case (2 tx ops)
  then show ?case by (simp add: Insert_def Let_def cache_ok_insert_path erase_insert_path)
next
  case (3 ops)
  then show ?case by (auto simp: GenerateRootHash_def computeHash_cache_ok erase_computeHash)
qed simp

lemma root_hash_content: "cache_ok t \<Longrightarrow>
  snd (GenerateRootHash t) = (if Children t = [] then hash_hex [] else content_hash t)"
  by (simp add: GenerateRootHash_def computeHash_cache_ok)

lemma Children_erase: "Children (erase t) = [] \<longleftrightarrow> Children t = []"
  by (cases t) simp


text \<open>
  The root hash depends on the order in which Go visits the children of a node, which differs from
  run to run: for a node with two children of different hashes the two orders digest two different
  strings, so the two root hashes are equal only if the digest has a collision on them.
\<close>

theorem root_hash_depends_on_order:
  assumes "cache_ok m" "cache_ok n" "length (content_hash m) = length (content_hash n)"
    and "content_hash m \<noteq> content_hash n"
  shows "snd (GenerateRootHash (PNode [(x, m), (y, n)] v hs False [])) = hash_hex (content_hash m @ content_hash n) \<and>
    snd (GenerateRootHash (PNode [(y, n), (x, m)] v hs False [])) = hash_hex (content_hash n @ content_hash m) \<and>
    content_hash m @ content_hash n \<noteq> content_hash n @ content_hash m"
  using assms by (auto simp: root_hash_content)

theorem root_hash_depends_on_order_witness:
  "snd (GenerateRootHash (PNode [(1, PNode [] None ''aa'' True []), (2, PNode [] None ''bb'' True [])] None [] False []))
     = hash_hex ''aabb'' \<and>
   snd (GenerateRootHash (PNode [(2, PNode [] None ''bb'' True []), (1, PNode [] None ''aa'' True [])] None [] False []))
     = hash_hex ''bbaa'' \<and> ''aabb'' \<noteq> ''bbaa''"
  using root_hash_depends_on_order [of "PNode [] None ''aa'' True []" "PNode [] None ''bb'' True []" 1 2 None "[]"]
  by simp

section \<open>The transactions of a trie\<close>

fun leaf_ok :: "PatriciaNode \<Rightarrow> bool" where
  "leaf_ok (PNode cs v hs l c) = (l = (v \<noteq> None) \<and> (\<forall>(b, n)\<in>set cs. leaf_ok n))"

lemma leaf_ok_insert_path: "leaf_ok n \<Longrightarrow> leaf_ok (insert_path tx h k n)"
proof (induction tx h k n rule: insert_path.induct)
  case (2 tx h b bs cs v hs l c)
  have "leaf_ok (case map_of cs b of Some n \<Rightarrow> n | None \<Rightarrow> empty_node)"
    using 2(2) by (auto simp: empty_node_def split: option.split dest: map_of_SomeD)
  then have "leaf_ok (insert_path tx h bs (case map_of cs b of Some n \<Rightarrow> n | None \<Rightarrow> empty_node))"
    using 2(1) by blast
  then show ?case
    using 2(2) set_update_subset [of b _ cs] by (fastforce simp: Let_def)
qed auto

lemma mset_concat_update:
  "mset (concat (map (\<lambda>(b, n). g n) (AList.update k n' cs))) + (case map_of cs k of Some n \<Rightarrow> mset (g n) | None \<Rightarrow> {#}) =
   mset (concat (map (\<lambda>(b, n). g n) cs)) + mset (g n')"
  by (induction cs) (auto split: option.splits)

lemma mset_sum_exchange:
  "us + old = cs' + new \<Longrightarrow> new + r = add_mset tx old \<Longrightarrow> (us + r) + old = add_mset tx cs' + old"
  for us old cs' new r :: "'a multiset"
  by (metis (no_types, lifting) add_mset_add_single union_assoc union_commute)

text \<open>Inserting adds the transaction and drops the one that was stored under the same path.\<close>

lemma mset_insert_path:
  "leaf_ok n \<Longrightarrow> mset (GetAllTransactions (insert_path tx h k n)) + (case lookup_path k n of Some t \<Rightarrow> {#t#} | None \<Rightarrow> {#})
     = add_mset tx (mset (GetAllTransactions n))"
proof (induction tx h k n rule: insert_path.induct)
  case (1 tx h cs v hs l c)
  then show ?case by (auto simp: lookup_path_def split: option.splits)
next
  case (2 tx h b bs cs v hs l c)
  let ?child = "case map_of cs b of Some n \<Rightarrow> n | None \<Rightarrow> empty_node"
  let ?rest = "\<lambda>k n. case lookup_path k n of Some t \<Rightarrow> {#t#} | None \<Rightarrow> {#}"
  have ok: "leaf_ok ?child"
    using 2(2) by (auto simp: empty_node_def split: option.split dest: map_of_SomeD)
  have IH: "mset (GetAllTransactions (insert_path tx h bs ?child)) + ?rest bs ?child =
      add_mset tx (mset (GetAllTransactions ?child))"
    using 2(1) [OF refl ok] .
  have rest: "?rest (b # bs) (PNode cs v hs l c) = ?rest bs ?child"
    by (auto simp: lookup_path_def descend_empty split: option.split) (simp add: empty_node_def)
  have child: "(case map_of cs b of Some n \<Rightarrow> mset (GetAllTransactions n) | None \<Rightarrow> {#}) = mset (GetAllTransactions ?child)"
    by (auto simp: empty_node_def split: option.split)
  define old where "old = mset (GetAllTransactions ?child)"
  define new where "new = mset (GetAllTransactions (insert_path tx h bs ?child))"
  define r where "r = ?rest bs ?child"
  define us where "us = mset (concat (map (\<lambda>(b, n). GetAllTransactions n) (AList.update b (insert_path tx h bs ?child) cs)))"
  define cs' where "cs' = mset (concat (map (\<lambda>(b, n). GetAllTransactions n) cs))"
  have "us + old = cs' + new" "new + r = add_mset tx old"
    using IH mset_concat_update [of GetAllTransactions b "insert_path tx h bs ?child" cs]
    unfolding child by (simp_all only: us_def old_def cs'_def new_def r_def)
  then have "(us + r) + old = add_mset tx cs' + old" by (metis mset_sum_exchange)
  then have "us + r = add_mset tx cs'" by simp
  then show ?case unfolding rest r_def [symmetric] by (simp add: Let_def us_def cs'_def)
qed

abbreviation tx_key :: "Transaction \<Rightarrow> bytes" where
  "tx_key tx \<equiv> Sum256 (bytes_of_string (tx_TransactionID tx))"

lemma trie_of_distinct:
  assumes "distinct (map tx_key txs)"
  shows "leaf_ok (fold Insert txs NewPatriciaTrie) \<and> mset (GetAllTransactions (fold Insert txs NewPatriciaTrie)) = mset txs"
  using assms
proof (induction txs rule: rev_induct)
  case Nil
  then show ?case by (simp add: NewPatriciaTrie_def empty_node_def)
next
  case (snoc tx txs)
  let ?t = "fold Insert txs NewPatriciaTrie"
  have "lookup_path (tx_key tx) ?t = None"
  proof (cases "lookup_path (tx_key tx) ?t")
    case (Some a)
    then have "a \<in> set txs" "tx_key a = tx_key tx"
      using patricia.lookup_batch_distinct [of txs "tx_key tx" a] snoc.prems by auto
    then show ?thesis using snoc.prems by (auto simp: image_iff)
  qed
  moreover have "Insert tx ?t = insert_path tx (EncodeToString (tx_key tx)) (tx_key tx) ?t"
    by (simp add: Insert_def Let_def)
  ultimately show ?case
    using snoc mset_insert_path [of ?t tx "EncodeToString (tx_key tx)" "tx_key tx"] by (simp add: leaf_ok_insert_path)
qed

lemma GetAllTransactions_erase: "GetAllTransactions (erase n) = GetAllTransactions n"
proof (induction n rule: erase.induct)
  case (1 cs v hs l c)
  then have "map (\<lambda>(b, n). GetAllTransactions n) (map (\<lambda>(b, n). (b, erase n)) cs) = map (\<lambda>(b, n). GetAllTransactions n) cs"
    by (auto simp: case_prod_beta)
  then show ?case by (simp only: erase.simps GetAllTransactions.simps)
qed

lemma GetAllTransactions_root_hash [simp]: "GetAllTransactions (fst (GenerateRootHash t)) = GetAllTransactions t"
  by (simp add: GenerateRootHash_def) (metis GetAllTransactions_erase erase_computeHash)

text \<open>
  C37. The transactions of a block are exactly the ones that were inserted: reading back the trie gives
  every transaction once, in some order, and \<open>Len\<close> is their number.
\<close>

theorem GetAllTransactions_InsertBatch:
  assumes "distinct (map (\<lambda>tx. Sum256 (bytes_of_string (tx_TransactionID tx))) txs)"
  shows "mset (GetAllTransactions (InsertBatch txs NewPatriciaTrie)) = mset txs"
  using trie_of_distinct [OF assms] by (simp add: InsertBatch_def)

theorem GetAllTransactions_InsertBatch_witness:
  "mset (GetAllTransactions (InsertBatch [zero_tx\<lparr>tx_TransactionID := ''t1''\<rparr>] NewPatriciaTrie))
     = {#zero_tx\<lparr>tx_TransactionID := ''t1''\<rparr>#}"
  using GetAllTransactions_InsertBatch [of "[zero_tx\<lparr>tx_TransactionID := ''t1''\<rparr>]"] by simp

lemma trie_Len_length: "trie_Len n = int (length (GetAllTransactions n))"
proof (induction n rule: trie_Len.induct)
  case (1 cs v hs l c)
  then have "\<forall>(b, n)\<in>set cs. trie_Len n = int (length (GetAllTransactions n))" by auto
  then have "(\<Sum>(b, n)\<leftarrow>cs. trie_Len n) = int (\<Sum>(b, n)\<leftarrow>cs. length (GetAllTransactions n))"
    by (induction cs) auto
  then show ?case
    by (simp add: length_concat case_prod_unfold comp_def split: option.split)
qed

end
