(* ===== verification/Database.thy ===== *)
theory Database
  imports Float64
begin

text \<open>
  The database layer: the values that \<open>encoding/json\<close> writes and reads, and the wrapper
  \<open>src/blockchain/db/leveldb.go\<close> around the LevelDB library.

  JSON documents are trees: the text between \<open>json.Marshal\<close> and \<open>json.Unmarshal\<close> is not modelled. A
  number is kept as the integer or the \<open>float64\<close> it denotes, because the encoder writes the shortest
  decimal that reads back as the same number. A \<open>float64\<close> that is infinite or not a number makes
  \<open>json.Marshal\<close> fail. A byte slice, which JSON writes as a base64 string, is kept as its bytes.

  The library \<open>goleveldb\<close> is a parameter \<open>L\<close>, a record of its operations on a store of type \<open>'d\<close>;
  \<open>leveldb_laws\<close> states its documented behaviour, that a read returns what was last written under a
  key. Theorems that rely on it have it as a hypothesis.
\<close>

text \<open>Nanoseconds, the unit of \<open>time.Duration\<close> and of a point in time.\<close>

definition second :: int where "second = 1000000000"

abbreviation minute :: int where "minute \<equiv> 60 * second"

abbreviation hour :: int where "hour \<equiv> 3600 * second"

text \<open>The zero \<open>time.Time\<close>, the first of January of the year 1, relative to the Unix epoch.\<close>

definition zero_time :: int where "zero_time = - 62135596800 * second"

text \<open>\<open>time.Since\<close> and \<open>Sub\<close> saturate at the bounds of a duration.\<close>

definition elapsed :: "int \<Rightarrow> int \<Rightarrow> int" where
  "elapsed now t = max (- (2 ^ 63)) (min (2 ^ 63 - 1) (now - t))"

text \<open>\<open>Minutes\<close> and \<open>Hours\<close> of a duration add the whole units and the fraction; division truncates.\<close>

definition duration_in :: "int \<Rightarrow> int \<Rightarrow> float64" where
  "duration_in unit d =
    fadd (of_int64 (sgn d * (\<bar>d\<bar> div unit))) (fdiv (of_int64 (sgn d * (\<bar>d\<bar> mod unit))) (of_int64 unit))"

section \<open>JSON documents\<close>

datatype json = JNull | JBool bool | JInt int | JFloat float64 | JStr string | JBytes bytes
  | JArr "json list" | JObj "(string \<times> json) list"

definition enc_float :: "float64 \<Rightarrow> json option" where
  "enc_float x = (if is_finite x then Some (JFloat x) else None)"

text \<open>
  The member of an object that the decoder assigns to a field named \<open>k\<close>: the member of that name or,
  failing that, one whose name differs in case only. A missing member leaves the zero value in place.
\<close>

definition fold_key :: "string \<Rightarrow> string" where
  "fold_key = map (\<lambda>c. let n = of_char c :: nat in if 65 \<le> n \<and> n \<le> 90 then char_of (n + 32) else c)"

definition field :: "string \<Rightarrow> json \<Rightarrow> json" where
  "field k j =
    (case j of
       JObj ms \<Rightarrow>
         (case map_of ms k of
            Some v \<Rightarrow> v
          | None \<Rightarrow> (case find (\<lambda>(x, v). fold_key x = fold_key k) ms of Some (x, v) \<Rightarrow> v | None \<Rightarrow> JNull))
     | _ \<Rightarrow> JNull)"

fun dec_string :: "json \<Rightarrow> string option" where
  "dec_string (JStr s) = Some s"
| "dec_string JNull = Some []"
| "dec_string _ = None"

fun dec_bool :: "json \<Rightarrow> bool option" where
  "dec_bool (JBool b) = Some b"
| "dec_bool JNull = Some False"
| "dec_bool _ = None"

text \<open>Integers out of the range of the Go type are rejected.\<close>

fun dec_int :: "json \<Rightarrow> int option" where
  "dec_int (JInt n) = (if - (2 ^ 63) \<le> n \<and> n < 2 ^ 63 then Some n else None)"
| "dec_int JNull = Some 0"
| "dec_int _ = None"

fun dec_u64 :: "json \<Rightarrow> u64 option" where
  "dec_u64 (JInt n) = (if 0 \<le> n \<and> n < 2 ^ 64 then Some (word_of_int n) else None)"
| "dec_u64 JNull = Some 0"
| "dec_u64 _ = None"

fun dec_u32 :: "json \<Rightarrow> u32 option" where
  "dec_u32 (JInt n) = (if 0 \<le> n \<and> n < 2 ^ 32 then Some (word_of_int n) else None)"
| "dec_u32 JNull = Some 0"
| "dec_u32 _ = None"

fun dec_bytes :: "json \<Rightarrow> bytes option" where
  "dec_bytes (JBytes bs) = Some bs"
| "dec_bytes JNull = Some []"
| "dec_bytes _ = None"

fun dec_float :: "json \<Rightarrow> float64 option" where
  "dec_float (JFloat x) = Some x"
| "dec_float (JInt n) = Some (of_int64 n)"
| "dec_float JNull = Some (Fin 0)"
| "dec_float _ = None"

text \<open>A Go map with string keys, in the encoder's order of the keys.\<close>

fun sequence :: "'a option list \<Rightarrow> 'a list option" where
  "sequence [] = Some []"
| "sequence (None # xs) = None"
| "sequence (Some x # xs) = map_option (\<lambda>ys. x # ys) (sequence xs)"

definition enc_map :: "('v \<Rightarrow> json option) \<Rightarrow> (string, 'v) gomap \<Rightarrow> json option" where
  "enc_map enc m =
    map_option JObj (sequence (map (\<lambda>(k, v). map_option (Pair k) (enc v)) (sort_key fst m)))"

definition dec_map :: "(json \<Rightarrow> 'v option) \<Rightarrow> json \<Rightarrow> (string, 'v) gomap option" where
  "dec_map dec j = (case j of
      JObj ms \<Rightarrow> map_option (\<lambda>kvs. fold (\<lambda>(k, v). gomap_put k v) kvs [])
        (sequence (map (\<lambda>(k, v). map_option (Pair k) (dec v)) ms))
    | JNull \<Rightarrow> Some []
    | _ \<Rightarrow> None)"

text \<open>A slice, element by element.\<close>

definition enc_list :: "('a \<Rightarrow> json option) \<Rightarrow> 'a list \<Rightarrow> json option" where
  "enc_list enc xs = map_option JArr (sequence (map enc xs))"

definition dec_list :: "(json \<Rightarrow> 'a option) \<Rightarrow> json \<Rightarrow> 'a list option" where
  "dec_list dec j = (case j of JArr js \<Rightarrow> sequence (map dec js) | JNull \<Rightarrow> Some [] | _ \<Rightarrow> None)"

text \<open>A pointer: \<open>nil\<close> is written as \<open>null\<close>.\<close>

definition enc_ptr :: "('a \<Rightarrow> json option) \<Rightarrow> 'a option \<Rightarrow> json option" where
  "enc_ptr enc p = (case p of None \<Rightarrow> Some JNull | Some x \<Rightarrow> enc x)"

definition dec_ptr :: "(json \<Rightarrow> 'a option) \<Rightarrow> json \<Rightarrow> 'a option option" where
  "dec_ptr dec j = (if j = JNull then Some None else map_option Some (dec j))"

section \<open>The database\<close>

datatype db_error = ErrKeyNotFound | ErrDatabaseClosed | ErrInvalidKey | ErrLevelDB

datatype batch_op = BatchPut string json | BatchDelete string

record 'd goleveldb =
  L_Put :: "string \<Rightarrow> json \<Rightarrow> 'd \<Rightarrow> db_error + 'd"
  L_Get :: "string \<Rightarrow> 'd \<Rightarrow> db_error + json"
  L_Delete :: "string \<Rightarrow> 'd \<Rightarrow> db_error + 'd"
  L_Has :: "string \<Rightarrow> 'd \<Rightarrow> db_error + bool"
  L_Write :: "batch_op list \<Rightarrow> 'd \<Rightarrow> db_error + 'd"

record 'd levelDB =
  ldb_db :: 'd
  ldb_closed :: bool

text \<open>The wrapper's operations. Its value check concerns empty values only, which no document is.\<close>

definition db_Put :: "'d goleveldb \<Rightarrow> string \<Rightarrow> json \<Rightarrow> 'd levelDB \<Rightarrow> 'd levelDB \<times> (db_error + unit)" where
  "db_Put L key value ldb =
    (if ldb_closed ldb then (ldb, Inl ErrDatabaseClosed)
     else if length key = 0 then (ldb, Inl ErrInvalidKey)
     else case L_Put L key value (ldb_db ldb) of
       Inl e \<Rightarrow> (ldb, Inl e)
     | Inr d \<Rightarrow> (ldb\<lparr>ldb_db := d\<rparr>, Inr ()))"

definition db_Get :: "'d goleveldb \<Rightarrow> string \<Rightarrow> 'd levelDB \<Rightarrow> db_error + json" where
  "db_Get L key ldb =
    (if ldb_closed ldb then Inl ErrDatabaseClosed
     else if length key = 0 then Inl ErrInvalidKey
     else L_Get L key (ldb_db ldb))"

definition db_Delete :: "'d goleveldb \<Rightarrow> string \<Rightarrow> 'd levelDB \<Rightarrow> 'd levelDB \<times> (db_error + unit)" where
  "db_Delete L key ldb =
    (if ldb_closed ldb then (ldb, Inl ErrDatabaseClosed)
     else if length key = 0 then (ldb, Inl ErrInvalidKey)
     else case L_Delete L key (ldb_db ldb) of
       Inl e \<Rightarrow> (ldb, Inl e)
     | Inr d \<Rightarrow> (ldb\<lparr>ldb_db := d\<rparr>, Inr ()))"

definition db_Has :: "'d goleveldb \<Rightarrow> string \<Rightarrow> 'd levelDB \<Rightarrow> db_error + bool" where
  "db_Has L key ldb =
    (if ldb_closed ldb then Inl ErrDatabaseClosed
     else if length key = 0 then Inl ErrInvalidKey
     else L_Has L key (ldb_db ldb))"

definition db_Close :: "'d levelDB \<Rightarrow> 'd levelDB" where
  "db_Close ldb = (if ldb_closed ldb then ldb else ldb\<lparr>ldb_closed := True\<rparr>)"

definition batch_Put :: "string \<Rightarrow> json \<Rightarrow> batch_op list \<Rightarrow> batch_op list \<times> (db_error + unit)" where
  "batch_Put key value batch =
    (if length key = 0 then (batch, Inl ErrInvalidKey) else (batch @ [BatchPut key value], Inr ()))"

definition batch_Delete :: "string \<Rightarrow> batch_op list \<Rightarrow> batch_op list \<times> (db_error + unit)" where
  "batch_Delete key batch =
    (if length key = 0 then (batch, Inl ErrInvalidKey) else (batch @ [BatchDelete key], Inr ()))"

text \<open>\<open>Write\<close> goes to the library's handle without asking whether the wrapper is closed.\<close>

definition batch_Write :: "'d goleveldb \<Rightarrow> batch_op list \<Rightarrow> 'd levelDB \<Rightarrow> 'd levelDB \<times> (db_error + unit)" where
  "batch_Write L batch ldb =
    (case L_Write L batch (ldb_db ldb) of
       Inl e \<Rightarrow> (ldb, Inl e)
     | Inr d \<Rightarrow> (ldb\<lparr>ldb_db := d\<rparr>, Inr ()))"

text \<open>Prefixed keys (\<open>db/interface.go\<close>).\<close>

definition CreateKey :: "u8 \<Rightarrow> bytes \<Rightarrow> bytes" where
  "CreateKey prefix key = prefix # key"

text \<open>The key as the text that the database is addressed with.\<close>

definition prefixed :: "u8 \<Rightarrow> string \<Rightarrow> string" where
  "prefixed prefix key = map (\<lambda>b. char_of (unat b)) (CreateKey prefix (bytes_of_string key))"

definition SplitKey :: "bytes \<Rightarrow> u8 \<times> bytes" where
  "SplitKey key = (case key of [] \<Rightarrow> (0, []) | p # k \<Rightarrow> (p, k))"

section \<open>The documented behaviour of the library\<close>

definition leveldb_laws :: "'d goleveldb \<Rightarrow> bool" where
  "leveldb_laws L \<longleftrightarrow>
    (\<forall>k v d d'. L_Put L k v d = Inr d' \<longrightarrow>
       L_Get L k d' = Inr v \<and> (\<forall>k'. k' \<noteq> k \<longrightarrow> L_Get L k' d' = L_Get L k' d)) \<and>
    (\<forall>k d d'. L_Delete L k d = Inr d' \<longrightarrow>
       L_Get L k d' = Inl ErrKeyNotFound \<and> (\<forall>k'. k' \<noteq> k \<longrightarrow> L_Get L k' d' = L_Get L k' d))"

text \<open>A store in memory, on which the hypotheses are evaluated.\<close>

definition memory_leveldb :: "(string, json) gomap goleveldb" where
  "memory_leveldb =
    \<lparr>L_Put = (\<lambda>k v d. Inr (gomap_put k v d)),
     L_Get = (\<lambda>k d. case gomap_get d k of Some v \<Rightarrow> Inr v | None \<Rightarrow> Inl ErrKeyNotFound),
     L_Delete = (\<lambda>k d. Inr (gomap_del k d)),
     L_Has = (\<lambda>k d. Inr (gomap_get d k \<noteq> None)),
     L_Write = (\<lambda>ops d. Inr (fold (\<lambda>op. case op of BatchPut k v \<Rightarrow> gomap_put k v
                                           | BatchDelete k \<Rightarrow> gomap_del k) ops d))\<rparr>"

lemma memory_leveldb_laws: "leveldb_laws memory_leveldb"
  by (simp add: leveldb_laws_def memory_leveldb_def gomap_simps)

lemma SplitKey_CreateKey: "SplitKey (CreateKey p k) = (p, k)"
  by (simp add: SplitKey_def CreateKey_def)

lemma db_Get_Put:
  assumes "leveldb_laws L" "db_Put L k v ldb = (ldb', Inr ())"
  shows "db_Get L k ldb' = Inr v" "k' \<noteq> k \<Longrightarrow> db_Get L k' ldb' = db_Get L k' ldb"
  using assms by (auto simp: db_Put_def db_Get_def leveldb_laws_def split: if_splits sum.splits)

section \<open>Maps survive their encoding\<close>

lemma sequence_Some_iff: "sequence xs = Some ys \<longleftrightarrow> xs = map Some ys"
  by (induction xs arbitrary: ys rule: sequence.induct) auto

lemma dec_enc_list:
  assumes "enc_list enc xs = Some j" "\<And>x j. x \<in> set xs \<Longrightarrow> enc x = Some j \<Longrightarrow> dec j = Some x"
  shows "dec_list dec j = Some xs"
proof -
  have "sequence (map enc ys) = Some js \<Longrightarrow> set ys \<subseteq> set xs \<Longrightarrow> sequence (map dec js) = Some ys" for ys js
  proof (induction ys arbitrary: js)
    case (Cons y ys)
    then show ?case by (cases "enc y"; cases js) (auto simp: assms(2))
  qed simp
  then show ?thesis using assms(1) by (auto simp: enc_list_def dec_list_def)
qed

lemma enc_list_total: "(\<And>x. x \<in> set xs \<Longrightarrow> enc x \<noteq> None) \<Longrightarrow> enc_list enc xs \<noteq> None"
proof (induction xs)
  case (Cons x xs)
  obtain j where "enc x = Some j" using Cons.prems by fastforce
  then show ?case using Cons by (auto simp: enc_list_def)
qed (simp add: enc_list_def)

lemma update_append_new: "k \<notin> fst ` set m \<Longrightarrow> AList.update k v m = m @ [(k, v)]"
  by (induction m) auto

lemma fold_put_distinct:
  "gomap_wf (acc @ kvs) \<Longrightarrow> fold (\<lambda>(k, v). gomap_put k v) kvs acc = acc @ kvs"
  by (induction kvs arbitrary: acc) (auto simp: update_append_new)

lemma dec_enc_map:
  assumes "gomap_wf m" "enc_map enc m = Some j"
    and "\<And>k v j. (k, v) \<in> set m \<Longrightarrow> enc v = Some j \<Longrightarrow> dec j = Some v"
  shows "\<exists>m'. dec_map dec j = Some m' \<and> mset m' = mset m"
proof -
  let ?s = "sort_key fst m"
  obtain ms where j: "j = JObj ms"
    and ms: "map (\<lambda>(k, v). map_option (Pair k) (enc v)) ?s = map Some ms"
    using assms(2) by (auto simp: enc_map_def sequence_Some_iff)
  have "map (\<lambda>(k, v). map_option (Pair k) (dec v)) ms = map Some ?s"
  proof (rule nth_equalityI)
    show len: "length (map (\<lambda>(k, v). map_option (Pair k) (dec v)) ms) = length (map Some ?s)"
      using map_eq_imp_length_eq [OF ms] by simp
    fix i assume i: "i < length (map (\<lambda>(k, v). map_option (Pair k) (dec v)) ms)"
    obtain k v where kv: "?s ! i = (k, v)" by fastforce
    have "(k, v) \<in> set m" using i len kv by (metis length_map nth_mem set_sort)
    moreover have "map_option (Pair k) (enc v) = Some (ms ! i)"
      using arg_cong [OF ms, of "\<lambda>xs. xs ! i"] i len kv by simp
    then obtain z where "enc v = Some z" "ms ! i = (k, z)" by (cases "enc v") auto
    ultimately show "map (\<lambda>(k, v). map_option (Pair k) (dec v)) ms ! i = map Some ?s ! i"
      using assms(3) i len kv by auto
  qed
  moreover have "gomap_wf ?s" using assms(1) by (metis distinct_map distinct_sort set_sort)
  ultimately have "dec_map dec j = Some ?s"
    by (simp add: j dec_map_def sequence_Some_iff [THEN iffD2] fold_put_distinct [of "[]"])
  then show ?thesis by simp
qed

section \<open>Numbers survive their encoding\<close>

abbreviation int64 :: "int \<Rightarrow> bool" where
  "int64 n \<equiv> - (2 ^ 63) \<le> n \<and> n < 2 ^ 63"

lemma dec_words [simp]:
  "dec_u64 (JInt (uint v)) = Some v" "dec_u32 (JInt (uint w)) = Some w"
  using uint_lt2p [of v] uint_lt2p [of w] by simp_all

declare dec_u64.simps(1) [simp del] dec_u32.simps(1) [simp del]

lemma enc_float_dec: "enc_float x = Some j \<Longrightarrow> dec_float j = Some x"
  by (auto simp: enc_float_def split: if_splits)

end
