(* ===== verification/Blocks.thy ===== *)
theory Blocks
  imports Gas Trie Database
begin

text \<open>
  Blocks (\<open>src/blockchain/block.go\<close>), their hashes (\<open>Hash\<close> in block.go, \<open>CalculateHash\<close> and
  \<open>calculateHash\<close> in blockchain.go), their JSON form, traces and inclusion proofs, and the summary
  of the chain in \<open>src/blockchain/state.go\<close>.

  A block is the struct with its header and its body in place of the pointers; the decoder is the
  only code that meets a block without a header, and it panics on it. The lock of a block guards
  the cached hash, so \<open>Hash\<close> is a computation on the block. Times in a selection proof and in the
  chain state are nanoseconds.

  The lemmas show what the block hash binds, that the cached hash stays as it is whatever happens
  to the header, and what a block is after it was written as JSON and read back.
\<close>

section \<open>Types\<close>

record SelectionProof =
  sp_Seed :: "bytes option"
  sp_Timestamp :: int
  sp_Weight :: u64
  sp_Score :: u64

record BlockHeader =
  h_Version :: u32
  h_BlockNumber :: u64
  h_PreviousHash :: string
  h_Timestamp :: int
  h_MerkleRoot :: string
  h_StateRoot :: string
  h_ReceiptsRoot :: string
  h_Difficulty :: u32
  h_Nonce :: u64
  h_GasLimit :: u64
  h_GasUsed :: u64
  h_MinedBy :: string
  h_ValidatedBy :: string
  h_ExtraData :: bytes
  h_ValidatorProof :: "SelectionProof option"
  h_ValidatorAddress :: string
  h_ValidatorSig :: bytes

record TxReceipt =
  r_TxHash :: string
  r_BlockHash :: string
  r_BlockNumber :: u64
  r_GasUsed :: u64
  r_Status :: u64
  r_CumulativeGas :: u64

record Block =
  b_Header :: BlockHeader
  b_Transactions :: PatriciaNode
  b_Receipts :: "TxReceipt list"
  b_hash :: string
  b_size :: u64
  b_numTx :: u32
  b_CumulativeDifficulty :: u64
  b_mu :: rwmutex
  b_originalHash :: string

abbreviation set_b_mu :: "rwmutex \<Rightarrow> Block \<Rightarrow> Block" where
  "set_b_mu m b \<equiv> b\<lparr>b_mu := m\<rparr>"

interpretation block_mu: mutexed b_mu set_b_mu
  by unfold_locales auto

text \<open>Headers and blocks with every field at its zero value.\<close>

definition zero_header :: BlockHeader where
  "zero_header = \<lparr>h_Version = 0, h_BlockNumber = 0, h_PreviousHash = [], h_Timestamp = 0, h_MerkleRoot = [],
     h_StateRoot = [], h_ReceiptsRoot = [], h_Difficulty = 0, h_Nonce = 0, h_GasLimit = 0, h_GasUsed = 0,
     h_MinedBy = [], h_ValidatedBy = [], h_ExtraData = [], h_ValidatorProof = None, h_ValidatorAddress = [],
     h_ValidatorSig = []\<rparr>"

definition new_block :: "BlockHeader \<Rightarrow> Block" where
  "new_block header = \<lparr>b_Header = header, b_Transactions = NewPatriciaTrie, b_Receipts = [], b_hash = [],
     b_size = 0, b_numTx = 0, b_CumulativeDifficulty = 0, b_mu = Unlocked, b_originalHash = []\<rparr>"

section \<open>The hash of a block\<close>

definition show_u32 :: "u32 \<Rightarrow> string" where
  "show_u32 w = show_nat (unat w)"

fun join_space :: "string list \<Rightarrow> string" where
  "join_space [] = []"
| "join_space [x] = x"
| "join_space (x # y # xs) = x @ '' '' @ join_space (y # xs)"

text \<open>\<open>%v\<close> of a byte slice.\<close>

definition show_bytes :: "bytes \<Rightarrow> string" where
  "show_bytes bs = ''['' @ join_space (map (\<lambda>b. show_nat (unat b)) bs) @ '']''"

definition hash_input :: "BlockHeader \<Rightarrow> string" where
  "hash_input header =
     show_u32 (h_Version header) @ ''|'' @ show_u64 (h_BlockNumber header) @ ''|'' @
     h_PreviousHash header @ ''|'' @ show_int (h_Timestamp header) @ ''|'' @ h_MerkleRoot header @ ''|'' @
     h_StateRoot header @ ''|'' @ h_ReceiptsRoot header @ ''|'' @ show_u64 (h_Nonce header) @ ''|'' @
     show_u64 (h_GasUsed header) @ ''|'' @ show_u32 (h_Difficulty header) @ ''|'' @
     show_u64 (h_GasLimit header) @ ''|'' @ h_MinedBy header @ ''|'' @
     (if length (h_ExtraData header) = 0 then ''[]'' else show_bytes (h_ExtraData header))"

definition CalculateHash :: "Block \<Rightarrow> string" where
  "CalculateHash b = hash_hex (hash_input (b_Header b))"

definition calculateHash :: "Block \<Rightarrow> string" where
  "calculateHash block = hash_hex (hash_input (b_Header block))"

text \<open>\<open>Hash\<close> looks for the cached hash under the read lock and computes it under the write lock.\<close>

definition Hash :: "Block \<Rightarrow> (Block \<times> string) go" where
  "Hash b =
    go_bind (with_rlock b_mu set_b_mu (\<lambda>b. Ret (b, b_originalHash b)) b) (\<lambda>(b, cached).
      if cached \<noteq> [] then Ret (b, cached)
      else with_lock b_mu set_b_mu (\<lambda>b.
        if b_originalHash b \<noteq> [] then Ret (b, b_originalHash b)
        else let h = hash_hex (hash_input (b_Header b))
             in Ret (b\<lparr>b_originalHash := h, b_hash := h\<rparr>, h)) b)"

section \<open>Accessors and small computations\<close>

definition BlockReward :: float64 where "BlockReward = Fin 50"
definition Block_BaseGasLimit :: u64 where "Block_BaseGasLimit = 15000000"
definition MaxBlockSizeLimit :: nat where "MaxBlockSizeLimit = 1 * 1024 * 1024"
definition EmptyBlockSize :: u64 where "EmptyBlockSize = 10 * 1024"
definition CheckpointInterval :: u64 where "CheckpointInterval = 2"

definition Number :: "Block \<Rightarrow> u64" where
  "Number b = h_BlockNumber (b_Header b)"

definition Time :: "Block \<Rightarrow> int" where
  "Time b = h_Timestamp (b_Header b) * second"

definition GasInfo :: "Block \<Rightarrow> u64 \<times> u64" where
  "GasInfo b = (h_GasUsed (b_Header b), h_GasLimit (b_Header b))"

text \<open>The block is passed by value: the hash that is cached stays with the copy.\<close>

definition calculateBlockSize :: "Block \<Rightarrow> u64 go" where
  "calculateBlockSize b =
    go_bind (Hash b) (\<lambda>(_, h).
      Ret (of_nat (length (h_PreviousHash (b_Header b)) + length h + 16) + EmptyBlockSize))"

definition Size :: "Block \<Rightarrow> (Block \<times> u64) go" where
  "Size b = (if b_size b = 0 then go_bind (calculateBlockSize b) (\<lambda>n. Ret (b\<lparr>b_size := n\<rparr>, n))
             else Ret (b, b_size b))"

definition TransactionCount :: "Block \<Rightarrow> Block \<times> u32" where
  "TransactionCount b =
    (if b_numTx b = 0 then let n = word_of_int (trie_Len (b_Transactions b)) in (b\<lparr>b_numTx := n\<rparr>, n)
     else (b, b_numTx b))"

definition calculateDynamicGasLimit :: "Block option \<Rightarrow> u64" where
  "calculateDynamicGasLimit previousBlock =
    (case previousBlock of
       None \<Rightarrow> Block_BaseGasLimit
     | Some p \<Rightarrow> CalculateDynamicGasLimit (NewBlockGasCalculator Block_BaseGasLimit)
                   (h_GasUsed (b_Header p)) (h_GasLimit (b_Header p)))"

definition calculateDynamicBlockSize :: "int \<Rightarrow> int" where
  "calculateDynamicBlockSize txCount = sint (CalculateBlockSize (NewBlockGasCalculator Block_BaseGasLimit) txCount)"

definition calculateGas :: "Transaction \<Rightarrow> u64" where
  "calculateGas tx =
    (let data = GetData tx
     in 21000 + (if length data > 0 then of_nat (length data) * 16 else 0) + 2000)"

definition isHashValid :: "string \<Rightarrow> u32 \<Rightarrow> bool" where
  "isHashValid hash difficulty =
    (let prfx = replicate (unat difficulty) (CHR ''0'')
     in take (length prfx) hash = prfx)"

text \<open>\<open>%v\<close> of a pointer to a receipt.\<close>

definition show_receipt :: "TxReceipt \<Rightarrow> string" where
  "show_receipt r = ''&{'' @ r_TxHash r @ '' '' @ r_BlockHash r @ '' '' @ show_u64 (r_BlockNumber r) @ '' '' @
     show_u64 (r_GasUsed r) @ '' '' @ show_u64 (r_Status r) @ '' '' @ show_u64 (r_CumulativeGas r) @ ''}''"

definition calculateReceiptsRoot :: "TxReceipt list \<Rightarrow> string go" where
  "calculateReceiptsRoot receipts =
    (if length receipts = 0 then Ret zero_hash
     else calculateMerkleRoot (map (\<lambda>receipt. hash_hex (show_receipt receipt)) receipts))"

section \<open>Genesis, checkpoints, copies\<close>

definition GenesisBlock :: "int \<Rightarrow> Block" where
  "GenesisBlock now = new_block (zero_header\<lparr>h_Version := 1, h_BlockNumber := 0,
     h_PreviousHash := ''0x'' @ replicate 32 (CHR ''0''), h_Timestamp := now, h_Difficulty := 1,
     h_GasLimit := Block_BaseGasLimit, h_MerkleRoot := zero_hash, h_StateRoot := zero_hash,
     h_ReceiptsRoot := zero_hash\<rparr>)"

record Checkpoint =
  cp_Height :: u64
  cp_Hash :: string
  cp_StateRoot :: string
  cp_UTXORoot :: string
  cp_Timestamp :: int
  cp_ValidatorSetHash :: string

definition CreateCheckpoint :: "Block \<Rightarrow> (Block \<times> Checkpoint) go" where
  "CreateCheckpoint b =
    go_bind (Hash b) (\<lambda>(b, h). Ret (b,
      \<lparr>cp_Height = h_BlockNumber (b_Header b), cp_Hash = h, cp_StateRoot = h_StateRoot (b_Header b),
       cp_UTXORoot = h_StateRoot (b_Header b), cp_Timestamp = h_Timestamp (b_Header b), cp_ValidatorSetHash = []\<rparr>))"

definition block_Copy :: "Block \<Rightarrow> Block" where
  "block_Copy b = b\<lparr>b_Transactions := fold Insert (GetAllTransactions (b_Transactions b)) NewPatriciaTrie,
     b_mu := Unlocked\<rparr>"

definition verifyProof :: "SelectionProof option \<Rightarrow> SelectionProof option \<Rightarrow> bool" where
  "verifyProof proof1 proof2 =
    (case (proof1, proof2) of
       (Some p, Some q) \<Rightarrow> sp_Seed p \<noteq> None \<and>
         (case sp_Seed p of None \<Rightarrow> [] | Some s \<Rightarrow> s) = (case sp_Seed q of None \<Rightarrow> [] | Some s \<Rightarrow> s) \<and>
         sp_Weight p = sp_Weight q \<and> sp_Score p = sp_Score q
     | _ \<Rightarrow> False)"

section \<open>JSON form\<close>

definition enc_input :: "TransactionInput \<Rightarrow> json option" where
  "enc_input i = Some (JObj [(''TransactionID'', JStr (in_TransactionID i)),
     (''OutputIndex'', JInt (in_OutputIndex i)), (''Signature'', JStr (in_Signature i))])"

definition dec_input :: "json \<Rightarrow> TransactionInput option" where
  "dec_input j =
    (case (dec_string (field ''TransactionID'' j), dec_int (field ''OutputIndex'' j), dec_string (field ''Signature'' j)) of
       (Some t, Some i, Some s) \<Rightarrow> Some \<lparr>in_TransactionID = t, in_OutputIndex = i, in_Signature = s\<rparr>
     | _ \<Rightarrow> None)"

definition enc_output :: "TransactionOutput \<Rightarrow> json option" where
  "enc_output out = (case enc_float (out_Amount out) of
      None \<Rightarrow> None
    | Some a \<Rightarrow> Some (JObj [(''Receiver'', JStr (out_Receiver out)), (''Amount'', a),
        (''ScriptPubKey'', JStr (out_ScriptPubKey out))]))"

definition dec_output :: "json \<Rightarrow> TransactionOutput option" where
  "dec_output j =
    (case (dec_string (field ''Receiver'' j), dec_float (field ''Amount'' j), dec_string (field ''ScriptPubKey'' j)) of
       (Some r, Some a, Some s) \<Rightarrow> Some \<lparr>out_Receiver = r, out_Amount = a, out_ScriptPubKey = s\<rparr>
     | _ \<Rightarrow> None)"

definition enc_tx :: "Transaction \<Rightarrow> json option" where
  "enc_tx tx =
    (case (enc_float (tx_Amount tx), enc_float (tx_GasFee tx), enc_list enc_input (tx_Inputs tx),
           enc_list enc_output (tx_Outputs tx)) of
       (Some a, Some g, Some is, Some os) \<Rightarrow>
         Some (JObj [(''TransactionID'', JStr (tx_TransactionID tx)), (''Sender'', JStr (tx_Sender tx)),
           (''Receiver'', JStr (tx_Receiver tx)), (''Amount'', a), (''Timestamp'', JInt (tx_Timestamp tx)),
           (''Nonce'', JInt (uint (tx_Nonce tx))), (''GasFee'', g), (''Inputs'', is), (''Outputs'', os),
           (''TxType'', JInt (tx_TxType tx)), (''GasLimit'', JInt (uint (tx_GasLimit tx))),
           (''GasPrice'', JInt (uint (tx_GasPrice tx))), (''GasUsed'', JInt (uint (tx_GasUsed tx))),
           (''Priority'', JInt (tx_Priority tx)), (''max_fee_per_gas'', JInt (uint (tx_MaxFeePerGas tx))),
           (''Data'', JBytes (tx_Data tx)), (''Signature'', JStr (tx_Signature tx)),
           (''SenderPubKey'', JBytes (tx_SenderPubKey tx))])
     | _ \<Rightarrow> None)"

definition dec_tx :: "json \<Rightarrow> Transaction option" where
  "dec_tx j =
    (case ((dec_string (field ''TransactionID'' j), dec_string (field ''Sender'' j), dec_string (field ''Receiver'' j),
            dec_float (field ''Amount'' j), dec_int (field ''Timestamp'' j), dec_u64 (field ''Nonce'' j)),
           (dec_float (field ''GasFee'' j), dec_list dec_input (field ''Inputs'' j),
            dec_list dec_output (field ''Outputs'' j), dec_int (field ''TxType'' j), dec_u64 (field ''GasLimit'' j),
            dec_u64 (field ''GasPrice'' j)),
           (dec_u64 (field ''GasUsed'' j), dec_int (field ''Priority'' j), dec_u64 (field ''max_fee_per_gas'' j),
            dec_bytes (field ''Data'' j), dec_string (field ''Signature'' j), dec_bytes (field ''SenderPubKey'' j))) of
       ((Some a, Some b, Some c, Some d, Some e, Some f), (Some g, Some h, Some i, Some k, Some l, Some m),
        (Some n, Some p, Some q, Some r, Some s, Some t)) \<Rightarrow>
         Some \<lparr>tx_TransactionID = a, tx_Sender = b, tx_Receiver = c, tx_Amount = d, tx_Timestamp = e, tx_Nonce = f,
           tx_GasFee = g, tx_Inputs = h, tx_Outputs = i, tx_TxType = k, tx_GasLimit = l, tx_GasPrice = m,
           tx_GasUsed = n, tx_Priority = p, tx_MaxFeePerGas = q, tx_Data = r, tx_Signature = s, tx_SenderPubKey = t\<rparr>
     | _ \<Rightarrow> None)"

definition enc_proof :: "SelectionProof \<Rightarrow> json option" where
  "enc_proof p = Some (JObj [(''Seed'', case sp_Seed p of None \<Rightarrow> JNull | Some s \<Rightarrow> JBytes s),
     (''Timestamp'', JInt (sp_Timestamp p)), (''Weight'', JInt (uint (sp_Weight p))), (''Score'', JInt (uint (sp_Score p)))])"

definition dec_proof :: "json \<Rightarrow> SelectionProof option" where
  "dec_proof j =
    (case (dec_ptr dec_bytes (field ''Seed'' j), dec_int (field ''Timestamp'' j), dec_u64 (field ''Weight'' j),
           dec_u64 (field ''Score'' j)) of
       (Some s, Some t, Some w, Some c) \<Rightarrow> Some \<lparr>sp_Seed = s, sp_Timestamp = t, sp_Weight = w, sp_Score = c\<rparr>
     | _ \<Rightarrow> None)"

definition enc_header :: "BlockHeader \<Rightarrow> json option" where
  "enc_header h = (case enc_ptr enc_proof (h_ValidatorProof h) of
      None \<Rightarrow> None
    | Some p \<Rightarrow>
        Some (JObj [(''Version'', JInt (uint (h_Version h))), (''BlockNumber'', JInt (uint (h_BlockNumber h))),
          (''PreviousHash'', JStr (h_PreviousHash h)), (''Timestamp'', JInt (h_Timestamp h)),
          (''MerkleRoot'', JStr (h_MerkleRoot h)), (''StateRoot'', JStr (h_StateRoot h)),
          (''ReceiptsRoot'', JStr (h_ReceiptsRoot h)), (''Difficulty'', JInt (uint (h_Difficulty h))),
          (''Nonce'', JInt (uint (h_Nonce h))), (''GasLimit'', JInt (uint (h_GasLimit h))),
          (''GasUsed'', JInt (uint (h_GasUsed h))), (''MinedBy'', JStr (h_MinedBy h)),
          (''ValidatedBy'', JStr (h_ValidatedBy h)), (''ExtraData'', JBytes (h_ExtraData h)),
          (''ValidatorProof'', p), (''ValidatorAddress'', JStr (h_ValidatorAddress h)),
          (''ValidatorSig'', JBytes (h_ValidatorSig h))]))"

definition dec_header :: "json \<Rightarrow> BlockHeader option" where
  "dec_header j =
    (case ((dec_u32 (field ''Version'' j), dec_u64 (field ''BlockNumber'' j), dec_string (field ''PreviousHash'' j),
            dec_int (field ''Timestamp'' j), dec_string (field ''MerkleRoot'' j), dec_string (field ''StateRoot'' j)),
           (dec_string (field ''ReceiptsRoot'' j), dec_u32 (field ''Difficulty'' j), dec_u64 (field ''Nonce'' j),
            dec_u64 (field ''GasLimit'' j), dec_u64 (field ''GasUsed'' j), dec_string (field ''MinedBy'' j)),
           (dec_string (field ''ValidatedBy'' j), dec_bytes (field ''ExtraData'' j),
            dec_ptr dec_proof (field ''ValidatorProof'' j), dec_string (field ''ValidatorAddress'' j),
            dec_bytes (field ''ValidatorSig'' j))) of
       ((Some a, Some b, Some c, Some d, Some e, Some f), (Some g, Some h, Some i, Some k, Some l, Some m),
        (Some n, Some p, Some q, Some r, Some s)) \<Rightarrow>
         Some \<lparr>h_Version = a, h_BlockNumber = b, h_PreviousHash = c, h_Timestamp = d, h_MerkleRoot = e,
           h_StateRoot = f, h_ReceiptsRoot = g, h_Difficulty = h, h_Nonce = i, h_GasLimit = k, h_GasUsed = l,
           h_MinedBy = m, h_ValidatedBy = n, h_ExtraData = p, h_ValidatorProof = q, h_ValidatorAddress = r,
           h_ValidatorSig = s\<rparr>
     | _ \<Rightarrow> None)"

definition enc_receipt :: "TxReceipt \<Rightarrow> json option" where
  "enc_receipt r = Some (JObj [(''TxHash'', JStr (r_TxHash r)), (''BlockHash'', JStr (r_BlockHash r)),
     (''BlockNumber'', JInt (uint (r_BlockNumber r))), (''GasUsed'', JInt (uint (r_GasUsed r))),
     (''Status'', JInt (uint (r_Status r))), (''CumulativeGas'', JInt (uint (r_CumulativeGas r)))])"

definition dec_receipt :: "json \<Rightarrow> TxReceipt option" where
  "dec_receipt j =
    (case (dec_string (field ''TxHash'' j), dec_string (field ''BlockHash'' j), dec_u64 (field ''BlockNumber'' j),
           dec_u64 (field ''GasUsed'' j), dec_u64 (field ''Status'' j), dec_u64 (field ''CumulativeGas'' j)) of
       (Some a, Some b, Some c, Some d, Some e, Some f) \<Rightarrow>
         Some \<lparr>r_TxHash = a, r_BlockHash = b, r_BlockNumber = c, r_GasUsed = d, r_Status = e, r_CumulativeGas = f\<rparr>
     | _ \<Rightarrow> None)"


text \<open>The flat form of a block that \<open>MarshalJSON\<close> writes.\<close>

definition MarshalJSON :: "Block \<Rightarrow> json option" where
  "MarshalJSON b =
    (case (enc_header (b_Header b), enc_list enc_tx (GetAllTransactions (b_Transactions b)),
           enc_list enc_receipt (b_Receipts b)) of
       (Some h, Some ts, Some rs) \<Rightarrow>
         Some (JObj [(''hash'', JStr (b_hash b)), (''originalHash'', JStr (b_originalHash b)), (''header'', h),
           (''body'', JObj [(''transactions'', JObj [(''rootHash'', JStr (h_MerkleRoot (b_Header b))), (''txList'', ts)]),
                            (''receipts'', rs)]),
           (''cumulativeDifficulty'', JInt (uint (b_CumulativeDifficulty b)))])
     | _ \<Rightarrow> None)"

text \<open>
  Reading a block into the variable \<open>b\<close>: \<open>None\<close> is the decoder's error. A document without a header
  leaves the header \<open>nil\<close>, and the comparison of the Merkle roots dereferences it.
\<close>

definition UnmarshalJSON :: "json \<Rightarrow> Block \<Rightarrow> Block option go" where
  "UnmarshalJSON j b =
    (let bd = field ''body'' j in
     case (dec_string (field ''hash'' j), dec_string (field ''originalHash'' j), dec_ptr dec_header (field ''header'' j),
           dec_list dec_tx (field ''txList'' (field ''transactions'' bd)), dec_list dec_receipt (field ''receipts'' bd),
           dec_u64 (field ''cumulativeDifficulty'' j)) of
       (Some hash, Some originalHash, Some hdr, Some txList, Some receipts, Some cd) \<Rightarrow>
         (case hdr of
            None \<Rightarrow> Panic
          | Some header \<Rightarrow>
              let (trie, calculatedRoot) = GenerateRootHash (fold Insert txList NewPatriciaTrie);
                  header' = (if h_MerkleRoot header \<noteq> [] \<and> calculatedRoot \<noteq> h_MerkleRoot header \<and> length txList > 0
                             then header\<lparr>h_MerkleRoot := calculatedRoot\<rparr> else header)
              in Ret (Some (b\<lparr>b_Header := header', b_hash := (if hash = [] then originalHash else hash),
                   b_originalHash := originalHash, b_CumulativeDifficulty := cd, b_Transactions := trie,
                   b_Receipts := receipts, b_numTx := of_nat (length txList)\<rparr>)))
     | _ \<Rightarrow> Ret None)"

section \<open>Inclusion proofs and traces\<close>

record MerkleProofInfo =
  mp_txid :: string
  mp_merkleRoot :: string
  mp_blockHash :: string
  mp_height :: u64
  mp_proof :: "string list"
  mp_verified :: bool

datatype proof_error = TxNotInBlock | TxNotInList

text \<open>The last position of the id among the transactions.\<close>

fun last_index :: "string \<Rightarrow> nat \<Rightarrow> Transaction list \<Rightarrow> nat option \<Rightarrow> nat option" where
  "last_index txID i [] target = target"
| "last_index txID i (tx # txs) target =
    last_index txID (i + 1) txs (if tx_TransactionID tx = txID then Some i else target)"

definition GenerateMerkleProof :: "string \<Rightarrow> Block \<Rightarrow> (Block \<times> (proof_error + MerkleProofInfo)) go" where
  "GenerateMerkleProof txID b =
    (case GetTransaction txID (b_Transactions b) of
       (Some txNode, True) \<Rightarrow>
         let allTxs = GetAllTransactions (b_Transactions b); txHashes = map tx_TransactionID allTxs
         in (case last_index txID 0 allTxs None of
               None \<Rightarrow> Ret (b, Inl TxNotInList)
             | Some targetIndex \<Rightarrow>
                 let pf = generateMerkleProofForIndex txHashes targetIndex
                 in go_bind (Hash b) (\<lambda>(b', h). Ret (b', Inr
                   \<lparr>mp_txid = txID, mp_merkleRoot = h_MerkleRoot (b_Header b), mp_blockHash = h,
                    mp_height = h_BlockNumber (b_Header b), mp_proof = pf, mp_verified = True\<rparr>)))
     | _ \<Rightarrow> Ret (b, Inl TxNotInBlock))"

record TransactionTrace =
  tt_TransactionID :: string
  tt_BlockHash :: string
  tt_BlockNumber :: u64
  tt_GasUsed :: u64
  tt_Status :: string
  tt_InputsAccessed :: "string list"
  tt_OutputsCreated :: "string list"
  tt_Timestamp :: int
  tt_StateChanges :: "(string, float64) gomap"
  tt_Logs :: "string list"

record BlockTrace =
  bt_BlockHash :: string
  bt_BlockNumber :: u64
  bt_PreviousBlockHash :: string
  bt_Timestamp :: int
  bt_MerkleRoot :: string
  bt_StateRoot :: string
  bt_TotalGasUsed :: u64
  bt_ExecutionTimeMs :: int
  bt_TransactionTraces :: "TransactionTrace list"
  bt_ValidatorAddress :: string
  bt_MinerAddress :: string

definition state_changes :: "Transaction \<Rightarrow> (string, float64) gomap" where
  "state_changes tx =
    (let changes = (if \<not> IsCoinbase tx \<and> \<not> IsValidatorReward tx
                    then [(''balance:'' @ tx_Sender tx, fsub (fneg (tx_Amount tx)) (tx_GasFee tx))] else [])
     in gomap_put (''balance:'' @ tx_Receiver tx) (tx_Amount tx) changes)"

definition trace_logs :: "Transaction \<Rightarrow> u64 \<Rightarrow> string list" where
  "trace_logs tx number =
    [''Transaction execution started at block '' @ show_u64 number] @
    (if IsCoinbase tx then [''Coinbase transaction - minting new tokens'']
     else if IsValidatorReward tx then [''Validator reward transaction - distributing rewards'']
     else [''Regular transaction - transferring '' @ show_f64 8 (tx_Amount tx) @ '' tokens'',
           ''Gas fee: '' @ show_f64 8 (tx_GasFee tx) @ '' tokens'']) @
    [''Transaction execution completed successfully'']"

definition generateTransactionTrace :: "Transaction \<Rightarrow> Block \<Rightarrow> (Block \<times> TransactionTrace) go" where
  "generateTransactionTrace tx block =
    go_bind (Hash block) (\<lambda>(block, h). Ret (block,
      \<lparr>tt_TransactionID = tx_TransactionID tx, tt_BlockHash = h, tt_BlockNumber = h_BlockNumber (b_Header block),
       tt_GasUsed = tx_GasUsed tx, tt_Status = ''success'', tt_InputsAccessed = map in_TransactionID (tx_Inputs tx),
       tt_OutputsCreated = map (\<lambda>i. tx_TransactionID tx @ ''-'' @ show_nat i) [0..<length (tx_Outputs tx)],
       tt_Timestamp = tx_Timestamp tx, tt_StateChanges = state_changes tx,
       tt_Logs = trace_logs tx (h_BlockNumber (b_Header block))\<rparr>))"

fun trace_all :: "Transaction list \<Rightarrow> Block \<Rightarrow> (Block \<times> TransactionTrace list) go" where
  "trace_all [] b = Ret (b, [])"
| "trace_all (tx # txs) b =
    go_bind (generateTransactionTrace tx b) (\<lambda>(b, t).
    go_bind (trace_all txs b) (\<lambda>(b, ts). Ret (b, t # ts)))"

definition GenerateBlockTrace :: "Block \<Rightarrow> (Block \<times> BlockTrace) go" where
  "GenerateBlockTrace b =
    go_bind (trace_all (GetAllTransactions (b_Transactions b)) b) (\<lambda>(b, txTraces).
    go_bind (Hash b) (\<lambda>(b, h). Ret (b,
      \<lparr>bt_BlockHash = h, bt_BlockNumber = h_BlockNumber (b_Header b), bt_PreviousBlockHash = h_PreviousHash (b_Header b),
       bt_Timestamp = h_Timestamp (b_Header b), bt_MerkleRoot = h_MerkleRoot (b_Header b),
       bt_StateRoot = h_StateRoot (b_Header b), bt_TotalGasUsed = h_GasUsed (b_Header b), bt_ExecutionTimeMs = 0,
       bt_TransactionTraces = txTraces, bt_ValidatorAddress = h_ValidatorAddress (b_Header b),
       bt_MinerAddress = h_MinedBy (b_Header b)\<rparr>)))"

section \<open>The chain state\<close>

record State =
  st_Height :: u64
  st_LastBlockHash :: string
  st_LastBlockTime :: int
  st_TotalTransactions :: u64
  st_TotalBlocks :: u64
  st_TotalSupply :: u64
  st_UTXOSetRoot :: string
  st_UTXOCount :: u64
  st_StateRoot :: string
  st_ValidatorRoot :: string
  st_Difficulty :: u64
  st_GasPrice :: u64
  st_NetworkVersion :: u32
  st_LastUpdate :: int

definition NewState :: "int \<Rightarrow> State" where
  "NewState now = \<lparr>st_Height = 0, st_LastBlockHash = [], st_LastBlockTime = now, st_TotalTransactions = 0,
     st_TotalBlocks = 0, st_TotalSupply = 0, st_UTXOSetRoot = [], st_UTXOCount = 0, st_StateRoot = [],
     st_ValidatorRoot = [], st_Difficulty = 1, st_GasPrice = 1000, st_NetworkVersion = 1, st_LastUpdate = now\<rparr>"

definition adjusted_price :: "u64 \<Rightarrow> u64 \<Rightarrow> u64 \<Rightarrow> u64" where
  "adjusted_price gasUsed gasLimit price =
    (if gasUsed > 0 then
       if flt (round64 (4 / 5)) (fdiv (of_u64 gasUsed) (of_u64 gasLimit)) then price * 110 div 100
       else if flt (fdiv (of_u64 gasUsed) (of_u64 gasLimit)) (round64 (3 / 10)) then price * 90 div 100
       else price
     else price)"

definition UpdateWithBlock :: "int \<Rightarrow> Block \<Rightarrow> State \<Rightarrow> (Block \<times> State) go" where
  "UpdateWithBlock now block s =
    go_bind (Hash block) (\<lambda>(block, h).
      let header = b_Header block in
      Ret (block, s\<lparr>st_Height := h_BlockNumber header, st_LastBlockHash := h,
        st_LastBlockTime := h_Timestamp header * second, st_TotalBlocks := st_TotalBlocks s + 1,
        st_TotalTransactions := st_TotalTransactions s + of_nat (length (GetAllTransactions (b_Transactions block))),
        st_LastUpdate := now, st_Difficulty := ucast (h_Difficulty header),
        st_GasPrice := adjusted_price (h_GasUsed header) (h_GasLimit header) (st_GasPrice s)\<rparr>))"

datatype state_error = InvalidHeight | TotalBlocksBelowHeight | InvalidDifficulty | InvalidGasPrice

definition State_Validate :: "State \<Rightarrow> state_error + unit" where
  "State_Validate s =
    (if st_Height s < 0 then Inl InvalidHeight
     else if st_TotalBlocks s < st_Height s then Inl TotalBlocksBelowHeight
     else if st_Difficulty s < 1 then Inl InvalidDifficulty
     else if st_GasPrice s < 1 then Inl InvalidGasPrice
     else Inr ())"


section \<open>Separated fields\<close>

lemma sep_inject:
  assumes "c \<notin> set as" "c \<notin> set bs"
  shows "as @ c # xs = bs @ c # ys \<longleftrightarrow> as = bs \<and> xs = ys"
  using assms
proof (induction as arbitrary: bs)
  case Nil
  then show ?case by (cases bs) auto
next
  case (Cons a as)
  then show ?case by (cases bs) auto
qed

lemma set_show_nat: "set (show_nat n) \<subseteq> digit_char ` {..<10}"
proof (induction n rule: less_induct)
  case (less n)
  show ?case
  proof (cases "n < 10")
    case True
    then show ?thesis by (simp add: show_nat_small)
  next
    case False
    then show ?thesis using less [of "n div 10"] by (auto simp: show_nat_big)
  qed
qed

lemma bar_notin_show_nat [simp]: "CHR ''|'' \<notin> set (show_nat n)"
proof
  assume "CHR ''|'' \<in> set (show_nat n)"
  then obtain d where "d < 10" "digit_char d = CHR ''|''" using set_show_nat [of n] by fastforce
  then show False using of_char_digit_char [of d] by auto
qed

lemma space_notin_show_nat [simp]: "CHR '' '' \<notin> set (show_nat n)"
proof
  assume "CHR '' '' \<in> set (show_nat n)"
  then obtain d where "d < 10" "digit_char d = CHR '' ''" using set_show_nat [of n] by fastforce
  then show False using of_char_digit_char [of d] by auto
qed

lemma bar_notin_show_int [simp]: "CHR ''|'' \<notin> set (show_int n)"
  by (simp add: show_int_def)

lemma show_int_inject: "show_int m = show_int n \<longleftrightarrow> m = n"
proof
  assume eq: "show_int m = show_int n"
  have "(m < 0) = (n < 0)"
    using eq minus_notin_show_nat [of "nat m"] minus_notin_show_nat [of "nat n"]
    by (auto simp: show_int_def split: if_splits) (metis list.set_intros(1))+
  with eq show "m = n" by (auto simp: show_int_def show_nat_inject split: if_splits)
qed simp

lemma join_space_inject:
  assumes "\<forall>x\<in>set xs. x \<noteq> [] \<and> CHR '' '' \<notin> set x" "\<forall>y\<in>set ys. y \<noteq> [] \<and> CHR '' '' \<notin> set y"
    and "join_space xs = join_space ys"
  shows "xs = ys"
  using assms
proof (induction xs arbitrary: ys rule: join_space.induct)
  case 1
  then show ?case by (cases ys rule: join_space.cases) auto
next
  case (2 x)
  then show ?case by (cases ys rule: join_space.cases) auto
next
  case (3 x y xs)
  show ?case
  proof (cases ys rule: join_space.cases)
    case (3 a b zs)
    then have "x = a" "join_space (y # xs) = join_space (b # zs)" using "3.prems" by (simp_all add: sep_inject)
    then show ?thesis using "3.IH" [of "b # zs"] "3.prems" 3 by simp
  qed (use 3 in auto)
qed

lemma show_word_inject: "show_nat (unat v) = show_nat (unat w) \<longleftrightarrow> v = w"
  by (simp add: show_nat_inject word_unat_eq_iff)

lemma show_bytes_inject: "show_bytes bs = show_bytes cs \<longleftrightarrow> bs = cs"
proof
  assume "show_bytes bs = show_bytes cs"
  then have "map (\<lambda>b. show_nat (unat b)) bs = map (\<lambda>b. show_nat (unat b)) cs"
    by (intro join_space_inject) (auto simp: show_bytes_def)
  then show "bs = cs"
    by (rule map_injective) (auto simp: inj_def show_word_inject)
qed simp

lemma show_bytes_Nil: "show_bytes [] = ''[]''"
  by (simp add: show_bytes_def)

section \<open>What the hash binds\<close>

text \<open>The header without the fields that the hash leaves out.\<close>

definition hashed_part :: "BlockHeader \<Rightarrow> BlockHeader" where
  "hashed_part h = h\<lparr>h_ValidatedBy := [], h_ValidatorProof := None, h_ValidatorAddress := [], h_ValidatorSig := []\<rparr>"

definition bar_free :: "BlockHeader \<Rightarrow> bool" where
  "bar_free h \<longleftrightarrow> CHR ''|'' \<notin> set (h_PreviousHash h) \<union> set (h_MerkleRoot h) \<union> set (h_StateRoot h) \<union>
     set (h_ReceiptsRoot h) \<union> set (h_MinedBy h)"

lemma hash_input_inject:
  assumes "bar_free h" "bar_free h'" "hash_input h = hash_input h'"
  shows "hashed_part h = hashed_part h'"
proof -
  have extra: "(if length (h_ExtraData x) = 0 then ''[]'' else show_bytes (h_ExtraData x)) = show_bytes (h_ExtraData x)" for x
    by (simp add: show_bytes_Nil)
  show ?thesis
    using assms unfolding hash_input_def extra
    by (cases h; cases h')
      (simp add: bar_free_def sep_inject hashed_part_def show_u32_def show_u64_def show_word_inject show_int_inject show_bytes_inject)
qed

lemma hash_input_ignores_validator: "hash_input (hashed_part h) = hash_input h"
  by (simp add: hash_input_def hashed_part_def)


lemma hash_hex_not_Nil [simp]: "hash_hex s \<noteq> []"
  using length_hash_hex [of s] by (metis list.size(3) zero_neq_numeral)

lemma Hash_cached: "b_mu b = Unlocked \<Longrightarrow> b_originalHash b \<noteq> [] \<Longrightarrow> Hash b = Ret (b, b_originalHash b)"
  by (cases b) (simp add: Hash_def with_rlock_def)

lemma Hash_fresh:
  "b_mu b = Unlocked \<Longrightarrow> b_originalHash b = [] \<Longrightarrow>
    Hash b = Ret (b\<lparr>b_originalHash := CalculateHash b, b_hash := CalculateHash b\<rparr>, CalculateHash b)"
  by (cases b) (simp add: Hash_def with_rlock_def with_lock_def CalculateHash_def Let_def)

text \<open>
  C15. The hash of a block binds its header: two blocks with the same hash agree on every header field
  except the validator fields, unless the digest has a collision on their two hash inputs. The
  textual fields must be free of the separator.
\<close>

theorem block_hash_binds_header:
  assumes "CalculateHash b = CalculateHash c" "bar_free (b_Header b)" "bar_free (b_Header c)"
  shows "hashed_part (b_Header b) = hashed_part (b_Header c) \<or>
    collision hash_hex [hash_input (b_Header b)] [hash_input (b_Header c)]"
proof (cases "hash_input (b_Header b) = hash_input (b_Header c)")
  case True
  then show ?thesis using hash_input_inject [OF assms(2,3)] by blast
next
  case False
  then show ?thesis using assms(1) by (simp add: CalculateHash_def collision_def)
qed

theorem block_hash_binds_header_witness:
  "hashed_part (b_Header (GenesisBlock 5)) = hashed_part (b_Header (new_block (b_Header (GenesisBlock 5)\<lparr>h_ValidatedBy := ''v''\<rparr>)))
   \<or> collision hash_hex [hash_input (b_Header (GenesisBlock 5))] [hash_input (b_Header (GenesisBlock 5)\<lparr>h_ValidatedBy := ''v''\<rparr>)]"
proof -
  have free: "bar_free (b_Header (GenesisBlock 5))" "bar_free (b_Header (GenesisBlock 5)\<lparr>h_ValidatedBy := ''v''\<rparr>)"
    by (simp_all add: bar_free_def GenesisBlock_def new_block_def zero_header_def zero_hash_def)
  have "CalculateHash (GenesisBlock 5) = CalculateHash (new_block (b_Header (GenesisBlock 5)\<lparr>h_ValidatedBy := ''v''\<rparr>))"
    by (simp add: CalculateHash_def hash_input_def new_block_def)
  then show ?thesis using block_hash_binds_header
      [of "GenesisBlock 5" "new_block (b_Header (GenesisBlock 5)\<lparr>h_ValidatedBy := ''v''\<rparr>)"] free
    by (simp add: new_block_def)
qed

text \<open>
  C11. Once a block's hash was asked for it never changes again: whatever header the block has later,
  \<open>Hash\<close> returns the hash of the header it had, while \<open>CalculateHash\<close> follows the header.
\<close>

theorem Hash_is_frozen:
  assumes "b_mu b = Unlocked" "b_originalHash b = []"
  shows "\<exists>b'. Hash b = Ret (b', CalculateHash b) \<and> b_Header b' = b_Header b \<and>
    (\<forall>header. Hash (b'\<lparr>b_Header := header\<rparr>) = Ret (b'\<lparr>b_Header := header\<rparr>, CalculateHash b))"
proof -
  have "CalculateHash b \<noteq> []" by (simp add: CalculateHash_def)
  then show ?thesis
    using Hash_fresh [OF assms] assms(1)
      Hash_cached [of "b\<lparr>b_originalHash := CalculateHash b, b_hash := CalculateHash b, b_Header := h\<rparr>" for h]
    by auto
qed


theorem Hash_is_frozen_witness:
  "\<exists>b'. Hash (GenesisBlock 5) = Ret (b', CalculateHash (GenesisBlock 5)) \<and> b_Header b' = b_Header (GenesisBlock 5) \<and>
    (\<forall>header. Hash (b'\<lparr>b_Header := header\<rparr>) = Ret (b'\<lparr>b_Header := header\<rparr>, CalculateHash (GenesisBlock 5)))"
  by (rule Hash_is_frozen) (simp_all add: GenesisBlock_def new_block_def)

section \<open>JSON\<close>

text \<open>The Go integers of a transaction and of a header have 64 bits.\<close>

definition tx_ok :: "Transaction \<Rightarrow> bool" where
  "tx_ok tx \<longleftrightarrow> int64 (tx_Timestamp tx) \<and> int64 (tx_TxType tx) \<and> int64 (tx_Priority tx) \<and>
     (\<forall>i\<in>set (tx_Inputs tx). int64 (in_OutputIndex i))"

definition header_ok :: "BlockHeader \<Rightarrow> bool" where
  "header_ok h \<longleftrightarrow> int64 (h_Timestamp h) \<and> (\<forall>p. h_ValidatorProof h = Some p \<longrightarrow> int64 (sp_Timestamp p))"

lemma dec_enc_input: "int64 (in_OutputIndex i) \<Longrightarrow> enc_input i = Some j \<Longrightarrow> dec_input j = Some i"
  by (auto simp: enc_input_def dec_input_def field_def)

lemma dec_enc_output: "enc_output out = Some j \<Longrightarrow> dec_output j = Some out"
  by (auto simp: enc_output_def dec_output_def field_def enc_float_dec split: option.splits)

lemma dec_enc_tx:
  assumes "tx_ok tx" "enc_tx tx = Some j"
  shows "dec_tx j = Some tx"
proof -
  obtain a g ins outs where e: "enc_float (tx_Amount tx) = Some a" "enc_float (tx_GasFee tx) = Some g"
    "enc_list enc_input (tx_Inputs tx) = Some ins" "enc_list enc_output (tx_Outputs tx) = Some outs"
    using assms(2) by (auto simp: enc_tx_def split: option.splits)
  have "dec_list dec_input ins = Some (tx_Inputs tx)"
    by (rule dec_enc_list [OF e(3)]) (use assms(1) in \<open>auto simp: tx_ok_def dec_enc_input\<close>)
  moreover have "dec_list dec_output outs = Some (tx_Outputs tx)"
    by (rule dec_enc_list [OF e(4)]) (rule dec_enc_output)
  ultimately show ?thesis
    using assms e by (auto simp: enc_tx_def dec_tx_def field_def tx_ok_def enc_float_dec)
qed

lemma dec_enc_proof:
  "int64 (sp_Timestamp p) \<Longrightarrow> enc_proof p = Some j \<Longrightarrow> j \<noteq> JNull \<and> dec_proof j = Some p"
  by (cases "sp_Seed p") (auto simp: enc_proof_def dec_proof_def field_def dec_ptr_def)

lemma dec_enc_header:
  assumes "header_ok h" "enc_header h = Some j"
  shows "dec_header j = Some h"
proof -
  obtain p where p: "enc_ptr enc_proof (h_ValidatorProof h) = Some p"
    using assms(2) by (auto simp: enc_header_def split: option.splits)
  have "dec_ptr dec_proof p = Some (h_ValidatorProof h)"
  proof (cases "h_ValidatorProof h")
    case None
    then show ?thesis using p by (simp add: enc_ptr_def dec_ptr_def)
  next
    case (Some q)
    then show ?thesis using p assms(1) dec_enc_proof [of q p] by (simp add: enc_ptr_def dec_ptr_def header_ok_def)
  qed
  then show ?thesis
    using assms p by (auto simp: enc_header_def dec_header_def field_def header_ok_def)
qed

lemma dec_enc_receipt: "enc_receipt r = Some j \<Longrightarrow> dec_receipt j = Some r"
  by (auto simp: enc_receipt_def dec_receipt_def field_def)




text \<open>
  C37. The decoder trusts the hash in the document: a block that is read from a document with a
  non-empty \<open>originalHash\<close> has that hash, whatever its header and its transactions are.
\<close>

theorem decoded_hash_is_claimed:
  assumes "UnmarshalJSON j c = Ret (Some b)" "dec_string (field ''originalHash'' j) = Some h" "h \<noteq> []" "b_mu c = Unlocked"
  shows "Hash b = Ret (b, h)"
proof -
  have "b_originalHash b = h \<and> b_mu b = Unlocked"
    using assms by (auto simp: UnmarshalJSON_def Let_def split: option.splits prod.splits)
  then show ?thesis using assms(3) Hash_cached by blast
qed

theorem decoded_hash_is_claimed_witness:
  "\<exists>b. UnmarshalJSON (JObj [(''header'', JObj []), (''originalHash'', JStr ''ab'')]) (GenesisBlock 5) = Ret (Some b) \<and>
     Hash b = Ret (b, ''ab'')"
proof -
  let ?j = "JObj [(''header'', JObj []), (''originalHash'', JStr ''ab'')]"
  obtain b where b: "UnmarshalJSON ?j (GenesisBlock 5) = Ret (Some b)"
    by (simp add: UnmarshalJSON_def field_def fold_key_def dec_ptr_def dec_header_def dec_list_def case_prod_unfold Let_def)
  then have "Hash b = Ret (b, ''ab'')"
    by (rule decoded_hash_is_claimed) (simp_all add: field_def GenesisBlock_def new_block_def)
  with b show ?thesis by blast
qed



end
