(* ===== verification/Accounts.thy ===== *)
theory Accounts
  imports Database
begin

text \<open>
  Account states and the account manager (\<open>src/blockchain/account_state.go\<close>). The manager works on
  the node's database, so its operations act on the pair of the database (None for a nil interface)
  and the manager. The states in \<open>accounts\<close> are pointers in the source: whoever obtains one from
  \<open>GetAccountState\<close> and writes to it changes the manager's map, which the users of the manager do
  here by writing the map. The mutex of a single account, taken by \<open>UpdateNonce\<close> and
  \<open>ValidateNonce\<close> for their own duration only, is left out.

  Times are nanoseconds where the source compares durations and seconds where it stores them.
\<close>

section \<open>Data\<close>

record AccountState =
  as_Address :: string
  as_Nonce :: u64
  as_Balance :: float64
  as_LastActivity :: int
  as_UTXOs :: "(string, string) gomap"
  as_PendingTxs :: "(string, bool) gomap"

record AccountCache =
  ac_balances :: "(string, float64) gomap"
  ac_lastUpdated :: "(string, int) gomap"
  ac_maxAge :: int

record AccountManager =
  am_mu :: rwmutex
  am_accounts :: "(string, AccountState) gomap"
  am_cache :: AccountCache

type_synonym 'd am_state = "'d levelDB option \<times> AccountManager"

abbreviation am_mu_of :: "'d am_state \<Rightarrow> rwmutex" where
  "am_mu_of s \<equiv> am_mu (snd s)"

abbreviation set_am_mu :: "rwmutex \<Rightarrow> 'd am_state \<Rightarrow> 'd am_state" where
  "set_am_mu m s \<equiv> (fst s, (snd s)\<lparr>am_mu := m\<rparr>)"

definition NewAccountManager :: AccountManager where
  "NewAccountManager = \<lparr>am_mu = Unlocked, am_accounts = [],
     am_cache = \<lparr>ac_balances = [], ac_lastUpdated = [], ac_maxAge = 300 * second\<rparr>\<rparr>"

definition fresh_account :: "string \<Rightarrow> AccountState" where
  "fresh_account address = \<lparr>as_Address = address, as_Nonce = 0, as_Balance = Fin 0, as_LastActivity = 0,
     as_UTXOs = [], as_PendingTxs = []\<rparr>"

section \<open>Persistence\<close>

definition enc_account :: "AccountState \<Rightarrow> json option" where
  "enc_account st =
    (case (enc_float (as_Balance st), enc_map (Some \<circ> JStr) (as_UTXOs st), enc_map (Some \<circ> JBool) (as_PendingTxs st)) of
       (Some b, Some u, Some p) \<Rightarrow>
         Some (JObj [(''address'', JStr (as_Address st)), (''nonce'', JInt (uint (as_Nonce st))),
                     (''balance'', b), (''last_activity'', JInt (as_LastActivity st)),
                     (''utxos'', u), (''pending_txs'', p)])
     | _ \<Rightarrow> None)"

definition dec_account :: "json \<Rightarrow> AccountState option" where
  "dec_account j =
    (case (dec_string (field ''address'' j), dec_u64 (field ''nonce'' j), dec_float (field ''balance'' j),
           dec_int (field ''last_activity'' j), dec_map dec_string (field ''utxos'' j),
           dec_map dec_bool (field ''pending_txs'' j)) of
       (Some a, Some n, Some b, Some l, Some u, Some p) \<Rightarrow>
         Some \<lparr>as_Address = a, as_Nonce = n, as_Balance = b, as_LastActivity = l, as_UTXOs = u, as_PendingTxs = p\<rparr>
     | _ \<Rightarrow> None)"

datatype account_error = AccMarshal | AccUnmarshal | AccDB db_error

definition saveAccountState ::
  "'d goleveldb \<Rightarrow> AccountState \<Rightarrow> 'd levelDB option \<Rightarrow> ('d levelDB option \<times> (account_error + unit)) go" where
  "saveAccountState L st db =
    (case enc_account st of
       None \<Rightarrow> Ret (db, Inl AccMarshal)
     | Some data \<Rightarrow> (case db of
          None \<Rightarrow> Panic
        | Some ldb \<Rightarrow> (case db_Put L (''acc:'' @ as_Address st) data ldb of
             (ldb', Inl e) \<Rightarrow> Ret (Some ldb', Inl (AccDB e))
           | (ldb', Inr _) \<Rightarrow> Ret (Some ldb', Inr ()))))"

definition loadAccountState ::
  "'d goleveldb \<Rightarrow> string \<Rightarrow> 'd levelDB option \<Rightarrow> (account_error + AccountState) go" where
  "loadAccountState L address db =
    (case db of
       None \<Rightarrow> Panic
     | Some ldb \<Rightarrow> (case db_Get L (''acc:'' @ address) ldb of
          Inl e \<Rightarrow> Ret (Inl (AccDB e))
        | Inr data \<Rightarrow> (case dec_account data of
             None \<Rightarrow> Ret (Inl AccUnmarshal)
           | Some st \<Rightarrow> Ret (Inr st))))"

section \<open>The manager\<close>

text \<open>\<open>GetAccountState\<close> returns no error: an account that cannot be loaded is created.\<close>

definition GetAccountState ::
  "'d goleveldb \<Rightarrow> string \<Rightarrow> 'd am_state \<Rightarrow> ('d am_state \<times> AccountState) go" where
  "GetAccountState L address s =
    go_bind (with_rlock am_mu_of set_am_mu (\<lambda>s. Ret (s, gomap_get (am_accounts (snd s)) address)) s)
      (\<lambda>(s, found). case found of
         Some st \<Rightarrow> Ret (s, st)
       | None \<Rightarrow>
           go_bind (loadAccountState L address (fst s)) (\<lambda>r.
             go_bind
               (case r of
                  Inr st \<Rightarrow> Ret (fst s, st)
                | Inl _ \<Rightarrow>
                    let st = fresh_account address in
                    go_bind (saveAccountState L st (fst s)) (\<lambda>(db, _). Ret (db, st)))
               (\<lambda>(db, st).
                 with_lock am_mu_of set_am_mu
                   (\<lambda>s. Ret ((fst s, (snd s)\<lparr>am_accounts := gomap_put address st (am_accounts (snd s))\<rparr>), st))
                   (db, snd s))))"

definition UpdateNonce ::
  "'d goleveldb \<Rightarrow> int \<Rightarrow> string \<Rightarrow> 'd am_state \<Rightarrow> ('d am_state \<times> (account_error + u64)) go" where
  "UpdateNonce L now address s =
    go_bind (GetAccountState L address s) (\<lambda>((db, am), st).
      let st' = st\<lparr>as_Nonce := as_Nonce st + 1, as_LastActivity := now\<rparr>;
          am' = am\<lparr>am_accounts := gomap_put address st' (am_accounts am)\<rparr> in
      go_bind (saveAccountState L st' db) (\<lambda>(db', r).
        Ret ((db', am'), case r of Inl e \<Rightarrow> Inl e | Inr _ \<Rightarrow> Inr (as_Nonce st'))))"

definition ValidateNonce ::
  "'d goleveldb \<Rightarrow> string \<Rightarrow> u64 \<Rightarrow> 'd am_state \<Rightarrow> ('d am_state \<times> bool) go" where
  "ValidateNonce L address nonce s =
    go_bind (GetAccountState L address s) (\<lambda>(s', st). Ret (s', nonce = as_Nonce st + 1))"

text \<open>The loop of \<open>BatchUpdateAccounts\<close> in the order of the map; a failing encoding ends it early.\<close>

fun batch_accounts :: "int \<Rightarrow> (string \<times> AccountState) list \<Rightarrow> AccountManager \<Rightarrow> batch_op list \<Rightarrow>
    AccountManager \<times> batch_op list \<times> (account_error + unit)" where
  "batch_accounts now [] am batch = (am, batch, Inr ())"
| "batch_accounts now ((addr, st) # us) am batch =
    (case enc_account st of
       None \<Rightarrow> (am, batch, Inl AccMarshal)
     | Some data \<Rightarrow>
         batch_accounts now us
           (am\<lparr>am_accounts := gomap_put addr st (am_accounts am),
               am_cache := (am_cache am)\<lparr>ac_balances := gomap_put addr (as_Balance st) (ac_balances (am_cache am)),
                                         ac_lastUpdated := gomap_put addr now (ac_lastUpdated (am_cache am))\<rparr>\<rparr>)
           (fst (batch_Put (''acc:'' @ addr) data batch)))"

definition BatchUpdateAccounts ::
  "'d goleveldb \<Rightarrow> int \<Rightarrow> (string, AccountState) gomap \<Rightarrow> 'd am_state \<Rightarrow> ('d am_state \<times> (account_error + unit)) go" where
  "BatchUpdateAccounts L now updates =
    with_lock am_mu_of set_am_mu (\<lambda>(db, am).
      case db of
        None \<Rightarrow> Panic
      | Some ldb \<Rightarrow> (case batch_accounts now updates am [] of
          (am', batch, Inl e) \<Rightarrow> Ret ((db, am'), Inl e)
        | (am', batch, Inr _) \<Rightarrow> (case batch_Write L batch ldb of
             (ldb', Inl e) \<Rightarrow> Ret ((Some ldb', am'), Inl (AccDB e))
           | (ldb', Inr _) \<Rightarrow> Ret ((Some ldb', am'), Inr ()))))"

definition Cache_GetBalance :: "int \<Rightarrow> string \<Rightarrow> AccountCache \<Rightarrow> float64 \<times> bool" where
  "Cache_GetBalance now_ns address ac =
    (case gomap_get (ac_lastUpdated ac) address of
       None \<Rightarrow> (Fin 0, False)
     | Some lastUpdate \<Rightarrow>
         if now_ns - lastUpdate * second > ac_maxAge ac then (Fin 0, False)
         else case gomap_get (ac_balances ac) address of
             Some balance \<Rightarrow> (balance, True)
           | None \<Rightarrow> (Fin 0, False))"

text \<open>One tick of each of the two background loops.\<close>

fun save_inactive :: "'d goleveldb \<Rightarrow> int \<Rightarrow> (string \<times> AccountState) list \<Rightarrow> 'd levelDB option \<Rightarrow> 'd levelDB option go" where
  "save_inactive L now_ns [] db = Ret db"
| "save_inactive L now_ns ((_, st) # sts) db =
    (if now_ns - as_LastActivity st * second > 3600 * second then
       go_bind (saveAccountState L st db) (\<lambda>(db', _). save_inactive L now_ns sts db')
     else save_inactive L now_ns sts db)"

definition periodicStateUpdate_tick :: "'d goleveldb \<Rightarrow> int \<Rightarrow> 'd am_state \<Rightarrow> ('d am_state \<times> unit) go" where
  "periodicStateUpdate_tick L now_ns =
    with_rlock am_mu_of set_am_mu (\<lambda>(db, am).
      go_bind (save_inactive L now_ns (am_accounts am) db) (\<lambda>db'. Ret ((db', am), ())))"

definition periodicCacheCleanup_tick :: "int \<Rightarrow> AccountCache \<Rightarrow> AccountCache" where
  "periodicCacheCleanup_tick now ac =
    fold (\<lambda>(addr, lastUpdate) ac.
        if now - lastUpdate > ac_maxAge ac div second then
          ac\<lparr>ac_balances := gomap_del addr (ac_balances ac), ac_lastUpdated := gomap_del addr (ac_lastUpdated ac)\<rparr>
        else ac)
      (ac_lastUpdated ac) ac"

section \<open>Accounts survive a restart\<close>

interpretation am_lock: mutexed am_mu_of set_am_mu
  by unfold_locales auto

definition account_ok :: "string \<Rightarrow> AccountState \<Rightarrow> bool" where
  "account_ok a st = (as_Address st = a \<and> gomap_wf (as_UTXOs st) \<and> gomap_wf (as_PendingTxs st) \<and>
     - (2 ^ 63) \<le> as_LastActivity st \<and> as_LastActivity st < 2 ^ 63)"

text \<open>Two states that differ in the order of their maps only.\<close>

definition same_account :: "AccountState \<Rightarrow> AccountState \<Rightarrow> bool" where
  "same_account s t \<longleftrightarrow> as_Address s = as_Address t \<and> as_Nonce s = as_Nonce t \<and> as_Balance s = as_Balance t \<and>
     as_LastActivity s = as_LastActivity t \<and> mset (as_UTXOs s) = mset (as_UTXOs t) \<and>
     mset (as_PendingTxs s) = mset (as_PendingTxs t)"

lemma enc_float_Some: "enc_float x = Some j \<Longrightarrow> j = JFloat x"
  by (simp add: enc_float_def split: if_splits)

lemma dec_enc_account:
  assumes "account_ok a st" "enc_account st = Some j"
  shows "\<exists>st'. dec_account j = Some st' \<and> same_account st' st"
proof -
  obtain u p where up: "enc_map (Some \<circ> JStr) (as_UTXOs st) = Some u" "enc_map (Some \<circ> JBool) (as_PendingTxs st) = Some p"
    and j: "j = JObj [(''address'', JStr (as_Address st)), (''nonce'', JInt (uint (as_Nonce st))),
       (''balance'', JFloat (as_Balance st)), (''last_activity'', JInt (as_LastActivity st)), (''utxos'', u), (''pending_txs'', p)]"
    using assms(2) by (auto simp: enc_account_def dest: enc_float_Some split: option.splits)
  have "\<exists>u'. dec_map dec_string u = Some u' \<and> mset u' = mset (as_UTXOs st)"
    by (rule dec_enc_map [OF _ up(1)]) (use assms(1) in \<open>auto simp: account_ok_def\<close>)
  moreover have "\<exists>p'. dec_map dec_bool p = Some p' \<and> mset p' = mset (as_PendingTxs st)"
    by (rule dec_enc_map [OF _ up(2)]) (use assms(1) in \<open>auto simp: account_ok_def\<close>)
  ultimately obtain u' p' where u': "dec_map dec_string u = Some u'" "mset u' = mset (as_UTXOs st)"
    and p': "dec_map dec_bool p = Some p'" "mset p' = mset (as_PendingTxs st)" by blast
  have "uint (as_Nonce st) < 2 ^ 64" using uint_lt2p [of "as_Nonce st"] by simp
  then show ?thesis
    using assms(1) u' p' by (simp add: j dec_account_def field_def same_account_def account_ok_def)
qed

lemma GetAccountState_cached:
  assumes "am_mu am = Unlocked" "map_of (am_accounts am) a = Some st"
  shows "GetAccountState L a (db, am) = Ret ((db, am), st)"
  using assms by (cases am) (simp add: GetAccountState_def with_rlock_def)

lemma GetAccountState_loaded:
  assumes "am_mu am = Unlocked" "map_of (am_accounts am) a = None" "loadAccountState L a db = Ret (Inr st)"
  shows "GetAccountState L a (db, am) = Ret ((db, am\<lparr>am_accounts := gomap_put a st (am_accounts am)\<rparr>), st)"
  using assms by (cases am) (simp add: GetAccountState_def with_rlock_def with_lock_def)

lemma load_after_save:
  assumes "leveldb_laws L" "account_ok a st" "saveAccountState L st (Some ldb) = Ret (db', Inr ())"
  shows "\<exists>st'. loadAccountState L a db' = Ret (Inr st') \<and> same_account st' st"
proof -
  obtain j ldb' where put: "enc_account st = Some j" "db' = Some ldb'" "db_Put L (''acc:'' @ a) j ldb = (ldb', Inr ())"
    using assms(2,3) by (auto simp: saveAccountState_def account_ok_def split: option.splits prod.splits sum.splits)
  then show ?thesis
    using dec_enc_account [OF assms(2) put(1)] db_Get_Put(1) [OF assms(1) put(3)]
    by (auto simp: loadAccountState_def)
qed

text \<open>
  C38. A nonce that was confirmed is remembered: after a successful \<open>UpdateNonce\<close> a manager that starts
  afresh on the same database loads the account with the new nonce, and accepts exactly the next
  number. Relies on the documented behaviour of LevelDB.
\<close>

theorem nonce_survives_restart:
  assumes "leveldb_laws L" "am_mu am = Unlocked" "map_of (am_accounts am) a = Some st" "account_ok a st"
    and "- (2 ^ 63) \<le> now" "now < 2 ^ 63"
    and "UpdateNonce L now a (Some ldb, am) = Ret ((db', am'), Inr n)"
  shows "n = as_Nonce st + 1 \<and>
    (\<exists>s'. ValidateNonce L a m (db', NewAccountManager) = Ret (s', m = n + 1))"
proof -
  let ?st = "st\<lparr>as_Nonce := as_Nonce st + 1, as_LastActivity := now\<rparr>"
  have ok: "account_ok a ?st" using assms(4-6) by (simp add: account_ok_def)
  have save: "saveAccountState L ?st (Some ldb) = Ret (db', Inr ())" and n: "n = as_Nonce st + 1"
    using assms(7) GetAccountState_cached [OF assms(2,3), of L "Some ldb"]
    by (auto simp: UpdateNonce_def Let_def go_simps split: sum.splits) (metis old.unit.exhaust sum.exhaust)+
  obtain st' where st': "loadAccountState L a db' = Ret (Inr st')" "same_account st' ?st"
    using load_after_save [OF assms(1) ok save] by blast
  show ?thesis
    using n st' GetAccountState_loaded [of NewAccountManager a L db' st']
    by (simp add: ValidateNonce_def NewAccountManager_def same_account_def)
qed

theorem nonce_survives_restart_witness:
  "\<exists>db' am' n. UpdateNonce memory_leveldb 1700000000 ''alice''
      (Some \<lparr>ldb_db = [], ldb_closed = False\<rparr>, NewAccountManager\<lparr>am_accounts := [(''alice'', fresh_account ''alice'')]\<rparr>)
      = Ret ((db', am'), Inr n) \<and> n = 1 \<and>
    (\<exists>s'. ValidateNonce memory_leveldb ''alice'' 2 (db', NewAccountManager) = Ret (s', True))"
proof -
  let ?am = "NewAccountManager\<lparr>am_accounts := [(''alice'', fresh_account ''alice'')]\<rparr>"
  let ?db = "Some \<lparr>ldb_db = [] :: (string, json) gomap, ldb_closed = False\<rparr>"
  have run: "\<exists>db' am'. UpdateNonce memory_leveldb 1700000000 ''alice'' (?db, ?am) = Ret ((db', am'), Inr 1)"
    by (simp add: UpdateNonce_def GetAccountState_cached NewAccountManager_def fresh_account_def saveAccountState_def
        enc_account_def enc_float_def enc_map_def db_Put_def memory_leveldb_def)
  then obtain db' am' where ran: "UpdateNonce memory_leveldb 1700000000 ''alice'' (?db, ?am) = Ret ((db', am'), Inr 1)"
    by blast
  show ?thesis
    using ran nonce_survives_restart [OF memory_leveldb_laws, of ?am "''alice''" "fresh_account ''alice''" 1700000000
        "\<lparr>ldb_db = [], ldb_closed = False\<rparr>" db' am' 1 2]
    by (auto simp: NewAccountManager_def fresh_account_def account_ok_def)
qed

end
