(* ===== verification/Utxo.thy ===== *)
theory Utxo
  imports Blocks Accounts
begin

text \<open>
  The pool of transaction outputs (\<open>src/blockchain/utxo.go\<close>), the state root over it
  (\<open>calculateStateRoot\<close> in block.go) and the selection of outputs for a payment (\<open>SelectUTXOs\<close> in
  transaction.go).

  The pool is a record with the map of outputs in the order in which \<open>range\<close> visits it, the lock, the
  pending changes for synchronisation, the database and, when the pool belongs to a node, the
  node's account manager, which shares the database. An account state that \<open>GetAccountState\<close> returns
  is a pointer into the manager: changing it changes the manager's map at once. The current time
  (Unix seconds) is an argument, one reading per operation.

  The theory \<open>Ledger\<close> shows how the operations change the outputs, and the theory \<open>Pool_Sync\<close> what
  roots, chunks, deltas, snapshots and queries promise.
\<close>

section \<open>Formatting\<close>

text \<open>
  \<open>%v\<close> of a \<open>float64\<close>: the fewest significant digits that read back as the number, with an exponent
  below -4 or from 21 on. Every finite number needs at most 17 digits, and a positive one is above
  \<open>10 powi - 324\<close>.
\<close>

fun small_exponent :: "nat \<Rightarrow> rat \<Rightarrow> int" where
  "small_exponent 0 x = 0"
| "small_exponent (Suc fuel) x = (if 1 \<le> x then 0 else small_exponent fuel (10 * x) - 1)"

definition exponent10 :: "rat \<Rightarrow> int" where
  "exponent10 x = (if 1 \<le> x then int (length (show_nat (nat \<lfloor>x\<rfloor>))) - 1 else small_exponent 330 x)"

definition digits_of :: "nat \<Rightarrow> rat \<Rightarrow> nat \<times> int" where
  "digits_of n x = (let e = exponent10 x - int n + 1 in (nat (round_even (x / 10 powi e)), e))"

definition shortest :: "rat \<Rightarrow> nat \<times> int" where
  "shortest x =
    (case find (\<lambda>n. let (d, e) = digits_of n x in round64 (of_nat d * 10 powi e) = Fin x) [1..<17] of
       Some n \<Rightarrow> digits_of n x
     | None \<Rightarrow> digits_of 17 x)"

definition show_v_pos :: "rat \<Rightarrow> string" where
  "show_v_pos x =
    (let (m, e) = shortest x;
         ds = rev (dropWhile (\<lambda>c. c = CHR ''0'') (rev (show_nat m)));
         ex = e + int (length (show_nat m)) - 1
     in if ex < -4 \<or> ex \<ge> 21 then
          [hd ds] @ (if tl ds = [] then [] else CHR ''.'' # tl ds) @ ''e'' @ (if ex < 0 then ''-'' else ''+'') @
            pad0 2 (show_nat (nat \<bar>ex\<bar>))
        else if ex < 0 then ''0.'' @ replicate (nat (- ex) - 1) (CHR ''0'') @ ds
        else if int (length ds) \<le> ex + 1 then ds @ replicate (nat (ex + 1) - length ds) (CHR ''0'')
        else take (nat (ex + 1)) ds @ ''.'' @ drop (nat (ex + 1)) ds)"

fun show_v_f64 :: "float64 \<Rightarrow> string" where
  "show_v_f64 (Fin x) = (if x = 0 then ''0'' else if x < 0 then CHR ''-'' # show_v_pos (- x) else show_v_pos x)"
| "show_v_f64 NegZero = ''-0''"
| "show_v_f64 PInf = ''+Inf''"
| "show_v_f64 NInf = ''-Inf''"
| "show_v_f64 NaN = ''NaN''"

section \<open>Outputs and pools\<close>

record UTXO =
  u_TransactionID :: string
  u_OutputIndex :: int
  u_Amount :: float64
  u_Owner :: string
  u_Spent :: bool
  u_BlockHeight :: u64
  u_Timestamp :: int
  u_ScriptPubKey :: string

type_synonym utxo_map = "(string, UTXO) gomap"

record StateSnapshot =
  ss_Height :: u64
  ss_UTXOStates :: utxo_map
  ss_BlockHash :: string
  ss_Timestamp :: int

record 'd UTXOPool =
  pl_utxos :: utxo_map
  pl_mu :: rwmutex
  pl_merkleRoot :: string
  pl_lastVerifiedState :: string
  pl_lastUpdateTime :: int
  pl_updates :: utxo_map
  pl_deletions :: "string list"
  pl_db :: "'d levelDB option"
  pl_snapshots :: "StateSnapshot list"
  pl_accounts :: "AccountManager option"

abbreviation set_pl_mu :: "rwmutex \<Rightarrow> 'd UTXOPool \<Rightarrow> 'd UTXOPool" where
  "set_pl_mu m p \<equiv> p\<lparr>pl_mu := m\<rparr>"

interpretation pool_mu: mutexed pl_mu set_pl_mu
  by unfold_locales auto

definition NewUTXOPool :: "'d levelDB option \<Rightarrow> 'd UTXOPool" where
  "NewUTXOPool database = \<lparr>pl_utxos = [], pl_mu = Unlocked, pl_merkleRoot = [], pl_lastVerifiedState = [],
     pl_lastUpdateTime = 0, pl_updates = [], pl_deletions = [], pl_db = database, pl_snapshots = [],
     pl_accounts = None\<rparr>"

text \<open>The key \<open>%s-%d\<close> of an output, and the data that its hash covers.\<close>

definition utxo_key :: "string \<Rightarrow> int \<Rightarrow> string" where
  "utxo_key txID index = txID @ ''-'' @ show_int index"

definition leaf_data :: "UTXO \<Rightarrow> string" where
  "leaf_data u = u_TransactionID u @ ''-'' @ show_int (u_OutputIndex u) @ ''-'' @ u_Owner u @ ''-'' @ show_f64 8 (u_Amount u)"

definition UTXO_Hash :: "UTXO \<Rightarrow> string" where
  "UTXO_Hash u = hash_hex (leaf_data u)"

definition leaf_hashes :: "utxo_map \<Rightarrow> string list" where
  "leaf_hashes m = map (\<lambda>key. hash_hex (leaf_data (the (gomap_get m key)))) (sort (map fst m))"

definition CalculateMerkleRoot :: "utxo_map \<Rightarrow> string" where
  "CalculateMerkleRoot m = (if length m = 0 then [] else hd (merkle_loop hash_hex (leaf_hashes m)))"

definition calculateStateRoot :: "utxo_map \<Rightarrow> string go" where
  "calculateStateRoot m = (if length m = 0 then Ret zero_hash else calculateMerkleRoot (leaf_hashes m))"

definition GetMerkleRoot :: "'d UTXOPool \<Rightarrow> ('d UTXOPool \<times> string) go" where
  "GetMerkleRoot = with_lock pl_mu set_pl_mu (\<lambda>p. Ret (p, pl_merkleRoot p))"

section \<open>Persistence\<close>

definition enc_utxo :: "UTXO \<Rightarrow> json option" where
  "enc_utxo u = (case enc_float (u_Amount u) of
      None \<Rightarrow> None
    | Some a \<Rightarrow> Some (JObj [(''txid'', JStr (u_TransactionID u)), (''vout'', JInt (u_OutputIndex u)), (''amount'', a),
        (''owner'', JStr (u_Owner u)), (''spent'', JBool (u_Spent u)), (''block_height'', JInt (uint (u_BlockHeight u))),
        (''timestamp'', JInt (u_Timestamp u)), (''script_pub_key'', JStr (u_ScriptPubKey u))]))"

definition dec_utxo :: "json \<Rightarrow> UTXO option" where
  "dec_utxo j =
    (case (dec_string (field ''txid'' j), dec_int (field ''vout'' j), dec_float (field ''amount'' j),
           dec_string (field ''owner'' j), dec_bool (field ''spent'' j), dec_u64 (field ''block_height'' j),
           dec_int (field ''timestamp'' j), dec_string (field ''script_pub_key'' j)) of
       (Some a, Some b, Some c, Some d, Some e, Some f, Some g, Some h) \<Rightarrow>
         Some \<lparr>u_TransactionID = a, u_OutputIndex = b, u_Amount = c, u_Owner = d, u_Spent = e, u_BlockHeight = f,
           u_Timestamp = g, u_ScriptPubKey = h\<rparr>
     | _ \<Rightarrow> None)"

datatype pool_error = PoolMarshal | PoolUnmarshal | PoolDB db_error | NoDatabase | InvalidChunkProof
  | InvalidUTXO | RootMismatch | NoSnapshot | NilBlock | NilPool | NoUTXOs | InsufficientUTXOs

definition saveState :: "'d goleveldb \<Rightarrow> 'd UTXOPool \<Rightarrow> ('d UTXOPool \<times> (pool_error + unit)) go" where
  "saveState L p =
    (case enc_map enc_utxo (pl_utxos p) of
       None \<Rightarrow> Ret (p, Inl PoolMarshal)
     | Some data \<Rightarrow> (case pl_db p of
          None \<Rightarrow> Panic
        | Some ldb \<Rightarrow> (case db_Put L ''utxo_state'' data ldb of
             (ldb', Inl e) \<Rightarrow> Ret (p\<lparr>pl_db := Some ldb'\<rparr>, Inl (PoolDB e))
           | (ldb', Inr _) \<Rightarrow> Ret (p\<lparr>pl_db := Some ldb'\<rparr>, Inr ()))))"

section \<open>Adding the outputs of a transaction\<close>

abbreviation is_system :: "Transaction \<Rightarrow> bool" where
  "is_system tx \<equiv> tx_TxType tx = TX_COINBASE \<or> tx_TxType tx = TX_VALIDATOR_REWARD"

definition input_key :: "TransactionInput \<Rightarrow> string" where
  "input_key i = utxo_key (in_TransactionID i) (in_OutputIndex i)"

text \<open>Mark the output that an input refers to as spent and record the change.\<close>

definition spend_input :: "TransactionInput \<Rightarrow> 'd UTXOPool \<Rightarrow> 'd UTXOPool" where
  "spend_input input p =
    (let key = input_key input in
     case gomap_get (pl_utxos p) key of
       None \<Rightarrow> p
     | Some u \<Rightarrow> p\<lparr>pl_utxos := gomap_put key (u\<lparr>u_Spent := True\<rparr>) (pl_utxos p),
                     pl_updates := gomap_put key (u\<lparr>u_Spent := True\<rparr>) (pl_updates p)\<rparr>)"

definition output_utxo :: "Transaction \<Rightarrow> u64 \<Rightarrow> nat \<Rightarrow> TransactionOutput \<Rightarrow> UTXO" where
  "output_utxo tx blockHeight i out =
    \<lparr>u_TransactionID = tx_TransactionID tx, u_OutputIndex = int i, u_Amount = out_Amount out,
     u_Owner = out_Receiver out, u_Spent = False, u_BlockHeight = blockHeight, u_Timestamp = tx_Timestamp tx,
     u_ScriptPubKey = out_ScriptPubKey out\<rparr>"

text \<open>Create the output at index \<open>i\<close> and note its key under its owner.\<close>

definition create_output :: "Transaction \<Rightarrow> u64 \<Rightarrow> nat \<times> TransactionOutput \<Rightarrow>
    'd UTXOPool \<times> (string, string list) gomap \<Rightarrow> 'd UTXOPool \<times> (string, string list) gomap" where
  "create_output tx blockHeight = (\<lambda>(i, out) (p, owners).
    let key = utxo_key (tx_TransactionID tx) (int i);
        u = output_utxo tx blockHeight i out;
        owner = out_Receiver out
    in (p\<lparr>pl_utxos := gomap_put key u (pl_utxos p), pl_updates := gomap_put key u (pl_updates p)\<rparr>,
        gomap_put owner (gomap_get_or [] owners owner @ [key]) owners))"

text \<open>Read an account through the pool's manager, and write to the state it points to.\<close>

definition pool_account :: "'d goleveldb \<Rightarrow> AccountManager \<Rightarrow> string \<Rightarrow> 'd UTXOPool \<Rightarrow> ('d UTXOPool \<times> AccountManager \<times> AccountState) go" where
  "pool_account L am address p =
    go_bind (GetAccountState L address (pl_db p, am)) (\<lambda>((db, am'), st).
      Ret (p\<lparr>pl_db := db, pl_accounts := Some am'\<rparr>, am', st))"

definition write_account :: "AccountManager \<Rightarrow> string \<Rightarrow> AccountState \<Rightarrow> 'd UTXOPool \<Rightarrow> 'd UTXOPool" where
  "write_account am address st p = p\<lparr>pl_accounts := Some (am\<lparr>am_accounts := gomap_put address st (am_accounts am)\<rparr>)\<rparr>"

text \<open>Credit every owner with the outputs created for them.\<close>

definition received :: "utxo_map \<Rightarrow> string list \<Rightarrow> float64 \<times> (string, string) gomap \<Rightarrow> float64 \<times> (string, string) gomap" where
  "received m = fold (\<lambda>key (total, owned). case gomap_get m key of
      None \<Rightarrow> (total, owned)
    | Some u \<Rightarrow> (fadd total (u_Amount u), gomap_put key (u_TransactionID u) owned))"

fun credit_owners :: "'d goleveldb \<Rightarrow> int \<Rightarrow> (string \<times> string list) list \<Rightarrow> AccountManager \<Rightarrow>
    'd UTXOPool \<times> (string, AccountState) gomap \<Rightarrow> ('d UTXOPool \<times> (string, AccountState) gomap) go" where
  "credit_owners L now [] am (p, states) = Ret (p, states)"
| "credit_owners L now ((owner, keys) # owners) am (p, states) =
    go_bind (pool_account L am owner p) (\<lambda>(p, am, st).
      let (totalReceived, owned) = received (pl_utxos p) keys (Fin 0, as_UTXOs st);
          st' = st\<lparr>as_UTXOs := owned, as_Balance := fadd (as_Balance st) totalReceived, as_LastActivity := now\<rparr>;
          am' = am\<lparr>am_accounts := gomap_put owner st' (am_accounts am)\<rparr>
      in credit_owners L now owners am' (p\<lparr>pl_accounts := Some am'\<rparr>, gomap_put owner st' states))"

definition drop_inputs :: "TransactionInput list \<Rightarrow> (string, string) gomap \<Rightarrow> (string, string) gomap" where
  "drop_inputs inputs owned = fold (\<lambda>i. gomap_del (input_key i)) inputs owned"

text \<open>The account part of \<open>AddUTXO\<close>: receivers, then the sender, then one batch.\<close>

definition update_accounts :: "'d goleveldb \<Rightarrow> int \<Rightarrow> Transaction \<Rightarrow> (string, string list) gomap \<Rightarrow> AccountManager \<Rightarrow>
    'd UTXOPool \<Rightarrow> 'd UTXOPool go" where
  "update_accounts L now tx owners am p =
    go_bind (credit_owners L now owners am (p, [])) (\<lambda>(p, states).
    go_bind
      (if \<not> is_system tx \<and> tx_Sender tx \<noteq> [] then
         go_bind (pool_account L (the (pl_accounts p)) (tx_Sender tx) p) (\<lambda>(p, am, st).
           let st' = st\<lparr>as_UTXOs := drop_inputs (tx_Inputs tx) (as_UTXOs st),
                        as_Balance := fsub (as_Balance st) (fadd (tx_Amount tx) (tx_GasFee tx)),
                        as_LastActivity := now\<rparr>
           in Ret (write_account am (tx_Sender tx) st' p, gomap_put (tx_Sender tx) st' states))
       else Ret (p, states)) (\<lambda>(p, states).
    go_bind (BatchUpdateAccounts L now states (pl_db p, the (pl_accounts p))) (\<lambda>((db, am), _).
      Ret (p\<lparr>pl_db := db, pl_accounts := Some am\<rparr>))))"

text \<open>Inputs and outputs of one transaction, as \<open>AddUTXO\<close> and \<open>ProcessBlockTransactions\<close> both perform them.\<close>

definition apply_inputs :: "Transaction \<Rightarrow> 'd UTXOPool \<Rightarrow> 'd UTXOPool" where
  "apply_inputs tx p = (if is_system tx then p else fold spend_input (tx_Inputs tx) p)"

definition apply_outputs :: "Transaction \<Rightarrow> u64 \<Rightarrow> 'd UTXOPool \<times> (string, string list) gomap \<Rightarrow> 'd UTXOPool \<times> (string, string list) gomap" where
  "apply_outputs tx blockHeight s = fold (create_output tx blockHeight) (enumerate 0 (tx_Outputs tx)) s"

definition AddUTXO :: "'d goleveldb \<Rightarrow> int \<Rightarrow> Transaction \<Rightarrow> u64 \<Rightarrow> 'd UTXOPool \<Rightarrow> ('d UTXOPool \<times> unit) go" where
  "AddUTXO L now tx blockHeight = with_lock pl_mu set_pl_mu (\<lambda>p.
    let (p, owners) = apply_outputs tx blockHeight (apply_inputs tx p, []);
        p = p\<lparr>pl_merkleRoot := CalculateMerkleRoot (pl_utxos p), pl_lastUpdateTime := now\<rparr>
    in go_bind (case pl_accounts p of None \<Rightarrow> Ret p | Some am \<Rightarrow> update_accounts L now tx owners am p) (\<lambda>p.
       go_bind (saveState L p) (\<lambda>(p, _). Ret (p, ()))))"

definition RemoveUTXO :: "'d goleveldb \<Rightarrow> int \<Rightarrow> string \<Rightarrow> int \<Rightarrow> 'd UTXOPool \<Rightarrow> ('d UTXOPool \<times> unit) go" where
  "RemoveUTXO L now txID outputIndex = with_lock pl_mu set_pl_mu (\<lambda>p.
    let key = utxo_key txID outputIndex;
        m = gomap_del key (pl_utxos p)
    in go_bind (saveState L (p\<lparr>pl_utxos := m, pl_deletions := pl_deletions p @ [key], pl_lastUpdateTime := now,
         pl_merkleRoot := CalculateMerkleRoot m\<rparr>)) (\<lambda>(p, _). Ret (p, ())))"

fun sum_inputs :: "utxo_map \<Rightarrow> string \<Rightarrow> TransactionInput list \<Rightarrow> float64 \<Rightarrow> float64 option" where
  "sum_inputs m sender [] totalInput = Some totalInput"
| "sum_inputs m sender (i # is) totalInput =
    (case gomap_get m (input_key i) of
       None \<Rightarrow> None
     | Some u \<Rightarrow> if u_Owner u \<noteq> sender then None else sum_inputs m sender is (fadd totalInput (u_Amount u)))"

definition pool_ValidateTransaction :: "Transaction \<Rightarrow> 'd UTXOPool \<Rightarrow> ('d UTXOPool \<times> bool) go" where
  "pool_ValidateTransaction tx = with_lock pl_mu set_pl_mu (\<lambda>p.
    Ret (p, case sum_inputs (pl_utxos p) (tx_Sender tx) (tx_Inputs tx) (Fin 0) of
              None \<Rightarrow> False
            | Some totalInput \<Rightarrow> fle (tx_Amount tx) totalInput))"

definition set_output :: "Transaction \<Rightarrow> nat \<times> TransactionOutput \<Rightarrow> utxo_map \<Rightarrow> utxo_map" where
  "set_output tx = (\<lambda>(i, out). gomap_put (utxo_key (tx_TransactionID tx) (int i))
     \<lparr>u_TransactionID = tx_TransactionID tx, u_OutputIndex = int i, u_Amount = out_Amount out,
      u_Owner = out_Receiver out, u_Spent = False, u_BlockHeight = 0, u_Timestamp = 0,
      u_ScriptPubKey = out_ScriptPubKey out\<rparr>)"

definition UpdateUTXOSet :: "Transaction \<Rightarrow> utxo_map \<Rightarrow> utxo_map" where
  "UpdateUTXOSet tx utxoSet =
    (let m = (if is_system tx then utxoSet else fold (\<lambda>i. gomap_del (input_key i)) (tx_Inputs tx) utxoSet)
     in fold (set_output tx) (enumerate 0 (tx_Outputs tx)) m)"


section \<open>Processing a block\<close>

text \<open>
  The senders' part for one transaction. The balance is reduced on the state that the manager holds;
  \<open>updates\<close> is the batch.
\<close>

definition debit_sender :: "'d goleveldb \<Rightarrow> int \<Rightarrow> Transaction \<Rightarrow> 'd UTXOPool \<times> (string, AccountState) gomap \<Rightarrow>
    ('d UTXOPool \<times> (string, AccountState) gomap) go" where
  "debit_sender L now tx = (\<lambda>(p, updates).
    case pl_accounts p of
      None \<Rightarrow> Ret (p, updates)
    | Some am \<Rightarrow>
        if is_system tx \<or> tx_Sender tx = [] then Ret (p, updates)
        else go_bind (pool_account L am (tx_Sender tx) p) (\<lambda>(p, am, st).
          let st' = st\<lparr>as_Balance := fsub (as_Balance st) (fadd (tx_Amount tx) (tx_GasFee tx)),
                       as_LastActivity := now, as_UTXOs := drop_inputs (tx_Inputs tx) (as_UTXOs st)\<rparr>
          in Ret (write_account am (tx_Sender tx) st' p, gomap_put (tx_Sender tx) st' updates)))"

fun process_txs :: "'d goleveldb \<Rightarrow> int \<Rightarrow> u64 \<Rightarrow> Transaction list \<Rightarrow>
    'd UTXOPool \<times> (string, AccountState) gomap \<times> (string, string list) gomap \<Rightarrow>
    ('d UTXOPool \<times> (string, AccountState) gomap \<times> (string, string list) gomap) go" where
  "process_txs L now height [] s = Ret s"
| "process_txs L now height (tx # txs) (p, updates, owners) =
    go_bind (debit_sender L now tx (apply_inputs tx p, updates)) (\<lambda>(p, updates).
      let (p, owners) = apply_outputs tx height (p, owners)
      in process_txs L now height txs (p, updates, owners))"

text \<open>
  The receivers' part. An account whose balance is zero is replaced by a new state, which is not the
  manager's until the batch is written; any other account is changed in place.
\<close>

definition fresh_receiver :: "int \<Rightarrow> string \<Rightarrow> AccountState" where
  "fresh_receiver now owner = (fresh_account owner)\<lparr>as_LastActivity := now\<rparr>"

definition zero_utxo :: UTXO where
  "zero_utxo = \<lparr>u_TransactionID = [], u_OutputIndex = 0, u_Amount = Fin 0, u_Owner = [], u_Spent = False,
     u_BlockHeight = 0, u_Timestamp = 0, u_ScriptPubKey = []\<rparr>"

definition own_output :: "utxo_map \<Rightarrow> string \<Rightarrow> AccountState \<Rightarrow> AccountState" where
  "own_output m key st =
    (let u = gomap_get_or zero_utxo m key
     in st\<lparr>as_UTXOs := gomap_put key (u_TransactionID u) (as_UTXOs st), as_Balance := fadd (as_Balance st) (u_Amount u)\<rparr>)"

fun process_owners :: "'d goleveldb \<Rightarrow> int \<Rightarrow> (string \<times> string list) list \<Rightarrow> AccountManager \<Rightarrow>
    'd UTXOPool \<times> (string, AccountState) gomap \<Rightarrow> ('d UTXOPool \<times> (string, AccountState) gomap) go" where
  "process_owners L now [] am s = Ret s"
| "process_owners L now ((owner, keys) # owners) am (p, updates) =
    go_bind (pool_account L am owner p) (\<lambda>(p, am, st).
      let isNew = feq (as_Balance st) (Fin 0);
          st0 = (if isNew then fresh_receiver now owner else st);
          st' = (fold (own_output (pl_utxos p)) keys st0)\<lparr>as_LastActivity := now\<rparr>;
          am' = (if isNew then am else am\<lparr>am_accounts := gomap_put owner st' (am_accounts am)\<rparr>)
      in process_owners L now owners am' (p\<lparr>pl_accounts := Some am'\<rparr>, gomap_put owner st' updates))"

section \<open>Snapshots\<close>

record UtxoSnapshot =
  sn_BlockHeight :: u64
  sn_BlockHash :: string
  sn_UTXOs :: utxo_map
  sn_MerkleRoot :: string
  sn_Timestamp :: int

definition enc_snapshot :: "UtxoSnapshot \<Rightarrow> json option" where
  "enc_snapshot s = map_option (\<lambda>us. JObj [(''block_height'', JInt (uint (sn_BlockHeight s))),
     (''block_hash'', JStr (sn_BlockHash s)), (''utxos'', us), (''merkle_root'', JStr (sn_MerkleRoot s)),
     (''timestamp'', JInt (sn_Timestamp s))]) (enc_map enc_utxo (sn_UTXOs s))"

definition dec_snapshot :: "json \<Rightarrow> UtxoSnapshot option" where
  "dec_snapshot j =
    (case (dec_u64 (field ''block_height'' j), dec_string (field ''block_hash'' j), dec_map dec_utxo (field ''utxos'' j),
           dec_string (field ''merkle_root'' j), dec_int (field ''timestamp'' j)) of
       (Some a, Some b, Some c, Some d, Some e) \<Rightarrow>
         Some \<lparr>sn_BlockHeight = a, sn_BlockHash = b, sn_UTXOs = c, sn_MerkleRoot = d, sn_Timestamp = e\<rparr>
     | _ \<Rightarrow> None)"

definition snapshot_key :: "u64 \<Rightarrow> string" where
  "snapshot_key height = ''utxo_snapshot_'' @ show_u64 height"

definition saveSnapshot :: "'d goleveldb \<Rightarrow> UtxoSnapshot \<Rightarrow> 'd UTXOPool \<Rightarrow> 'd UTXOPool \<times> (pool_error + unit)" where
  "saveSnapshot L snapshot p =
    (case pl_db p of
       None \<Rightarrow> (p, Inl NoDatabase)
     | Some ldb \<Rightarrow> (case enc_snapshot snapshot of
          None \<Rightarrow> (p, Inl PoolMarshal)
        | Some data \<Rightarrow> (case db_Put L (snapshot_key (sn_BlockHeight snapshot)) data ldb of
             (ldb', Inl e) \<Rightarrow> (p\<lparr>pl_db := Some ldb'\<rparr>, Inl (PoolDB e))
           | (ldb', Inr _) \<Rightarrow> (p\<lparr>pl_db := Some ldb'\<rparr>, Inr ()))))"

text \<open>\<open>CreateSnapshot\<close> takes no lock.\<close>

definition CreateSnapshot :: "'d goleveldb \<Rightarrow> int \<Rightarrow> u64 \<Rightarrow> string \<Rightarrow> 'd UTXOPool \<Rightarrow> 'd UTXOPool \<times> (pool_error + unit)" where
  "CreateSnapshot L now blockHeight blockHash p =
    saveSnapshot L \<lparr>sn_BlockHeight = blockHeight, sn_BlockHash = blockHash,
      sn_UTXOs = filter (\<lambda>(k, u). \<not> u_Spent u) (pl_utxos p), sn_MerkleRoot = pl_merkleRoot p, sn_Timestamp = now\<rparr> p"

definition LoadSnapshotAtHeight :: "'d goleveldb \<Rightarrow> u64 \<Rightarrow> 'd UTXOPool \<Rightarrow> ('d UTXOPool \<times> (pool_error + unit)) go" where
  "LoadSnapshotAtHeight L blockHeight p =
    (case pl_db p of
       None \<Rightarrow> Ret (p, Inl NoDatabase)
     | Some ldb \<Rightarrow> (case db_Get L (snapshot_key blockHeight) ldb of
          Inl e \<Rightarrow> Ret (p, Inl (PoolDB e))
        | Inr data \<Rightarrow> (case dec_snapshot data of
             None \<Rightarrow> Ret (p, Inl PoolUnmarshal)
           | Some snapshot \<Rightarrow>
               with_lock pl_mu set_pl_mu (\<lambda>p. Ret (p\<lparr>pl_utxos := sn_UTXOs snapshot, pl_merkleRoot := sn_MerkleRoot snapshot,
                 pl_lastUpdateTime := sn_Timestamp snapshot\<rparr>, Inr ())) p)))"

definition credit_block :: "'d goleveldb \<Rightarrow> int \<Rightarrow> (string, string list) gomap \<Rightarrow> 'd UTXOPool \<times> (string, AccountState) gomap \<Rightarrow>
    ('d UTXOPool \<times> (string, AccountState) gomap) go" where
  "credit_block L now owners = (\<lambda>(p, updates). case pl_accounts p of
      None \<Rightarrow> Ret (p, updates)
    | Some am \<Rightarrow> process_owners L now owners am (p, updates))"

definition write_updates :: "'d goleveldb \<Rightarrow> int \<Rightarrow> 'd UTXOPool \<times> (string, AccountState) gomap \<Rightarrow> 'd UTXOPool go" where
  "write_updates L now = (\<lambda>(p, updates). case pl_accounts p of
      None \<Rightarrow> Ret p
    | Some am \<Rightarrow>
        if length updates > 0 then
          go_bind (BatchUpdateAccounts L now updates (pl_db p, am)) (\<lambda>((db, am), _).
            Ret (p\<lparr>pl_db := db, pl_accounts := Some am\<rparr>))
        else Ret p)"

definition snapshot_if_due :: "'d goleveldb \<Rightarrow> int \<Rightarrow> Block \<Rightarrow> 'd UTXOPool \<Rightarrow> ('d UTXOPool \<times> Block) go" where
  "snapshot_if_due L now block p =
    (let height = h_BlockNumber (b_Header block)
     in if height mod 100 = 0 \<or> height = 0 then
          go_bind (Hash block) (\<lambda>(block, h). Ret (fst (CreateSnapshot L now height h p), block))
        else Ret (p, block))"

definition process_block :: "'d goleveldb \<Rightarrow> int \<Rightarrow> Block \<Rightarrow> 'd UTXOPool \<Rightarrow> ('d UTXOPool \<times> Block option \<times> (pool_error + unit)) go" where
  "process_block L now block p =
    go_bind (process_txs L now (h_BlockNumber (b_Header block)) (GetAllTransactions (b_Transactions block)) (p, [], []))
      (\<lambda>(p, updates, owners).
    go_bind (credit_block L now owners (p, updates)) (\<lambda>(p, updates).
    go_bind (write_updates L now (p, updates)) (\<lambda>p.
    go_bind (snapshot_if_due L now block
        (p\<lparr>pl_merkleRoot := CalculateMerkleRoot (pl_utxos p), pl_lastUpdateTime := now\<rparr>)) (\<lambda>(p, block).
    go_bind (saveState L p) (\<lambda>(p, r). Ret (p, Some block, r))))))"

definition ProcessBlockTransactions :: "'d goleveldb \<Rightarrow> int \<Rightarrow> Block option \<Rightarrow> 'd UTXOPool \<Rightarrow>
    ('d UTXOPool \<times> Block option \<times> (pool_error + unit)) go" where
  "ProcessBlockTransactions L now block p =
    (case block of
       None \<Rightarrow> Ret (p, None, Inl NilBlock)
     | Some b \<Rightarrow> with_lock pl_mu set_pl_mu (process_block L now b) p)"

section \<open>State roots and chunks\<close>

definition GetStateRoot :: "int \<Rightarrow> 'd UTXOPool \<Rightarrow> ('d UTXOPool \<times> string) go" where
  "GetStateRoot now = with_lock pl_mu set_pl_mu (\<lambda>p.
    Ret (p, if length (pl_utxos p) = 0 then []
            else hash_hex (pl_merkleRoot p @ show_nat (length (pl_utxos p)) @ ''-'' @ show_int now)))"

record StateChunk =
  ch_ChunkID :: int
  ch_UTXOs :: utxo_map
  ch_MerkleProof :: "string list"
  ch_Total :: int

text \<open>
  One level of \<open>generateMerkleProofForChunk\<close>: the parents, and the right sibling of every pair of which
  one position is the position of a key of the chunk. At every level the position is looked up among
  the keys of the leaves.
\<close>

fun chunk_pairs :: "string list \<Rightarrow> string list \<Rightarrow> nat \<Rightarrow> string list \<Rightarrow> string list \<times> string list" where
  "chunk_pairs chunkKeys allKeys i (x # y # xs) =
    (let (nxt, pf) = chunk_pairs chunkKeys allKeys (i + 2) xs;
         isRelevant = (\<exists>j\<in>{i, i + 1}. j < length allKeys \<and> allKeys ! j \<in> set chunkKeys)
     in (hash_hex (x @ y) # nxt, if isRelevant then y # pf else pf))"
| "chunk_pairs chunkKeys allKeys i [x] =
    ([hash_hex (x @ x)], if i < length allKeys \<and> allKeys ! i \<in> set chunkKeys then [x] else [])"
| "chunk_pairs chunkKeys allKeys i [] = ([], [])"

lemma fst_chunk_pairs: "fst (chunk_pairs chunkKeys allKeys i xs) = pair_hashes hash_hex xs"
  by (induction chunkKeys allKeys i xs rule: chunk_pairs.induct) (simp_all add: case_prod_unfold Let_def)

function chunk_levels :: "string list \<Rightarrow> string list \<Rightarrow> string list \<Rightarrow> string list" where
  "chunk_levels chunkKeys allKeys level =
    (if length level > 1 then
       let (nxt, pf) = chunk_pairs chunkKeys allKeys 0 level in pf @ chunk_levels chunkKeys allKeys nxt
     else [])"
  by auto
termination
proof (relation "measure (\<lambda>(_, _, level). length level)", goal_cases)
  case (2 chunkKeys allKeys level p nxt pf)
  then have "nxt = pair_hashes hash_hex level" by (metis fst_chunk_pairs fst_conv)
  with 2 show ?case by simp
qed simp

declare chunk_levels.simps [simp del]

definition generateMerkleProofForChunk :: "string list \<Rightarrow> string list \<Rightarrow> utxo_map \<Rightarrow> string list" where
  "generateMerkleProofForChunk chunkKeys allKeys m =
    chunk_levels chunkKeys allKeys (map (\<lambda>key. hash_hex (leaf_data (gomap_get_or zero_utxo m key))) allKeys)"

function chunk_loop :: "nat \<Rightarrow> int \<Rightarrow> nat \<Rightarrow> string list \<Rightarrow> string list \<Rightarrow> utxo_map \<Rightarrow> StateChunk list" where
  "chunk_loop chunkSize totalChunks i keys allKeys m =
    (if keys = [] \<or> chunkSize = 0 then []
     else let chunkKeys = take chunkSize keys
          in \<lparr>ch_ChunkID = int i, ch_UTXOs = map (\<lambda>k. (k, gomap_get_or zero_utxo m k)) chunkKeys,
              ch_MerkleProof = generateMerkleProofForChunk chunkKeys allKeys m, ch_Total = totalChunks\<rparr>
             # chunk_loop chunkSize totalChunks (i + 1) (drop chunkSize keys) allKeys m)"
  by auto
termination by (relation "measure (\<lambda>(_, _, _, keys, _). length keys)") auto

declare chunk_loop.simps [simp del]

text \<open>A chunk size of zero divides by zero, and a negative one slices out of range unless the pool is empty.\<close>

definition GetStateChunks :: "int \<Rightarrow> 'd UTXOPool \<Rightarrow> ('d UTXOPool \<times> StateChunk list) go" where
  "GetStateChunks chunkSize = with_lock pl_mu set_pl_mu (\<lambda>p.
    let keys = sort (map fst (pl_utxos p)) in
    if chunkSize = 0 then Panic
    else if chunkSize < 0 then if keys = [] then Ret (p, []) else Panic
    else Ret (p, chunk_loop (nat chunkSize) ((int (length keys) + chunkSize - 1) div chunkSize) 0 keys keys (pl_utxos p)))"

text \<open>\<open>%v\<close> of an output.\<close>

definition show_utxo :: "UTXO \<Rightarrow> string" where
  "show_utxo u = ''{'' @ u_TransactionID u @ '' '' @ show_int (u_OutputIndex u) @ '' '' @ show_v_f64 (u_Amount u) @ '' '' @
     u_Owner u @ '' '' @ (if u_Spent u then ''true'' else ''false'') @ '' '' @ show_u64 (u_BlockHeight u) @ '' '' @
     show_int (u_Timestamp u) @ '' '' @ u_ScriptPubKey u @ ''}''"

text \<open>One level of \<open>VerifyStateChunk\<close>: the parents and the rest of the proof.\<close>

fun verify_pairs :: "string list \<Rightarrow> string list \<Rightarrow> string list \<times> string list" where
  "verify_pairs (x # y # xs) pf = (let (nxt, pf') = verify_pairs xs pf in (hashPair x y # nxt, pf'))"
| "verify_pairs [x] pf = (case pf of [] \<Rightarrow> ([hashPair x x], []) | s # pf' \<Rightarrow> ([hashPair x s], pf'))"
| "verify_pairs [] pf = ([], pf)"

lemma length_verify_pairs:
  "length (fst (verify_pairs xs pf)) = (length xs + 1) div 2" "length (snd (verify_pairs xs pf)) \<le> length pf"
  by (induction xs pf rule: verify_pairs.induct) (auto simp: case_prod_unfold Let_def split: list.splits)

function verify_levels :: "string list \<Rightarrow> string list \<Rightarrow> string list" where
  "verify_levels level pf =
    (if length level > 1 then
       let (nxt, pf') = verify_pairs level pf
       in if length nxt > 1 then
            (case pf' of [] \<Rightarrow> verify_levels nxt [] | s # pf'' \<Rightarrow> verify_levels (nxt @ [s]) pf'')
          else verify_levels nxt pf'
     else level)"
  by auto
termination
proof (relation "measures [\<lambda>(level, pf). length level + length pf, \<lambda>(level, pf). length level]", goal_cases)
  case (2 level pf p nxt pf')
  then show ?case using length_verify_pairs [of level pf] by (auto simp: case_prod_unfold)
next
  case (3 level pf p nxt pf' s pf'')
  then show ?case using length_verify_pairs [of level pf] by (cases "verify_pairs level pf") auto
next
  case (4 level pf p nxt pf')
  then show ?case using length_verify_pairs [of level pf] by (cases "verify_pairs level pf") auto
qed simp

declare verify_levels.simps [simp del]

definition VerifyStateChunk :: "StateChunk \<Rightarrow> 'd UTXOPool \<Rightarrow> (pool_error + unit) go" where
  "VerifyStateChunk chunk p =
    (let nodes = map (\<lambda>(key, u). hash_hex (key @ '':'' @ show_utxo u)) (ch_UTXOs chunk)
     in case verify_levels nodes (ch_MerkleProof chunk) of
          [] \<Rightarrow> Panic
        | topNode # _ \<Rightarrow> Ret (if topNode \<noteq> pl_merkleRoot p then Inl InvalidChunkProof else Inr ()))"

definition ApplyStateChunk :: "StateChunk \<Rightarrow> 'd UTXOPool \<Rightarrow> ('d UTXOPool \<times> (pool_error + unit)) go" where
  "ApplyStateChunk chunk = with_lock pl_mu set_pl_mu (\<lambda>p.
    let m = fold (\<lambda>(key, u). gomap_put key u) (ch_UTXOs chunk) (pl_utxos p)
    in Ret (p\<lparr>pl_utxos := m, pl_merkleRoot := CalculateMerkleRoot m\<rparr>, Inr ()))"


text \<open>
  \<open>generateMerkleProof\<close>: \<open>needProof\<close> holds positions. One level visits the pairs from left to right; a
  parent that needs a proof is added to the same set, so a position that was added for a parent
  counts for a node further right on the same level.
\<close>

fun proof_level :: "nat \<Rightarrow> string list \<Rightarrow> nat set \<Rightarrow> string list \<times> string list \<times> nat set" where
  "proof_level i (x # y # xs) need =
    (let pf = (if i \<in> need then [y] else []) @ (if i + 1 \<in> need then [x] else []);
         need' = (if i \<in> need \<or> i + 1 \<in> need then insert (i div 2) need else need);
         (nxt, pf', need'') = proof_level (i + 2) xs need'
     in (hash_hex (x @ y) # nxt, pf @ pf', need''))"
| "proof_level i [x] need = ([hash_hex (x @ x)], [], if i \<in> need then insert (i div 2) need else need)"
| "proof_level i [] need = ([], [], need)"

lemma fst_proof_level: "fst (proof_level i xs need) = pair_hashes hash_hex xs"
  by (induction i xs need rule: proof_level.induct) (simp_all add: case_prod_unfold Let_def)

function proof_levels :: "string list \<Rightarrow> nat set \<Rightarrow> string list" where
  "proof_levels nodes need =
    (if length nodes > 1 then
       let (nxt, pf, need') = proof_level 0 nodes need in pf @ proof_levels nxt need'
     else [])"
  by auto
termination
proof (relation "measure (\<lambda>(nodes, _). length nodes)", goal_cases)
  case (2 nodes need p nxt q pf need')
  then have "nxt = pair_hashes hash_hex nodes" by (metis fst_proof_level fst_conv)
  with 2 show ?case by simp
qed simp

declare proof_levels.simps [simp del]

definition generateMerkleProof :: "string list \<Rightarrow> utxo_map \<Rightarrow> string list" where
  "generateMerkleProof chunkKeys m =
    (let allKeys = sort (map fst m);
         nodes = map (\<lambda>key. UTXO_Hash (gomap_get_or zero_utxo m key)) allKeys
     in proof_levels nodes (set (filter (\<lambda>i. allKeys ! i \<in> set chunkKeys) [0..<length allKeys])))"

text \<open>
  \<open>verifyMerkleProof\<close> pairs the nodes with each other, or the last one with itself, until the root
  appears; the loop need not end.
\<close>

partial_function (option) rebuild :: "string \<Rightarrow> string list \<Rightarrow> string list option" where
  "rebuild stateRoot nodes =
    (if length nodes > 1 \<or> (length nodes = 1 \<and> hd nodes \<noteq> stateRoot)
     then rebuild stateRoot (pair_hashes hash_hex nodes) else Some nodes)"

definition verifyMerkleProof :: "StateChunk \<Rightarrow> string \<Rightarrow> bool option" where
  "verifyMerkleProof chunk stateRoot =
    map_option (\<lambda>nodes. length nodes = 1 \<and> hd nodes = stateRoot)
      (rebuild stateRoot (map (\<lambda>(k, u). UTXO_Hash u) (ch_UTXOs chunk)))"

section \<open>Deltas\<close>

record DeltaUpdate =
  d_LastSyncTime :: int
  d_UTXOUpdates :: utxo_map
  d_UTXODeletions :: "string list"
  d_StateRoot :: string
  d_UpdateTimestamp :: int

definition verifyUTXO :: "UTXO \<Rightarrow> pool_error + unit" where
  "verifyUTXO u = (if u_TransactionID u = [] \<or> fle (u_Amount u) (Fin 0) then Inl InvalidUTXO else Inr ())"

text \<open>The updates one by one, ending at the first invalid output.\<close>

fun check_updates :: "(string \<times> UTXO) list \<Rightarrow> utxo_map \<Rightarrow> utxo_map option" where
  "check_updates [] m = Some m"
| "check_updates ((key, u) # us) m =
    (case verifyUTXO u of Inl _ \<Rightarrow> None | Inr _ \<Rightarrow> check_updates us (gomap_put key u m))"

definition VerifyDeltaUpdate :: "DeltaUpdate \<Rightarrow> 'd UTXOPool \<Rightarrow> ('d UTXOPool \<times> (pool_error + unit)) go" where
  "VerifyDeltaUpdate delta = with_lock pl_mu set_pl_mu (\<lambda>p.
    Ret (p, case check_updates (d_UTXOUpdates delta) (pl_utxos p) of
        None \<Rightarrow> Inl InvalidUTXO
      | Some m \<Rightarrow> if CalculateMerkleRoot (fold gomap_del (d_UTXODeletions delta) m) \<noteq> d_StateRoot delta
                  then Inl RootMismatch else Inr ()))"

definition GetDeltaUpdates :: "int \<Rightarrow> int \<Rightarrow> 'd UTXOPool \<Rightarrow> ('d UTXOPool \<times> DeltaUpdate) go" where
  "GetDeltaUpdates now lastSyncTime = with_lock pl_mu set_pl_mu (\<lambda>p.
    Ret (p, \<lparr>d_LastSyncTime = lastSyncTime,
      d_UTXOUpdates = (if pl_lastUpdateTime p > lastSyncTime then pl_updates p else []),
      d_UTXODeletions = pl_deletions p, d_StateRoot = CalculateMerkleRoot (pl_utxos p), d_UpdateTimestamp = now\<rparr>))"

definition ApplyDeltaUpdate :: "'d goleveldb \<Rightarrow> DeltaUpdate \<Rightarrow> 'd UTXOPool \<Rightarrow> ('d UTXOPool \<times> (pool_error + unit)) go" where
  "ApplyDeltaUpdate L delta p =
    go_bind (VerifyDeltaUpdate delta p) (\<lambda>(p, r). case r of
       Inl e \<Rightarrow> Ret (p, Inl e)
     | Inr _ \<Rightarrow> with_lock pl_mu set_pl_mu (\<lambda>p.
         let m = fold gomap_del (d_UTXODeletions delta) (fold (\<lambda>(key, u). gomap_put key u) (d_UTXOUpdates delta) (pl_utxos p))
         in go_bind (saveState L (p\<lparr>pl_utxos := m, pl_lastUpdateTime := d_UpdateTimestamp delta,
              pl_merkleRoot := CalculateMerkleRoot m\<rparr>)) (\<lambda>(p, _). Ret (p, Inr ()))) p)"

section \<open>Queries, copies and reorganisation\<close>

definition GetUTXOsForAddress :: "string \<Rightarrow> 'd UTXOPool \<Rightarrow> ('d UTXOPool \<times> UTXO list) go" where
  "GetUTXOsForAddress address = with_rlock pl_mu set_pl_mu (\<lambda>p.
    Ret (p, map snd (filter (\<lambda>(k, u). u_Owner u = address) (pl_utxos p))))"

definition GetUTXOs :: "'d UTXOPool \<Rightarrow> ('d UTXOPool \<times> utxo_map) go" where
  "GetUTXOs = with_rlock pl_mu set_pl_mu (\<lambda>p. Ret (p, pl_utxos p))"

definition GetAllUTXOs :: "'d UTXOPool \<Rightarrow> ('d UTXOPool \<times> utxo_map) go" where
  "GetAllUTXOs = with_rlock pl_mu set_pl_mu (\<lambda>p. Ret (p, pl_utxos p))"

definition GetBalance :: "string \<Rightarrow> 'd UTXOPool \<Rightarrow> ('d UTXOPool \<times> float64) go" where
  "GetBalance address = with_rlock pl_mu set_pl_mu (\<lambda>p.
    Ret (p, fold (\<lambda>(k, u) balance. if u_Owner u = address \<and> \<not> u_Spent u then fadd balance (u_Amount u) else balance)
              (pl_utxos p) (Fin 0)))"

text \<open>
  The copy has a lock of its own and shares the database and the account manager: a caller that works on
  the copy sees the changes to these two in the original.
\<close>

definition Clone :: "'d UTXOPool \<Rightarrow> ('d UTXOPool \<times> 'd UTXOPool) go" where
  "Clone = with_rlock pl_mu set_pl_mu (\<lambda>p. Ret (p, p\<lparr>pl_mu := Unlocked\<rparr>))"

text \<open>The hashes that the comparison leaves in the caches of the blocks are not returned.\<close>

fun common_from :: "nat \<Rightarrow> Block list \<Rightarrow> Block list \<Rightarrow> nat go" where
  "common_from 0 oldChain newChain = Ret 0"
| "common_from (Suc i) oldChain newChain =
    go_bind (Hash (oldChain ! i)) (\<lambda>(_, h). go_bind (Hash (newChain ! i)) (\<lambda>(_, h').
      if h = h' then Ret i else common_from i oldChain newChain))"

definition findLastCommonBlock :: "Block list \<Rightarrow> Block list \<Rightarrow> nat go" where
  "findLastCommonBlock oldChain newChain =
    common_from (min (length oldChain) (length newChain)) oldChain newChain"

definition restoreSnapshot :: "u64 \<Rightarrow> 'd UTXOPool \<Rightarrow> 'd UTXOPool \<times> (pool_error + unit)" where
  "restoreSnapshot height p =
    (case find (\<lambda>s. ss_Height s \<le> height) (rev (pl_snapshots p)) of
       None \<Rightarrow> (p, Inl NoSnapshot)
     | Some s \<Rightarrow> (p\<lparr>pl_utxos := ss_UTXOStates s\<rparr>, Inr ()))"

fun add_all :: "'d goleveldb \<Rightarrow> int \<Rightarrow> (Transaction \<times> u64) list \<Rightarrow> 'd UTXOPool \<Rightarrow> ('d UTXOPool \<times> unit) go" where
  "add_all L now [] p = Ret (p, ())"
| "add_all L now ((tx, height) # txs) p = go_bind (AddUTXO L now tx height p) (\<lambda>(p, _). add_all L now txs p)"

definition HandleReorg :: "'d goleveldb \<Rightarrow> int \<Rightarrow> Block list \<Rightarrow> Block list \<Rightarrow> 'd UTXOPool \<Rightarrow> ('d UTXOPool \<times> (pool_error + unit)) go" where
  "HandleReorg L now oldChain newChain = with_lock pl_mu set_pl_mu (\<lambda>p.
    go_bind (findLastCommonBlock oldChain newChain) (\<lambda>commonHeight.
      case restoreSnapshot (of_nat commonHeight) p of
        (p, Inl e) \<Rightarrow> Ret (p, Inl e)
      | (p, Inr _) \<Rightarrow>
          if commonHeight + 1 > length newChain then Panic
          else go_bind (add_all L now (concat (map (\<lambda>b. map (\<lambda>tx. (tx, h_BlockNumber (b_Header b)))
                   (GetAllTransactions (b_Transactions b))) (drop (commonHeight + 1) newChain))) p)
                 (\<lambda>(p, _). Ret (p, Inr ()))))"

section \<open>Selecting outputs for a payment\<close>

text \<open>
  The outputs in descending order of their amounts; spent ones are skipped. Equal amounts keep the
  order of the map, which is any order.
\<close>

fun select_loop :: "float64 \<Rightarrow> UTXO list \<Rightarrow> UTXO list \<Rightarrow> float64 \<Rightarrow> UTXO list \<times> float64" where
  "select_loop needed [] sel totalInput = (sel, totalInput)"
| "select_loop needed (u # us) sel totalInput =
    (if u_Spent u then select_loop needed us sel totalInput
     else let sel' = sel @ [u]; totalInput' = fadd totalInput (u_Amount u)
          in if fle needed totalInput' then (sel', totalInput') else select_loop needed us sel' totalInput')"

definition SelectUTXOs :: "Transaction \<Rightarrow> 'd UTXOPool option \<Rightarrow> ('d UTXOPool option \<times> (pool_error + Transaction)) go" where
  "SelectUTXOs tx utxoPool =
    (case utxoPool of
       None \<Rightarrow> Ret (None, Inl NilPool)
     | Some p \<Rightarrow>
        let totalNeeded = fadd (tx_Amount tx) (tx_GasFee tx) in
        go_bind (GetUTXOsForAddress (tx_Sender tx) p) (\<lambda>(p, senderUTXOs).
          if length senderUTXOs = 0 then Ret (Some p, Inl NoUTXOs)
          else let (selected, totalInput) =
                     select_loop totalNeeded (SliceStable (\<lambda>u v. flt (u_Amount v) (u_Amount u)) senderUTXOs) [] (Fin 0)
               in if flt totalInput totalNeeded then Ret (Some p, Inl InsufficientUTXOs)
                  else let tx' = fold (\<lambda>u. AddInput (u_TransactionID u) (u_OutputIndex u) []) selected tx;
                           changeAmount = fsub totalInput totalNeeded
                       in Ret (Some p, Inr (if flt (Fin 0) changeAmount then AddChangeOutput changeAmount tx' else tx'))))"

end
