(* ===== verification/Ledger.thy ===== *)
theory Ledger
  imports Utxo
begin

text \<open>
  How the pool of outputs changes. Adding a transaction and processing a block change the outputs by
  \<open>apply_tx\<close>, transaction by transaction; the steps on accounts and on the database leave the outputs
  alone. The locale \<open>output_ledger\<close> states what a ledger of unspent outputs promises, with the
  balance of values as its consequence; the pool, which marks spent outputs, and the output set of
  block.go, which removes them, are its two instances, and the locale \<open>two_ledgers\<close> gives the
  refinement between them. The pool operations return whenever the pool is not locked and has a
  database.
\<close>

section \<open>The effect of a transaction on the outputs\<close>

definition mark_spent :: "string \<Rightarrow> utxo_map \<Rightarrow> utxo_map" where
  "mark_spent key m = (case gomap_get m key of None \<Rightarrow> m | Some u \<Rightarrow> gomap_put key (u\<lparr>u_Spent := True\<rparr>) m)"

definition put_output :: "Transaction \<Rightarrow> u64 \<Rightarrow> nat \<times> TransactionOutput \<Rightarrow> utxo_map \<Rightarrow> utxo_map" where
  "put_output tx height = (\<lambda>(i, out). gomap_put (utxo_key (tx_TransactionID tx) (int i)) (output_utxo tx height i out))"

definition apply_tx :: "u64 \<Rightarrow> Transaction \<Rightarrow> utxo_map \<Rightarrow> utxo_map" where
  "apply_tx height tx m =
    fold (put_output tx height) (enumerate 0 (tx_Outputs tx))
      (if is_system tx then m else fold mark_spent (map input_key (tx_Inputs tx)) m)"

text \<open>Two pools that agree except for the outputs and the recorded updates.\<close>

definition same_frame :: "'d UTXOPool \<Rightarrow> 'd UTXOPool \<Rightarrow> bool" where
  "same_frame p q \<longleftrightarrow> p\<lparr>pl_utxos := pl_utxos q, pl_updates := pl_updates q\<rparr> = q"

lemma same_frame_fields:
  assumes "same_frame p q"
  shows "pl_mu q = pl_mu p" "pl_db q = pl_db p" "pl_accounts q = pl_accounts p" "pl_merkleRoot q = pl_merkleRoot p"
    "pl_snapshots q = pl_snapshots p" "pl_deletions q = pl_deletions p"
  using assms by (cases p; cases q; simp add: same_frame_def)+

lemma same_frame_refl [simp]: "same_frame p p"
  by (simp add: same_frame_def)

lemma same_frame_trans: "same_frame p q \<Longrightarrow> same_frame q r \<Longrightarrow> same_frame p r"
  by (cases p; cases q; cases r) (simp add: same_frame_def)

lemma spend_input_frame: "same_frame p (spend_input i p)"
  and utxos_spend_input: "pl_utxos (spend_input i p) = mark_spent (input_key i) (pl_utxos p)"
  by (auto simp: spend_input_def same_frame_def mark_spent_def Let_def split: option.split)

lemma fold_spend_input:
  "same_frame p (fold spend_input is p) \<and> pl_utxos (fold spend_input is p) = fold mark_spent (map input_key is) (pl_utxos p)"
proof (induction "is" arbitrary: p)
  case (Cons i "is")
  have "same_frame p (fold spend_input is (spend_input i p))"
    using same_frame_trans [OF spend_input_frame] Cons [of "spend_input i p"] by blast
  then show ?case using Cons [of "spend_input i p"] by (simp add: utxos_spend_input)
qed simp

lemma apply_inputs_effect:
  "same_frame p (apply_inputs tx p)"
  "pl_utxos (apply_inputs tx p) = (if is_system tx then pl_utxos p else fold mark_spent (map input_key (tx_Inputs tx)) (pl_utxos p))"
  using fold_spend_input [of p "tx_Inputs tx"] by (simp_all add: apply_inputs_def)

lemma fold_create_output:
  "same_frame (fst s) (fst (fold (create_output tx h) outs s)) \<and>
   pl_utxos (fst (fold (create_output tx h) outs s)) = fold (put_output tx h) outs (pl_utxos (fst s))"
proof (induction outs arbitrary: s)
  case (Cons out outs)
  have "same_frame (fst s) (fst (create_output tx h out s))"
    "pl_utxos (fst (create_output tx h out s)) = put_output tx h out (pl_utxos (fst s))"
    by (auto simp: create_output_def same_frame_def put_output_def Let_def split: prod.split)
  then show ?case using Cons [of "create_output tx h out s"] same_frame_trans by auto
qed simp

lemma apply_outputs_effect:
  "same_frame p (fst (apply_outputs tx h (apply_inputs tx p, owners)))"
  "pl_utxos (fst (apply_outputs tx h (apply_inputs tx p, owners))) = apply_tx h tx (pl_utxos p)"
  using fold_create_output [of "(apply_inputs tx p, owners)" tx h "enumerate 0 (tx_Outputs tx)"]
    apply_inputs_effect(1) [of p tx] apply_inputs_effect(2) [of tx p] same_frame_trans [of p "apply_inputs tx p"]
  by (auto simp: apply_outputs_def apply_tx_def)

text \<open>The account and persistence steps leave the outputs alone.\<close>

definition same_outputs :: "'d UTXOPool \<Rightarrow> 'd UTXOPool \<Rightarrow> bool" where
  "same_outputs p q \<longleftrightarrow> p\<lparr>pl_db := pl_db q, pl_accounts := pl_accounts q\<rparr> = q"

lemma same_outputs_fields:
  assumes "same_outputs p q"
  shows "pl_mu q = pl_mu p" "pl_utxos q = pl_utxos p" "pl_merkleRoot q = pl_merkleRoot p" "pl_updates q = pl_updates p"
    "pl_deletions q = pl_deletions p" "pl_snapshots q = pl_snapshots p" "pl_lastUpdateTime q = pl_lastUpdateTime p"
  using assms by (cases p; cases q; simp add: same_outputs_def)+

lemma same_outputs_refl [simp]: "same_outputs p p"
  by (simp add: same_outputs_def)

lemma same_outputs_trans: "same_outputs p q \<Longrightarrow> same_outputs q r \<Longrightarrow> same_outputs p r"
  by (cases p; cases q; cases r) (simp add: same_outputs_def)

lemma same_outputs_update [simp]: "same_outputs p (p\<lparr>pl_accounts := a\<rparr>)" "same_outputs p (p\<lparr>pl_db := d\<rparr>)"
  "same_outputs p (p\<lparr>pl_db := d, pl_accounts := a\<rparr>)" "same_outputs p (write_account am o' st p)"
  by (cases p; simp add: same_outputs_def write_account_def)+

lemma pool_account_same: "pool_account L am a p = Ret (q, am', st) \<Longrightarrow> same_outputs p q"
  by (auto simp: pool_account_def go_simps)

lemma credit_owners_same: "credit_owners L now owners am (p, states) = Ret (q, states') \<Longrightarrow> same_outputs p q"
proof (induction owners arbitrary: am p states)
  case (Cons ow owners)
  obtain owner keys where ow: "ow = (owner, keys)" by fastforce
  from Cons.prems obtain p1 am1 st where s: "pool_account L am owner p = Ret (p1, am1, st)"
    by (auto simp: ow go_simps)
  with Cons.prems obtain am2 states2 where
    "credit_owners L now owners am2 (p1\<lparr>pl_accounts := Some am2\<rparr>, states2) = Ret (q, states')"
    by (auto simp: ow Let_def split: prod.splits)
  from Cons.IH [OF this] pool_account_same [OF s] show ?case
    using same_outputs_trans same_outputs_update(1) by metis
qed simp

lemma update_accounts_same: "update_accounts L now tx owners am p = Ret q \<Longrightarrow> same_outputs p q"
  by (auto simp: update_accounts_def go_simps Let_def split: if_splits
      dest!: credit_owners_same pool_account_same)
    (metis same_outputs_trans same_outputs_update)+

lemma saveState_same: "saveState L p = Ret (q, r) \<Longrightarrow> same_outputs p q"
  by (auto simp: saveState_def split: option.splits prod.splits sum.splits)


lemma AddUTXO_effect:
  assumes "AddUTXO L now tx height p = Ret (q, u)"
  shows "pl_utxos q = apply_tx height tx (pl_utxos p)" "pl_merkleRoot q = CalculateMerkleRoot (pl_utxos q)"
    "pl_mu p = Unlocked" "pl_mu q = Unlocked"
proof -
  obtain p1 owners where out: "apply_outputs tx height (apply_inputs tx (p\<lparr>pl_mu := Locked\<rparr>), []) = (p1, owners)" by fastforce
  define p2 where "p2 = p1\<lparr>pl_merkleRoot := CalculateMerkleRoot (pl_utxos p1), pl_lastUpdateTime := now\<rparr>"
  show mu: "pl_mu p = Unlocked" "pl_mu q = Unlocked"
    using pool_mu.lock_released [OF assms [unfolded AddUTXO_def]] by simp_all
  from assms mu out obtain p3 p4 r where
    acc: "(case pl_accounts p2 of None \<Rightarrow> Ret p2 | Some am \<Rightarrow> update_accounts L now tx owners am p2) = Ret p3"
    and save: "saveState L p3 = Ret (p4, r)" and q: "q = p4\<lparr>pl_mu := Unlocked\<rparr>"
    unfolding p2_def by (auto simp: AddUTXO_def with_lock_def go_simps Let_def)
  have "same_outputs p2 p3" using acc update_accounts_same by (auto split: option.splits)
  then have same: "same_outputs p2 p4" using save saveState_same same_outputs_trans by metis
  have "pl_utxos p1 = apply_tx height tx (pl_utxos p)"
    using apply_outputs_effect(2) [of tx height "p\<lparr>pl_mu := Locked\<rparr>" "[]"] out by simp
  with same_outputs_fields [OF same] q
  show "pl_utxos q = apply_tx height tx (pl_utxos p)" "pl_merkleRoot q = CalculateMerkleRoot (pl_utxos q)"
    by (simp_all add: p2_def)
qed

text \<open>What a pool keeps while the transactions of a block are processed.\<close>

lemma debit_sender_same: "debit_sender L now tx (p, updates) = Ret (q, updates') \<Longrightarrow> same_outputs p q"
  by (auto simp: debit_sender_def go_simps Let_def split: if_splits option.splits dest!: pool_account_same)
    (metis same_outputs_trans same_outputs_update(4))

lemma process_txs_effect:
  "process_txs L now height txs (p, updates, owners) = Ret (q, updates', owners') \<Longrightarrow>
    pl_utxos q = fold (apply_tx height) txs (pl_utxos p) \<and> pl_mu q = pl_mu p"
proof (induction txs arbitrary: p updates owners)
  case (Cons tx txs)
  from Cons.prems obtain p1 updates1 where d: "debit_sender L now tx (apply_inputs tx p, updates) = Ret (p1, updates1)"
    by (auto simp: go_simps)
  obtain p2 owners2 where o: "apply_outputs tx height (p1, owners) = (p2, owners2)" by fastforce
  have same: "same_outputs (apply_inputs tx p) p1" using debit_sender_same [OF d] .
  have "pl_utxos p2 = fold (put_output tx height) (enumerate 0 (tx_Outputs tx)) (pl_utxos p1)" "pl_mu p2 = pl_mu p1"
    using fold_create_output [of "(p1, owners)" tx height "enumerate 0 (tx_Outputs tx)"] o same_frame_fields(1)
    by (auto simp: apply_outputs_def)
  then have "pl_utxos p2 = apply_tx height tx (pl_utxos p)" "pl_mu p2 = pl_mu p"
    using same_outputs_fields(1,2) [OF same] apply_inputs_effect(2) [of tx p] same_frame_fields(1) [OF apply_inputs_effect(1)]
    by (auto simp: apply_tx_def)
  moreover have "process_txs L now height txs (p2, updates1, owners2) = Ret (q, updates', owners')"
    using Cons.prems d o by simp
  ultimately show ?case using Cons.IH by simp
qed simp

lemma process_owners_same: "process_owners L now owners am (p, updates) = Ret (q, updates') \<Longrightarrow> same_outputs p q"
proof (induction owners arbitrary: am p updates)
  case (Cons ow owners)
  obtain owner keys where ow: "ow = (owner, keys)" by fastforce
  from Cons.prems obtain p1 am1 st where s: "pool_account L am owner p = Ret (p1, am1, st)"
    by (auto simp: ow go_simps)
  with Cons.prems obtain am2 updates2 where
    "process_owners L now owners am2 (p1\<lparr>pl_accounts := Some am2\<rparr>, updates2) = Ret (q, updates')"
    by (auto simp: ow Let_def)
  from Cons.IH [OF this] pool_account_same [OF s] show ?case
    using same_outputs_trans same_outputs_update(1) by metis
qed simp

lemma CreateSnapshot_same: "same_outputs p (fst (CreateSnapshot L now height h p))"
  by (auto simp: CreateSnapshot_def saveSnapshot_def split: option.split prod.split sum.split)

lemma credit_block_same: "credit_block L now owners (p, updates) = Ret (q, updates') \<Longrightarrow> same_outputs p q"
  by (auto simp: credit_block_def split: option.splits dest: process_owners_same)

lemma write_updates_same: "write_updates L now (p, updates) = Ret q \<Longrightarrow> same_outputs p q"
  by (auto simp: write_updates_def go_simps split: option.splits if_splits)

lemma snapshot_if_due_same: "snapshot_if_due L now block p = Ret (q, b) \<Longrightarrow> same_outputs p q"
  by (auto simp: snapshot_if_due_def Let_def go_simps CreateSnapshot_same split: if_splits)

lemma ProcessBlockTransactions_effect:
  assumes "ProcessBlockTransactions L now (Some block) p = Ret (q, b, r)"
  shows "pl_utxos q = fold (apply_tx (h_BlockNumber (b_Header block))) (GetAllTransactions (b_Transactions block)) (pl_utxos p)"
    "pl_merkleRoot q = CalculateMerkleRoot (pl_utxos q)" "pl_mu p = Unlocked" "pl_mu q = Unlocked"
proof -
  note body = assms [unfolded ProcessBlockTransactions_def option.case]
  show "pl_mu p = Unlocked" "pl_mu q = Unlocked" using pool_mu.lock_released [OF body] by simp_all
  obtain t where t: "process_block L now block (p\<lparr>pl_mu := Locked\<rparr>) = Ret (t, b, r)" and q: "q = t\<lparr>pl_mu := Unlocked\<rparr>"
    using pool_mu.lock_body [OF body] by blast
  from t obtain p1 u1 o1 p2 u2 p3 p4 b4 where
    s: "process_txs L now (h_BlockNumber (b_Header block)) (GetAllTransactions (b_Transactions block))
          (p\<lparr>pl_mu := Locked\<rparr>, [], []) = Ret (p1, u1, o1)"
      "credit_block L now o1 (p1, u1) = Ret (p2, u2)" "write_updates L now (p2, u2) = Ret p3"
      "snapshot_if_due L now block (p3\<lparr>pl_merkleRoot := CalculateMerkleRoot (pl_utxos p3), pl_lastUpdateTime := now\<rparr>) = Ret (p4, b4)"
      "saveState L p4 = Ret (t, r)"
    by (auto simp: process_block_def go_simps)
  show "pl_utxos q = fold (apply_tx (h_BlockNumber (b_Header block))) (GetAllTransactions (b_Transactions block)) (pl_utxos p)"
    "pl_merkleRoot q = CalculateMerkleRoot (pl_utxos q)"
    using process_txs_effect [OF s(1)] same_outputs_fields(2) [OF credit_block_same [OF s(2)]]
      same_outputs_fields(2) [OF write_updates_same [OF s(3)]] same_outputs_fields(2,3) [OF snapshot_if_due_same [OF s(4)]]
      same_outputs_fields(2,3) [OF saveState_same [OF s(5)]]
    by (simp_all add: q)
qed


section \<open>Ledgers of outputs\<close>

text \<open>What identifies an unspent output: transaction, index, owner, amount and script.\<close>

type_synonym coin = "string \<times> int \<times> string \<times> float64 \<times> string"

definition coin_of :: "UTXO \<Rightarrow> coin" where
  "coin_of u = (u_TransactionID u, u_OutputIndex u, u_Owner u, u_Amount u, u_ScriptPubKey u)"

definition created :: "Transaction \<Rightarrow> (string, coin) gomap" where
  "created tx = map (\<lambda>(i, out). (utxo_key (tx_TransactionID tx) (int i),
     (tx_TransactionID tx, int i, out_Receiver out, out_Amount out, out_ScriptPubKey out))) (enumerate 0 (tx_Outputs tx))"

definition spent_keys :: "Transaction \<Rightarrow> string list" where
  "spent_keys tx = (if is_system tx then [] else map input_key (tx_Inputs tx))"

fun coin_value :: "coin \<Rightarrow> rat" where
  "coin_value (_, _, _, Fin x, _) = x"
| "coin_value _ = 0"

definition ledger_value :: "(string \<Rightarrow> coin option) \<Rightarrow> rat" where
  "ledger_value f = (\<Sum>k\<in>dom f. coin_value (the (f k)))"

lemma utxo_key_inject: "utxo_key t i = utxo_key t j \<longleftrightarrow> i = j"
  by (simp add: utxo_key_def show_int_inject)

lemma distinct_created: "gomap_wf (created tx)"
  by (simp add: created_def comp_def case_prod_unfold distinct_map inj_on_def utxo_key_inject distinct_enumerate)
    (auto simp: in_set_enumerate_eq prod_eq_iff)

lemma sum_list_distinct: "distinct ks \<Longrightarrow> (\<Sum>k\<leftarrow>ks. f k) = sum f (set ks)"
  for f :: "'a \<Rightarrow> rat"
  by (rule sum_list_distinct_conv_sum_set)

text \<open>
  A ledger tells which outputs are unspent. A transaction removes the outputs it spends, unless it is
  a reward, and then adds its own.
\<close>

locale output_ledger =
  fixes step :: "Transaction \<Rightarrow> 's \<Rightarrow> 's" and unspent :: "'s \<Rightarrow> string \<Rightarrow> coin option"
  assumes unspent_step: "unspent (step tx s) k =
      (case map_of (created tx) k of Some c \<Rightarrow> Some c | None \<Rightarrow> if k \<in> set (spent_keys tx) then None else unspent s k)"
    and finite_unspent: "finite (dom (unspent s))"
begin

lemma dom_step: "dom (unspent (step tx s)) = fst ` set (created tx) \<union> (dom (unspent s) - set (spent_keys tx))"
  by (auto simp: dom_def unspent_step split: option.splits if_splits dest: map_of_SomeD)
    (metis (no_types, lifting) image_eqI map_of_eq_None_iff option.distinct(1) fst_conv)+

text \<open>What a transaction adds and removes, when it spends unspent outputs once each and its outputs are new.\<close>

lemma value_step:
  assumes "distinct (spent_keys tx)" "set (spent_keys tx) \<subseteq> dom (unspent s)"
    and new: "fst ` set (created tx) \<inter> dom (unspent s) = {}"
  shows "ledger_value (unspent (step tx s)) = ledger_value (unspent s)
    - (\<Sum>k\<leftarrow>spent_keys tx. coin_value (the (unspent s k))) + (\<Sum>(k, c)\<leftarrow>created tx. coin_value c)"
proof -
  let ?C = "fst ` set (created tx)" and ?S = "set (spent_keys tx)" and ?D = "dom (unspent s)"
  let ?f = "\<lambda>k. coin_value (the (unspent s k))" and ?g = "\<lambda>k. coin_value (the (unspent (step tx s) k))"
  have old: "?g k = ?f k" if "k \<in> ?D - ?S" for k
  proof -
    have "map_of (created tx) k = None" using new that by (metis DiffD1 disjoint_iff map_of_eq_None_iff)
    then show ?thesis using that by (simp add: unspent_step)
  qed
  have made: "?g k = coin_value c" if "(k, c) \<in> set (created tx)" for k c
    using that distinct_created by (simp add: unspent_step)
  have "sum ?g ?C = (\<Sum>k\<leftarrow>map fst (created tx). ?g k)"
    using sum_list_distinct [OF distinct_created [of tx], of ?g] by simp
  also have "\<dots> = (\<Sum>(k, c)\<leftarrow>created tx. coin_value c)"
    by (simp add: comp_def case_prod_unfold) (rule arg_cong [of _ _ sum_list], auto simp: made)
  finally have c: "sum ?g ?C = (\<Sum>(k, c)\<leftarrow>created tx. coin_value c)" .
  have "?C \<inter> (?D - ?S) = {}" using new by blast
  then have "sum ?g (?C \<union> (?D - ?S)) = sum ?g ?C + sum ?g (?D - ?S)"
    using finite_unspent [of s] by (simp add: sum.union_disjoint)
  also have "sum ?g (?D - ?S) = sum ?f (?D - ?S)" using old by (intro sum.cong) auto
  also have "\<dots> = sum ?f ?D - sum ?f ?S" using finite_unspent [of s] assms(2) by (simp add: sum_diff)
  finally show ?thesis
    using sum_list_distinct [OF assms(1), of ?f] by (simp add: ledger_value_def dom_step c)
qed

end

text \<open>Two ledgers that start with the same unspent outputs agree after every list of transactions.\<close>

locale two_ledgers = A: output_ledger stepA unspentA + B: output_ledger stepB unspentB
  for stepA :: "Transaction \<Rightarrow> 'a \<Rightarrow> 'a" and unspentA and stepB :: "Transaction \<Rightarrow> 'b \<Rightarrow> 'b" and unspentB
begin

lemma agree_step: "unspentA a = unspentB b \<Longrightarrow> unspentA (stepA tx a) = unspentB (stepB tx b)"
  by (rule ext) (metis A.unspent_step B.unspent_step)

lemma agree_steps: "unspentA a = unspentB b \<Longrightarrow> unspentA (fold stepA txs a) = unspentB (fold stepB txs b)"
  by (induction txs arbitrary: a b) (simp_all add: agree_step)

end

text \<open>The pool marks spent outputs, the set of block.go removes them.\<close>

definition unspent_in :: "utxo_map \<Rightarrow> string \<Rightarrow> coin option" where
  "unspent_in m k = (case gomap_get m k of Some u \<Rightarrow> if u_Spent u then None else Some (coin_of u) | None \<Rightarrow> None)"

lemma unspent_put: "unspent_in (gomap_put key u m) k =
    (if k = key then if u_Spent u then None else Some (coin_of u) else unspent_in m k)"
  by (simp add: unspent_in_def gomap_simps)

lemma unspent_mark: "unspent_in (mark_spent key m) k = (if k = key then None else unspent_in m k)"
  by (auto simp: unspent_in_def mark_spent_def gomap_simps split: option.split)

lemma unspent_marks: "unspent_in (fold mark_spent keys m) k = (if k \<in> set keys then None else unspent_in m k)"
  by (induction keys arbitrary: m) (auto simp: unspent_mark)

lemma unspent_dels: "unspent_in (fold (\<lambda>i. gomap_del (input_key i)) is m) k =
    (if k \<in> set (map input_key is) then None else unspent_in m k)"
proof (induction "is" arbitrary: m)
  case (Cons i "is")
  then show ?case by (auto simp: unspent_in_def gomap_simps)
qed simp

text \<open>Storing new outputs one after the other, their keys being different.\<close>

lemma unspent_puts:
  assumes "gomap_wf (map (\<lambda>x. (key x, coin_of (val x))) xs)" "\<And>x. \<not> u_Spent (val x)"
  shows "unspent_in (fold (\<lambda>x. gomap_put (key x) (val x)) xs m) k =
    (case map_of (map (\<lambda>x. (key x, coin_of (val x))) xs) k of Some c \<Rightarrow> Some c | None \<Rightarrow> unspent_in m k)"
  using assms(1)
proof (induction xs arbitrary: m)
  case (Cons x xs)
  show ?case
  proof (cases "k = key x")
    case True
    have "map_of (map (\<lambda>x. (key x, coin_of (val x))) xs) (key x) = None"
      using Cons.prems by (auto simp: map_of_eq_None_iff)
    then show ?thesis using True Cons assms(2) by (simp add: unspent_put)
  next
    case False
    then show ?thesis using Cons by (simp add: unspent_put cong: option.case_cong)
  qed
qed simp

lemma created_puts:
  "unspent_in (fold (put_output tx h) (enumerate 0 (tx_Outputs tx)) m) k =
    (case map_of (created tx) k of Some c \<Rightarrow> Some c | None \<Rightarrow> unspent_in m k)"
  "unspent_in (fold (set_output tx) (enumerate 0 (tx_Outputs tx)) m) k =
    (case map_of (created tx) k of Some c \<Rightarrow> Some c | None \<Rightarrow> unspent_in m k)"
  using unspent_puts [of "\<lambda>(i, out). utxo_key (tx_TransactionID tx) (int i)" "\<lambda>(i, out). output_utxo tx h i out" "enumerate 0 (tx_Outputs tx)" m k]
    unspent_puts [of "\<lambda>(i, out). utxo_key (tx_TransactionID tx) (int i)" "\<lambda>(i, out). (output_utxo tx 0 i out)\<lparr>u_Timestamp := 0\<rparr>" "enumerate 0 (tx_Outputs tx)" m k]
    distinct_created [of tx]
  by (simp_all add: created_def put_output_def set_output_def output_utxo_def coin_of_def case_prod_unfold comp_def)

lemma finite_unspent_in: "finite (dom (unspent_in m))"
  by (rule finite_subset [of _ "dom (map_of m)"]) (auto simp: unspent_in_def finite_dom_map_of split: option.splits)

interpretation pool_ledger: output_ledger "apply_tx h" unspent_in for h
  by unfold_locales (auto simp: apply_tx_def created_puts(1) unspent_marks spent_keys_def finite_unspent_in split: option.split)

interpretation set_ledger: output_ledger UpdateUTXOSet unspent_in
  by unfold_locales
    (auto simp: UpdateUTXOSet_def created_puts(2) unspent_dels spent_keys_def finite_unspent_in Let_def split: option.split)

interpretation pool_set: two_ledgers "apply_tx h" unspent_in UpdateUTXOSet unspent_in for h
  by unfold_locales


section \<open>The pool operations return\<close>

definition pool_ready :: "'d UTXOPool \<Rightarrow> bool" where
  "pool_ready p \<longleftrightarrow> pl_db p \<noteq> None \<and> (\<forall>am. pl_accounts p = Some am \<longrightarrow> am_mu am = Unlocked)"

lemma saveAccountState_returns: "\<exists>ldb' r. saveAccountState L st (Some ldb) = Ret (Some ldb', r)"
  by (auto simp: saveAccountState_def split: option.split prod.split sum.split)

lemma loadAccountState_returns: "\<exists>r. loadAccountState L a (Some ldb) = Ret r"
  by (auto simp: loadAccountState_def split: option.split sum.split)

lemma GetAccountState_returns:
  assumes "am_mu am = Unlocked"
  shows "\<exists>ldb' am' st. GetAccountState L a (Some ldb, am) = Ret ((Some ldb', am'), st) \<and> am_mu am' = Unlocked"
proof (cases "map_of (am_accounts am) a")
  case (Some st)
  then show ?thesis using GetAccountState_cached [OF assms Some] assms by blast
next
  case None
  obtain r where load: "loadAccountState L a (Some ldb) = Ret r" using loadAccountState_returns by blast
  obtain ldb' r' where "saveAccountState L (fresh_account a) (Some ldb) = Ret (Some ldb', r')"
    using saveAccountState_returns by blast
  with load None assms show ?thesis
    by (cases am) (auto simp: GetAccountState_def with_rlock_def with_lock_def split: sum.split)
qed

lemma pool_account_returns:
  assumes "pl_db p \<noteq> None" "am_mu am = Unlocked"
  shows "\<exists>q am' st. pool_account L am a p = Ret (q, am', st) \<and> pool_ready q \<and> am_mu am' = Unlocked \<and> pl_accounts q = Some am'"
proof -
  obtain ldb where "pl_db p = Some ldb" using assms(1) by blast
  moreover obtain ldb' am' st where "GetAccountState L a (Some ldb, am) = Ret ((Some ldb', am'), st)" "am_mu am' = Unlocked"
    using GetAccountState_returns [OF assms(2)] by blast
  ultimately show ?thesis by (simp add: pool_account_def pool_ready_def)
qed

lemma credit_owners_returns:
  assumes "pl_db p \<noteq> None" "am_mu am = Unlocked" "pl_accounts p = Some am"
  shows "\<exists>q states' am'. credit_owners L now owners am (p, states) = Ret (q, states') \<and> pool_ready q \<and> pl_accounts q = Some am'"
  using assms
proof (induction owners arbitrary: am p states)
  case Nil
  then show ?case by (simp add: pool_ready_def)
next
  case (Cons ow owners)
  obtain owner keys where ow: "ow = (owner, keys)" by fastforce
  obtain p1 am1 st where s: "pool_account L am owner p = Ret (p1, am1, st)" "pool_ready p1" "am_mu am1 = Unlocked"
    using pool_account_returns [OF Cons.prems(1,2), of L owner] by blast
  obtain total owned where r: "received (pl_utxos p1) keys (Fin 0, as_UTXOs st) = (total, owned)" by fastforce
  show ?case
    using s Cons.IH [of "p1\<lparr>pl_accounts := Some am2\<rparr>" am2 for am2] by (simp add: ow r pool_ready_def Let_def)
qed

lemma BatchUpdateAccounts_returns:
  assumes "am_mu am = Unlocked"
  shows "\<exists>ldb' am' r. BatchUpdateAccounts L now updates (Some ldb, am) = Ret ((Some ldb', am'), r) \<and> am_mu am' = Unlocked"
proof -
  obtain am' batch r where b: "batch_accounts now updates (am\<lparr>am_mu := Locked\<rparr>) [] = (am', batch, r)" by (metis prod_cases3)
  obtain ldb' w where "batch_Write L batch ldb = (ldb', w)" by fastforce
  then show ?thesis using assms b
    by (cases r; cases w) (auto simp: BatchUpdateAccounts_def with_lock_def)
qed

lemma flush_returns:
  assumes "pool_ready p" "pl_accounts p = Some am"
  shows "\<exists>q. go_bind (BatchUpdateAccounts L now us (pl_db p, the (pl_accounts p))) (\<lambda>((db, am), _).
      Ret (p\<lparr>pl_db := db, pl_accounts := Some am\<rparr>)) = Ret q \<and> pool_ready q"
proof -
  obtain ldb where "pl_db p = Some ldb" using assms by (auto simp: pool_ready_def)
  moreover obtain ldb' am' r where "BatchUpdateAccounts L now us (Some ldb, am) = Ret ((Some ldb', am'), r)" "am_mu am' = Unlocked"
    using BatchUpdateAccounts_returns [of am L now us ldb] assms by (auto simp: pool_ready_def)
  ultimately show ?thesis using assms by (simp add: pool_ready_def)
qed

lemma update_accounts_returns:
  assumes "pool_ready p" "pl_accounts p = Some am"
  shows "\<exists>q. update_accounts L now tx owners am p = Ret q \<and> pool_ready q"
proof -
  from assms obtain p1 states am1 where s: "credit_owners L now owners am (p, []) = Ret (p1, states)" "pool_ready p1"
    "pl_accounts p1 = Some am1"
    using credit_owners_returns [of p am L now owners "[]"] by (auto simp: pool_ready_def)
  then obtain p2 am2 st where a: "pool_account L am1 (tx_Sender tx) p1 = Ret (p2, am2, st)" "pool_ready p2" "am_mu am2 = Unlocked"
    using pool_account_returns [of p1 am1 L "tx_Sender tx"] by (auto simp: pool_ready_def)
  show ?thesis
    using s a flush_returns [of p1 am1 L now] flush_returns [of "write_account am2 (tx_Sender tx) st' p2" _ L now for st']
    by (auto simp: update_accounts_def pool_ready_def write_account_def Let_def)
qed


lemma saveState_returns:
  assumes "pool_ready p"
  shows "\<exists>q r. saveState L p = Ret (q, r) \<and> pool_ready q"
proof -
  obtain ldb where ldb: "pl_db p = Some ldb" using assms by (auto simp: pool_ready_def)
  obtain ldb' w where "db_Put L ''utxo_state'' j ldb = (ldb', w)" if "enc_map enc_utxo (pl_utxos p) = Some j" for j
    by (cases "enc_map enc_utxo (pl_utxos p)") (auto, metis surj_pair)
  then show ?thesis
    using assms ldb by (cases w; cases "enc_map enc_utxo (pl_utxos p)") (auto simp: saveState_def pool_ready_def)
qed

lemma AddUTXO_returns:
  assumes "pl_mu p = Unlocked" "pool_ready p"
  shows "\<exists>q. AddUTXO L now tx height p = Ret (q, ()) \<and> pool_ready q"
proof -
  obtain p1 owners where out: "apply_outputs tx height (apply_inputs tx (p\<lparr>pl_mu := Locked\<rparr>), []) = (p1, owners)" by fastforce
  define p2 where "p2 = p1\<lparr>pl_merkleRoot := CalculateMerkleRoot (pl_utxos p1), pl_lastUpdateTime := now\<rparr>"
  have "same_frame (p\<lparr>pl_mu := Locked\<rparr>) p1"
    using apply_outputs_effect(1) [of "p\<lparr>pl_mu := Locked\<rparr>" tx height "[]"] out by simp
  then have ready: "pool_ready p2"
    using assms same_frame_fields(2,3) by (fastforce simp: p2_def pool_ready_def)
  then have "\<exists>p3. (case pl_accounts p2 of None \<Rightarrow> Ret p2 | Some am \<Rightarrow> update_accounts L now tx owners am p2) = Ret p3 \<and> pool_ready p3"
    using update_accounts_returns by (cases "pl_accounts p2") auto
  then obtain p3 where p3: "(case pl_accounts p2 of None \<Rightarrow> Ret p2 | Some am \<Rightarrow> update_accounts L now tx owners am p2) = Ret p3" "pool_ready p3"
    by blast
  then obtain p4 r where "saveState L p3 = Ret (p4, r)" "pool_ready p4" using saveState_returns by blast
  then show ?thesis
    using assms(1) out p3(1) [unfolded p2_def] by (simp add: AddUTXO_def with_lock_def Let_def pool_ready_def)
qed

lemma debit_sender_returns:
  assumes "pool_ready p"
  shows "\<exists>q updates'. debit_sender L now tx (p, updates) = Ret (q, updates') \<and> pool_ready q"
proof (cases "pl_accounts p")
  case None
  then show ?thesis using assms by (simp add: debit_sender_def)
next
  case (Some am)
  then obtain p2 am2 st where "pool_account L am (tx_Sender tx) p = Ret (p2, am2, st)" "pool_ready p2" "am_mu am2 = Unlocked"
    using pool_account_returns [of p am L "tx_Sender tx"] assms by (auto simp: pool_ready_def)
  then show ?thesis using assms Some by (simp add: debit_sender_def Let_def write_account_def pool_ready_def)
qed

lemma process_txs_returns:
  "pool_ready p \<Longrightarrow> \<exists>q updates' owners'. process_txs L now height txs (p, updates, owners) = Ret (q, updates', owners') \<and> pool_ready q"
proof (induction txs arbitrary: p updates owners)
  case (Cons tx txs)
  have "pool_ready (apply_inputs tx p)"
    using Cons.prems same_frame_fields(2,3) [OF apply_inputs_effect(1) [of p tx]] by (simp add: pool_ready_def)
  then obtain p1 u1 where d: "debit_sender L now tx (apply_inputs tx p, updates) = Ret (p1, u1)" "pool_ready p1"
    using debit_sender_returns by blast
  obtain p2 o2 where out: "apply_outputs tx height (p1, owners) = (p2, o2)" by fastforce
  have "same_frame p1 p2"
    using fold_create_output [of "(p1, owners)" tx height "enumerate 0 (tx_Outputs tx)"] out by (simp add: apply_outputs_def)
  then have "pool_ready p2" using d(2) same_frame_fields(2,3) [of p1 p2] by (simp add: pool_ready_def)
  then show ?case using Cons.IH [of p2 u1 o2] d(1) out by simp
qed simp

lemma process_owners_returns:
  "pl_db p \<noteq> None \<Longrightarrow> am_mu am = Unlocked \<Longrightarrow> pl_accounts p = Some am \<Longrightarrow>
    \<exists>q updates'. process_owners L now owners am (p, updates) = Ret (q, updates') \<and> pool_ready q"
proof (induction owners arbitrary: am p updates)
  case Nil
  then show ?case by (simp add: pool_ready_def)
next
  case (Cons ow owners)
  obtain owner keys where ow: "ow = (owner, keys)" by fastforce
  obtain p1 am1 st where s: "pool_account L am owner p = Ret (p1, am1, st)" "pool_ready p1" "am_mu am1 = Unlocked"
    using pool_account_returns [OF Cons.prems(1,2), of L owner] by blast
  show ?case
    using s Cons.IH [of "p1\<lparr>pl_accounts := Some am2\<rparr>" am2 for am2] by (simp add: ow pool_ready_def Let_def)
qed

lemma Hash_returns: "b_mu b = Unlocked \<Longrightarrow> \<exists>b' h. Hash b = Ret (b', h)"
  by (cases "b_originalHash b = []") (auto simp: Hash_cached Hash_fresh)

lemma CreateSnapshot_ready: "pool_ready p \<Longrightarrow> pool_ready (fst (CreateSnapshot L now height h p))"
  by (auto simp: CreateSnapshot_def saveSnapshot_def pool_ready_def split: option.split prod.split sum.split)

lemma snapshot_if_due_returns:
  assumes "b_mu block = Unlocked" "pool_ready p"
  shows "\<exists>q b. snapshot_if_due L now block p = Ret (q, b) \<and> pool_ready q"
proof -
  obtain b' h where "Hash block = Ret (b', h)" using Hash_returns [OF assms(1)] by blast
  then show ?thesis using assms(2) CreateSnapshot_ready [OF assms(2)] by (simp add: snapshot_if_due_def Let_def)
qed

lemma ProcessBlockTransactions_returns:
  assumes "pl_mu p = Unlocked" "pool_ready p" "b_mu block = Unlocked"
  shows "\<exists>q b r. ProcessBlockTransactions L now (Some block) p = Ret (q, b, r)"
proof -
  have "pool_ready (p\<lparr>pl_mu := Locked\<rparr>)" using assms(2) by (simp add: pool_ready_def)
  then obtain p1 u1 o1 where p1: "process_txs L now (h_BlockNumber (b_Header block)) (GetAllTransactions (b_Transactions block))
      (p\<lparr>pl_mu := Locked\<rparr>, [], []) = Ret (p1, u1, o1)" "pool_ready p1"
    using process_txs_returns by blast
  have "\<exists>p2 u2. credit_block L now o1 (p1, u1) = Ret (p2, u2) \<and> pool_ready p2"
    using p1(2) process_owners_returns [of p1] by (cases "pl_accounts p1") (auto simp: credit_block_def pool_ready_def)
  then obtain p2 u2 where p2: "credit_block L now o1 (p1, u1) = Ret (p2, u2)" "pool_ready p2" by blast
  have "\<exists>p3. write_updates L now (p2, u2) = Ret p3 \<and> pool_ready p3"
    using p2(2) flush_returns [of p2 _ L now u2] by (cases "pl_accounts p2") (auto simp: write_updates_def)
  then obtain p3 where p3: "write_updates L now (p2, u2) = Ret p3" "pool_ready p3" by blast
  let ?p3 = "p3\<lparr>pl_merkleRoot := CalculateMerkleRoot (pl_utxos p3), pl_lastUpdateTime := now\<rparr>"
  have r3: "pool_ready ?p3" using p3(2) by (simp add: pool_ready_def)
  then obtain p4 b4 where p4: "snapshot_if_due L now block ?p3 = Ret (p4, b4)" "pool_ready p4"
    using snapshot_if_due_returns [OF assms(3)] by blast
  then obtain p5 r where "saveState L p4 = Ret (p5, r)" using saveState_returns by blast
  then show ?thesis
    using assms(1) p1(1) p2(1) p3(1) p4(1) by (simp add: ProcessBlockTransactions_def with_lock_def process_block_def)
qed

lemma add_all_returns:
  "pl_mu p = Unlocked \<Longrightarrow> pool_ready p \<Longrightarrow> \<exists>q. add_all L now txs p = Ret (q, ())"
proof (induction txs arbitrary: p)
  case (Cons t txs)
  obtain tx height where t: "t = (tx, height)" by fastforce
  obtain p1 where p1: "AddUTXO L now tx height p = Ret (p1, ())" "pool_ready p1" using AddUTXO_returns [OF Cons.prems] by blast
  then show ?case using Cons.IH [OF AddUTXO_effect(4) [OF p1(1)]] by (simp add: t)
qed simp

lemma add_all_effect:
  "add_all L now (map (\<lambda>tx. (tx, height)) txs) p = Ret (q, u) \<Longrightarrow> pl_utxos q = fold (apply_tx height) txs (pl_utxos p)"
proof (induction txs arbitrary: p)
  case (Cons tx txs)
  then obtain p1 where "AddUTXO L now tx height p = Ret (p1, ())" "add_all L now (map (\<lambda>tx. (tx, height)) txs) p1 = Ret (q, u)"
    by (auto simp: go_simps)
  then show ?case using Cons.IH AddUTXO_effect(1) by fastforce
qed simp


section \<open>Properties of the pool\<close>

text \<open>
  C1. Adding a transaction to the pool refines the update of the output set in block.go: if the two
  have the same unspent outputs before, they have the same unspent outputs after, although the pool
  only marks what the set removes; and the pool's Merkle root is the root of its new outputs.
\<close>

theorem AddUTXO_refines_UpdateUTXOSet:
  assumes "AddUTXO L now tx height p = Ret (q, u)" "unspent_in (pl_utxos p) = unspent_in s"
  shows "unspent_in (pl_utxos q) = unspent_in (UpdateUTXOSet tx s) \<and>
    pl_merkleRoot q = CalculateMerkleRoot (pl_utxos q)"
  using AddUTXO_effect(1,2) [OF assms(1)] pool_set.agree_step [OF assms(2)] by simp

theorem AddUTXO_refines_UpdateUTXOSet_witness:
  "\<exists>q. AddUTXO memory_leveldb 5 (zero_tx\<lparr>tx_TransactionID := ''t1''\<rparr>) 1
        (NewUTXOPool (Some \<lparr>ldb_db = [], ldb_closed = False\<rparr>)) = Ret (q, ()) \<and>
     unspent_in (pl_utxos q) = unspent_in (UpdateUTXOSet (zero_tx\<lparr>tx_TransactionID := ''t1''\<rparr>) []) \<and>
     pl_merkleRoot q = CalculateMerkleRoot (pl_utxos q)"
proof -
  let ?p = "NewUTXOPool (Some \<lparr>ldb_db = [], ldb_closed = False\<rparr>)" and ?tx = "zero_tx\<lparr>tx_TransactionID := ''t1''\<rparr>"
  obtain q where q: "AddUTXO memory_leveldb 5 ?tx 1 ?p = Ret (q, ())"
    using AddUTXO_returns [of ?p memory_leveldb 5 ?tx 1] by (auto simp: NewUTXOPool_def pool_ready_def)
  from AddUTXO_refines_UpdateUTXOSet [OF q, of "[]"] q show ?thesis by (auto simp: NewUTXOPool_def)
qed

text \<open>
  C9. Processing a block has the effect of adding its transactions one by one, in the order in which
  the block lists them: the two leave the same outputs, and the pool's Merkle root is up to date.
\<close>

theorem ProcessBlock_is_AddUTXO_loop:
  assumes "ProcessBlockTransactions L now (Some block) p = Ret (q, b, r)"
    and "add_all L now (map (\<lambda>tx. (tx, h_BlockNumber (b_Header block))) (GetAllTransactions (b_Transactions block))) p' = Ret (q', u)"
    and "pl_utxos p' = pl_utxos p"
  shows "pl_utxos q = pl_utxos q' \<and> pl_merkleRoot q = CalculateMerkleRoot (pl_utxos q')"
  using ProcessBlockTransactions_effect(1,2) [OF assms(1)] add_all_effect [OF assms(2)] assms(3) by simp

theorem ProcessBlock_is_AddUTXO_loop_witness:
  "\<exists>q b r q'. ProcessBlockTransactions memory_leveldb 5 (Some (GenesisBlock 5\<lparr>b_Transactions := Insert (zero_tx\<lparr>tx_TransactionID := ''t1''\<rparr>) NewPatriciaTrie\<rparr>))
        (NewUTXOPool (Some \<lparr>ldb_db = [], ldb_closed = False\<rparr>)) = Ret (q, b, r) \<and>
     add_all memory_leveldb 5 [(zero_tx\<lparr>tx_TransactionID := ''t1''\<rparr>, 0)] (NewUTXOPool (Some \<lparr>ldb_db = [], ldb_closed = False\<rparr>)) = Ret (q', ()) \<and>
     pl_utxos q = pl_utxos q' \<and> pl_merkleRoot q = CalculateMerkleRoot (pl_utxos q')"
proof -
  let ?p = "NewUTXOPool (Some \<lparr>ldb_db = [], ldb_closed = False\<rparr>)" and ?tx = "zero_tx\<lparr>tx_TransactionID := ''t1''\<rparr>"
  let ?b = "GenesisBlock 5\<lparr>b_Transactions := Insert ?tx NewPatriciaTrie\<rparr>"
  have ready: "pl_mu ?p = Unlocked" "pool_ready ?p" by (simp_all add: NewUTXOPool_def pool_ready_def)
  have txs: "GetAllTransactions (b_Transactions ?b) = [?tx]" using trie_of_distinct [of "[?tx]"] by simp
  have "b_mu ?b = Unlocked" by (simp add: GenesisBlock_def new_block_def)
  then obtain q b r where q: "ProcessBlockTransactions memory_leveldb 5 (Some ?b) ?p = Ret (q, b, r)"
    using ProcessBlockTransactions_returns [OF ready] by blast
  obtain q' where q': "add_all memory_leveldb 5 [(?tx, 0)] ?p = Ret (q', ())" using add_all_returns [OF ready] by blast
  moreover have "h_BlockNumber (b_Header ?b) = 0" by (simp add: GenesisBlock_def new_block_def)
  ultimately have "pl_utxos q = pl_utxos q' \<and> pl_merkleRoot q = CalculateMerkleRoot (pl_utxos q')"
    using ProcessBlock_is_AddUTXO_loop [OF q, of ?p q' "()"] txs by simp
  with q q' show ?thesis by blast
qed

text \<open>
  C2. Value is conserved: adding a transaction that spends different unspent outputs, and whose outputs
  are new, changes the unspent value by exactly what its outputs carry minus what it spends. A
  reward spends nothing.
\<close>

theorem AddUTXO_conserves_value:
  assumes "AddUTXO L now tx height p = Ret (q, u)"
    and "distinct (spent_keys tx)" "\<forall>k\<in>set (spent_keys tx). unspent_in (pl_utxos p) k \<noteq> None"
    and "\<forall>(k, c)\<in>set (created tx). unspent_in (pl_utxos p) k = None"
  shows "ledger_value (unspent_in (pl_utxos q)) = ledger_value (unspent_in (pl_utxos p))
    - (\<Sum>k\<leftarrow>spent_keys tx. coin_value (the (unspent_in (pl_utxos p) k))) + (\<Sum>(k, c)\<leftarrow>created tx. coin_value c)"
proof -
  have "fst ` set (created tx) \<inter> dom (unspent_in (pl_utxos p)) = {}" using assms(4) by auto
  moreover have "set (spent_keys tx) \<subseteq> dom (unspent_in (pl_utxos p))" using assms(3) by blast
  ultimately show ?thesis
    using AddUTXO_effect(1) [OF assms(1)] pool_ledger.value_step [of tx "pl_utxos p" height] assms(2) by simp
qed

theorem AddUTXO_conserves_value_witness:
  "\<exists>q. AddUTXO memory_leveldb 5 (zero_tx\<lparr>tx_TransactionID := ''t1'', tx_Inputs := [\<lparr>in_TransactionID = ''t0'', in_OutputIndex = 0, in_Signature = []\<rparr>],
          tx_Outputs := [\<lparr>out_Receiver = ''b'', out_Amount = Fin 7, out_ScriptPubKey = []\<rparr>, \<lparr>out_Receiver = ''a'', out_Amount = Fin 2, out_ScriptPubKey = []\<rparr>]\<rparr>) 1
        (NewUTXOPool (Some \<lparr>ldb_db = [], ldb_closed = False\<rparr>)\<lparr>pl_utxos := [(utxo_key ''t0'' 0, zero_utxo\<lparr>u_TransactionID := ''t0'', u_Amount := Fin 10\<rparr>)]\<rparr>)
      = Ret (q, ()) \<and> ledger_value (unspent_in (pl_utxos q)) = 9"
proof -
  let ?m = "[(utxo_key ''t0'' 0, zero_utxo\<lparr>u_TransactionID := ''t0'', u_Amount := Fin 10\<rparr>)]"
  let ?p = "NewUTXOPool (Some \<lparr>ldb_db = [] :: (string, json) gomap, ldb_closed = False\<rparr>)\<lparr>pl_utxos := ?m\<rparr>"
  let ?tx = "zero_tx\<lparr>tx_TransactionID := ''t1'', tx_Inputs := [\<lparr>in_TransactionID = ''t0'', in_OutputIndex = 0, in_Signature = []\<rparr>],
      tx_Outputs := [\<lparr>out_Receiver = ''b'', out_Amount = Fin 7, out_ScriptPubKey = []\<rparr>, \<lparr>out_Receiver = ''a'', out_Amount = Fin 2, out_ScriptPubKey = []\<rparr>]\<rparr>"
  obtain q where q: "AddUTXO memory_leveldb 5 ?tx 1 ?p = Ret (q, ())"
    using AddUTXO_returns [of ?p memory_leveldb 5 ?tx 1] by (auto simp: NewUTXOPool_def pool_ready_def)
  have keys: "spent_keys ?tx = [utxo_key ''t0'' 0]"
    by (simp add: spent_keys_def zero_tx_def tx_types input_key_def)
  have dom: "dom (unspent_in ?m) = {utxo_key ''t0'' 0}" by (auto simp: unspent_in_def zero_utxo_def split: if_splits)
  have v: "ledger_value (unspent_in ?m) = 10"
    unfolding ledger_value_def dom by (simp add: unspent_in_def zero_utxo_def coin_of_def)
  have "ledger_value (unspent_in (pl_utxos q)) = ledger_value (unspent_in (pl_utxos ?p))
    - (\<Sum>k\<leftarrow>spent_keys ?tx. coin_value (the (unspent_in (pl_utxos ?p) k))) + (\<Sum>(k, c)\<leftarrow>created ?tx. coin_value c)"
    by (rule AddUTXO_conserves_value [OF q])
      (simp_all add: keys unspent_in_def zero_utxo_def created_def utxo_key_def)
  also have "\<dots> = 9"
    unfolding keys by (simp add: v) (simp add: unspent_in_def zero_utxo_def coin_of_def created_def)
  finally show ?thesis using q by blast
qed

end
