(* ===== verification/Pool_Sync.thy ===== *)
theory Pool_Sync
  imports Ledger
begin

text \<open>
  What the pool of outputs promises to synchronising nodes. Its Merkle root depends on the outputs
  only, not on the order of the map, and binds them up to a collision of the digest; a delta that is
  accepted reproduces the root of its sender and a rejected one changes nothing; a snapshot gives
  back the unspent outputs. The lemmas also show where the code does not do what it means to: a
  chunk of a one-output pool that its own sender cannot verify, a proof check that does not end, a
  reorganisation that waits for its own lock, and a balance that depends on the order of the map.
\<close>

section \<open>Roots\<close>

lemma leaf_hashes_perm: "mset m = mset m' \<Longrightarrow> gomap_wf m \<Longrightarrow> leaf_hashes m = leaf_hashes m'"
proof -
  assume perm: "mset m = mset m'" and wf: "gomap_wf m"
  have "sort (map fst m) = sort (map fst m')"
    using perm by (metis mset_map properties_for_sort mset_sort sorted_sort)
  then show ?thesis using map_of_perm [OF perm wf] by (simp add: leaf_hashes_def)
qed

lemma length_leaf_hashes [simp]: "length (leaf_hashes m) = length m"
  by (simp add: leaf_hashes_def)

lemma leaf_hashes_Nil [simp]: "leaf_hashes m = [] \<longleftrightarrow> m = []"
  by (metis length_0_conv length_leaf_hashes)

lemma length_leaf_hash: "\<forall>x\<in>set (leaf_hashes m). length x = 64"
  by (auto simp: leaf_hashes_def)

lemma merkle_loop_single: "xs \<noteq> [] \<Longrightarrow> merkle_loop h xs = [hd (merkle_loop h xs)]"
proof (induction h xs rule: merkle_loop.induct)
  case (1 h hashes)
  show ?case
  proof (cases "length hashes > 1")
    case True
    then have "length (pair_hashes h hashes) \<noteq> 0" by simp
    then have "pair_hashes h hashes \<noteq> []" by (metis length_0_conv)
    then have "merkle_loop h (pair_hashes h hashes) = [hd (merkle_loop h (pair_hashes h hashes))]"
      using 1(1) [OF True] by blast
    then show ?thesis using True by (simp add: merkle_loop.simps [of h hashes])
  next
    case False
    then show ?thesis using 1(2) by (cases hashes) (auto simp: merkle_loop.simps)
  qed
qed

text \<open>The state root of block.go is the root of the pool with a prefix, except for the empty pool.\<close>

lemma calculateStateRoot_eq: "m \<noteq> [] \<Longrightarrow> calculateStateRoot m = Ret (''0x'' @ CalculateMerkleRoot m)"
  using calculateMerkleRoot_eq [of "leaf_hashes m"]
  by (simp add: calculateStateRoot_def CalculateMerkleRoot_def)

text \<open>
  C12. The Merkle root of the pool is a function of its outputs: it does not depend on the order in
  which Go visits the map. It binds them: two pools of the same size with the same root have the same
  leaf data, output by output in the order of the keys, unless the digest has a collision on two of
  the strings that are hashed.
\<close>

theorem CalculateMerkleRoot_binds:
  assumes "gomap_wf m" "length m = length m'" "CalculateMerkleRoot m = CalculateMerkleRoot m'"
  shows "(\<forall>perm. mset perm = mset m \<longrightarrow> CalculateMerkleRoot perm = CalculateMerkleRoot m) \<and>
    (map (\<lambda>key. leaf_data (the (gomap_get m key))) (sort (map fst m)) =
       map (\<lambda>key. leaf_data (the (gomap_get m' key))) (sort (map fst m')) \<or>
     collision hash_hex
       (map (\<lambda>key. leaf_data (the (gomap_get m key))) (sort (map fst m)) @ tree_inputs hash_hex (leaf_hashes m))
       (map (\<lambda>key. leaf_data (the (gomap_get m' key))) (sort (map fst m')) @ tree_inputs hash_hex (leaf_hashes m')))"
    (is "_ \<and> (?l = ?l' \<or> collision hash_hex (?l @ ?t) (?l' @ ?t'))")
proof (intro conjI allI impI)
  fix perm assume p: "mset perm = mset m"
  then have "length perm = length m" by (metis size_mset)
  then show "CalculateMerkleRoot perm = CalculateMerkleRoot m"
    using leaf_hashes_perm [of m perm] p assms(1) by (simp add: CalculateMerkleRoot_def)
next
  have leaves: "leaf_hashes m = map hash_hex ?l" "leaf_hashes m' = map hash_hex ?l'"
    by (simp_all add: leaf_hashes_def comp_def)
  show "?l = ?l' \<or> collision hash_hex (?l @ ?t) (?l' @ ?t')"
  proof (cases "m = []")
    case True
    then show ?thesis using assms(2) by simp
  next
    case False
    then have ne: "leaf_hashes m \<noteq> []" "leaf_hashes m' \<noteq> []" using assms(2) by auto
    then have "hd (merkle_loop hash_hex (leaf_hashes m)) = hd (merkle_loop hash_hex (leaf_hashes m'))"
      using assms(3) by (simp add: CalculateMerkleRoot_def)
    then have "merkle_loop hash_hex (leaf_hashes m) = merkle_loop hash_hex (leaf_hashes m')"
      using merkle_loop_single [OF ne(1), of hash_hex] merkle_loop_single [OF ne(2), of hash_hex] by simp
    then have "leaf_hashes m = leaf_hashes m' \<or> collision hash_hex ?t ?t'"
      using hex_digest.root_binds assms(2) length_leaf_hash by simp
    moreover have "leaf_hashes m = leaf_hashes m' \<Longrightarrow> ?l = ?l' \<or> collision hash_hex ?l ?l'"
      using collision_map [of ?l ?l' hash_hex] leaves assms(2) by simp
    ultimately show ?thesis using collision_append1 collision_append2 by metis
  qed
qed

theorem CalculateMerkleRoot_binds_witness:
  "CalculateMerkleRoot [(''b-0'', zero_utxo), (''a-0'', zero_utxo)] = CalculateMerkleRoot [(''a-0'', zero_utxo), (''b-0'', zero_utxo)]"
  by (rule CalculateMerkleRoot_binds [OF _ refl refl, THEN conjunct1, rule_format])
    (simp_all add: add_mset_commute)

section \<open>Deltas\<close>

lemma check_updates_Some: "check_updates us m = Some m' \<Longrightarrow> m' = fold (\<lambda>(key, u). gomap_put key u) us m"
  by (induction us m rule: check_updates.induct) (auto split: sum.splits)

text \<open>
  C13. A delta is applied as a whole or not at all. When \<open>ApplyDeltaUpdate\<close> succeeds, the outputs are the
  old ones with the updates stored and the deletions removed, every update has a transaction id and
  a positive amount or one that is not a number, and the new Merkle root is the one that the delta
  announces; when it reports an error, the pool is unchanged.
\<close>

theorem ApplyDeltaUpdate_spec:
  assumes "ApplyDeltaUpdate L delta p = Ret (q, r)"
  shows "case r of
      Inr _ \<Rightarrow> pl_utxos q = fold gomap_del (d_UTXODeletions delta) (fold (\<lambda>(key, u). gomap_put key u) (d_UTXOUpdates delta) (pl_utxos p)) \<and>
        pl_merkleRoot q = d_StateRoot delta \<and> pl_merkleRoot q = CalculateMerkleRoot (pl_utxos q) \<and>
        pl_lastUpdateTime q = d_UpdateTimestamp delta
    | Inl e \<Rightarrow> q = p"
proof -
  have mu: "pl_mu p = Unlocked"
    using assms by (cases "pl_mu p") (auto simp: ApplyDeltaUpdate_def VerifyDeltaUpdate_def with_lock_def)
  have p: "p\<lparr>pl_mu := Unlocked\<rparr> = p" using mu by (cases p) simp
  let ?v = "case check_updates (d_UTXOUpdates delta) (pl_utxos p) of
        None \<Rightarrow> Inl InvalidUTXO
      | Some m \<Rightarrow> if CalculateMerkleRoot (fold gomap_del (d_UTXODeletions delta) m) \<noteq> d_StateRoot delta
                  then Inl RootMismatch else Inr ()"
  have v: "VerifyDeltaUpdate delta p = Ret (p, ?v)"
    using mu p by (simp add: VerifyDeltaUpdate_def with_lock_def)
  show ?thesis
  proof (cases ?v)
    case (Inl e)
    then have "q = p" "r = Inl e" using assms v by (simp_all add: ApplyDeltaUpdate_def)
    then show ?thesis by simp
  next
    case (Inr u)
    then obtain m where m: "check_updates (d_UTXOUpdates delta) (pl_utxos p) = Some m"
      "CalculateMerkleRoot (fold gomap_del (d_UTXODeletions delta) m) = d_StateRoot delta"
      by (auto split: option.splits if_splits)
    let ?m = "fold gomap_del (d_UTXODeletions delta) (fold (\<lambda>(key, u). gomap_put key u) (d_UTXOUpdates delta) (pl_utxos p))"
    obtain a where a: "same_outputs (p\<lparr>pl_mu := Locked, pl_utxos := ?m, pl_lastUpdateTime := d_UpdateTimestamp delta,
        pl_merkleRoot := CalculateMerkleRoot ?m\<rparr>) a" "q = a\<lparr>pl_mu := Unlocked\<rparr>" "r = Inr ()"
      using assms v Inr mu
      by (auto simp: ApplyDeltaUpdate_def with_lock_def go_simps Let_def dest!: saveState_same)
    then show ?thesis
      using same_outputs_fields [OF a(1)] m(2) check_updates_Some [OF m(1)] by simp
  qed
qed


theorem ApplyDeltaUpdate_spec_witness:
  "\<exists>q. ApplyDeltaUpdate memory_leveldb \<lparr>d_LastSyncTime = 0, d_UTXOUpdates = [(''a-0'', zero_utxo)], d_UTXODeletions = [],
        d_StateRoot = [], d_UpdateTimestamp = 9\<rparr> (NewUTXOPool None) = Ret (q, Inl InvalidUTXO) \<and> q = NewUTXOPool None"
proof -
  let ?d = "\<lparr>d_LastSyncTime = 0, d_UTXOUpdates = [(''a-0'', zero_utxo)], d_UTXODeletions = [], d_StateRoot = [], d_UpdateTimestamp = 9\<rparr>"
  obtain q where q: "ApplyDeltaUpdate memory_leveldb ?d (NewUTXOPool None) = Ret (q, Inl InvalidUTXO)"
    by (simp add: ApplyDeltaUpdate_def VerifyDeltaUpdate_def with_lock_def NewUTXOPool_def verifyUTXO_def zero_utxo_def)
  from ApplyDeltaUpdate_spec [OF q] q show ?thesis by simp
qed

section \<open>Chunks and proofs\<close>

text \<open>
  C36. A node cannot verify the state it sends: for a pool with one output, the only chunk that
  \<open>GetStateChunks\<close> produces is rejected by \<open>VerifyStateChunk\<close> of the same pool, because the verifier
  hashes the output in another format than the tree does; it is accepted only if the digest has a
  collision on these two strings.
\<close>

theorem own_chunk_rejected:
  assumes "pl_mu p = Unlocked" "pl_utxos p = [(key, u)]" "key = utxo_key (u_TransactionID u) (u_OutputIndex u)"
    and "pl_merkleRoot p = CalculateMerkleRoot (pl_utxos p)" "chunkSize > 0"
  shows "\<exists>chunk. GetStateChunks chunkSize p = Ret (p, [chunk]) \<and> ch_UTXOs chunk = pl_utxos p \<and>
    (VerifyStateChunk chunk p = Ret (Inl InvalidChunkProof) \<or>
     collision hash_hex [key @ '':'' @ show_utxo u] [leaf_data u])"
proof -
  have keys: "sort (map fst (pl_utxos p)) = [key]" by (simp add: assms(2))
  have p: "p\<lparr>pl_mu := Unlocked\<rparr> = p" using assms(1) by (cases p) simp
  define chunk where "chunk = \<lparr>ch_ChunkID = 0, ch_UTXOs = [(key, u)],
      ch_MerkleProof = generateMerkleProofForChunk [key] [key] (pl_utxos p), ch_Total = (1 + chunkSize - 1) div chunkSize\<rparr>"
  have size: "take (nat chunkSize) [key] = [key]" "drop (nat chunkSize) [key] = []" "nat chunkSize \<noteq> 0"
    using assms(5) by (cases "nat chunkSize"; simp)+
  have chunks: "GetStateChunks chunkSize p = Ret (p, [chunk])"
    using assms(1,2,5) p size
    by (simp add: GetStateChunks_def with_lock_def chunk_loop.simps chunk_def gomap_get_or_def Let_def)
  have root: "pl_merkleRoot p = hash_hex (leaf_data u)"
    using assms(2,4) by (simp add: CalculateMerkleRoot_def leaf_hashes_def merkle_loop.simps)
  have "leaf_data u = key @ ''-'' @ u_Owner u @ ''-'' @ show_f64 8 (u_Amount u)"
    by (simp add: leaf_data_def assms(3) utxo_key_def)
  then have diff: "key @ '':'' @ show_utxo u \<noteq> leaf_data u" by simp
  have "VerifyStateChunk chunk p = Ret (if hash_hex (key @ '':'' @ show_utxo u) \<noteq> pl_merkleRoot p then Inl InvalidChunkProof else Inr ())"
    by (simp add: VerifyStateChunk_def chunk_def verify_levels.simps)
  then show ?thesis using chunks root diff by (auto simp: chunk_def assms(2) collision_def)
qed

theorem own_chunk_rejected_witness:
  "\<exists>chunk. GetStateChunks 10 ((NewUTXOPool None :: unit UTXOPool)\<lparr>pl_utxos := [(utxo_key ''t'' 0, zero_utxo\<lparr>u_TransactionID := ''t''\<rparr>)],
       pl_merkleRoot := CalculateMerkleRoot [(utxo_key ''t'' 0, zero_utxo\<lparr>u_TransactionID := ''t''\<rparr>)]\<rparr>)
     = Ret ((NewUTXOPool None :: unit UTXOPool)\<lparr>pl_utxos := [(utxo_key ''t'' 0, zero_utxo\<lparr>u_TransactionID := ''t''\<rparr>)],
       pl_merkleRoot := CalculateMerkleRoot [(utxo_key ''t'' 0, zero_utxo\<lparr>u_TransactionID := ''t''\<rparr>)]\<rparr>, [chunk]) \<and>
     ch_UTXOs chunk = [(utxo_key ''t'' 0, zero_utxo\<lparr>u_TransactionID := ''t''\<rparr>)]"
proof -
  define p :: "unit UTXOPool" where "p = (NewUTXOPool None)\<lparr>pl_utxos := [(utxo_key ''t'' 0, zero_utxo\<lparr>u_TransactionID := ''t''\<rparr>)],
       pl_merkleRoot := CalculateMerkleRoot [(utxo_key ''t'' 0, zero_utxo\<lparr>u_TransactionID := ''t''\<rparr>)]\<rparr>"
  have p: "pl_mu p = Unlocked" "pl_utxos p = [(utxo_key ''t'' 0, zero_utxo\<lparr>u_TransactionID := ''t''\<rparr>)]"
    "pl_merkleRoot p = CalculateMerkleRoot (pl_utxos p)"
    by (simp_all add: p_def NewUTXOPool_def)
  have k: "utxo_key ''t'' 0 = utxo_key (u_TransactionID (zero_utxo\<lparr>u_TransactionID := ''t''\<rparr>)) (u_OutputIndex (zero_utxo\<lparr>u_TransactionID := ''t''\<rparr>))"
    by (simp add: zero_utxo_def)
  obtain chunk where "GetStateChunks 10 p = Ret (p, [chunk])" "ch_UTXOs chunk = pl_utxos p"
    using own_chunk_rejected [OF p(1,2) k p(3), of 10] by auto
  then show ?thesis unfolding p(2) unfolding p_def by blast
qed

lemma pair_hashes_Nil: "pair_hashes h xs = [] \<longleftrightarrow> xs = []"
  by (cases xs rule: pair_inputs.cases) auto

lemma rebuild_result:
  assumes "rebuild stateRoot nodes = Some ns"
  shows "nodes \<noteq> [] \<longrightarrow> ns = [stateRoot]"
proof (rule rebuild.raw_induct [OF _ assms], goal_cases)
  case (1 rebuild stateRoot nodes ns)
  show ?case
  proof (cases "length nodes > 1 \<or> length nodes = 1 \<and> hd nodes \<noteq> stateRoot")
    case True
    then have "rebuild stateRoot (pair_hashes hash_hex nodes) = Some ns" using 1(2) by simp
    from 1(1) [OF this] show ?thesis by (simp add: pair_hashes_Nil)
  next
    case False
    then show ?thesis using 1(2) by (cases nodes) auto
  qed
qed

text \<open>The nodes that the loop goes through are digests, so it ends with a digest.\<close>

lemma rebuild_digest:
  assumes "rebuild stateRoot nodes = Some ns"
  shows "(\<forall>x\<in>set nodes. length x = 64) \<longrightarrow> (\<forall>x\<in>set ns. length x = 64)"
proof (rule rebuild.raw_induct [OF _ assms], goal_cases)
  case (1 rebuild stateRoot nodes ns)
  show ?case
  proof (cases "length nodes > 1 \<or> length nodes = 1 \<and> hd nodes \<noteq> stateRoot")
    case True
    then have "rebuild stateRoot (pair_hashes hash_hex nodes) = Some ns" using 1(2) by simp
    from 1(1) [OF this] show ?thesis using hex_digest.length_pair_digest by blast
  next
    case False
    then show ?thesis using 1(2) by (auto split: if_splits)
  qed
qed

text \<open>
  C27. \<open>verifyMerkleProof\<close> never rejects a chunk with outputs: if it returns at all, it returns true. It
  does not return for a state root that is no digest, for instance an empty one or one with the prefix
  0x.
\<close>

theorem verifyMerkleProof_never_rejects:
  assumes "ch_UTXOs chunk \<noteq> []"
  shows "verifyMerkleProof chunk stateRoot \<noteq> Some False \<and>
    (length stateRoot \<noteq> 64 \<longrightarrow> verifyMerkleProof chunk stateRoot = None)"
proof (cases "rebuild stateRoot (map (\<lambda>(k, u). UTXO_Hash u) (ch_UTXOs chunk))")
  case None
  then show ?thesis by (simp add: verifyMerkleProof_def)
next
  case (Some ns)
  then have "ns = [stateRoot]" using rebuild_result assms by fastforce
  moreover have "\<forall>x\<in>set ns. length x = 64" using rebuild_digest [OF Some] by (auto simp: UTXO_Hash_def)
  ultimately show ?thesis using Some by (simp add: verifyMerkleProof_def)
qed

theorem verifyMerkleProof_never_rejects_witness:
  "verifyMerkleProof \<lparr>ch_ChunkID = 0, ch_UTXOs = [(''a-0'', zero_utxo)], ch_MerkleProof = [], ch_Total = 1\<rparr> ''0x'' = None"
  using verifyMerkleProof_never_rejects
    [of "\<lparr>ch_ChunkID = 0, ch_UTXOs = [(''a-0'', zero_utxo)], ch_MerkleProof = [], ch_Total = 1\<rparr>" "''0x''"] by simp

section \<open>Reorganisation\<close>

lemma add_all_locked:
  assumes "pl_mu p = Locked" "txs \<noteq> []"
  shows "add_all L now txs p = Block"
proof -
  have "AddUTXO L now tx height p = Block" for tx height
    unfolding AddUTXO_def by (rule pool_mu.lock_held_blocks) (simp add: assms(1))
  then show ?thesis using assms(2) by (cases txs) auto
qed

text \<open>
  C40. \<open>HandleReorg\<close> deadlocks whenever there is something to apply: it holds the lock of the pool while it
  calls \<open>AddUTXO\<close>, which asks for it again. If a snapshot for the common block exists and the new chain
  has a transaction after it, the call never returns.
\<close>

theorem HandleReorg_deadlocks:
  assumes "findLastCommonBlock oldChain newChain = Ret common" "common < length newChain"
    and "\<exists>s\<in>set (pl_snapshots p). ss_Height s \<le> of_nat common"
    and "\<exists>b\<in>set (drop (common + 1) newChain). GetAllTransactions (b_Transactions b) \<noteq> []"
  shows "HandleReorg L now oldChain newChain p = Block"
proof (cases "pl_mu p = Unlocked")
  case True
  let ?txs = "concat (map (\<lambda>b. map (\<lambda>tx. (tx, h_BlockNumber (b_Header b))) (GetAllTransactions (b_Transactions b))) (drop (common + 1) newChain))"
  obtain s where s: "find (\<lambda>s. ss_Height s \<le> of_nat common) (rev (pl_snapshots p)) = Some s"
    using assms(3) by (metis (mono_tags, lifting) find_None_iff not_None_eq set_rev)
  have "add_all L now ?txs (p\<lparr>pl_mu := Locked, pl_utxos := ss_UTXOStates s\<rparr>) = Block"
    by (rule add_all_locked) (use assms(4) in auto)
  then show ?thesis
    using True assms(1,2) s by (simp add: HandleReorg_def with_lock_def restoreSnapshot_def)
next
  case False
  then show ?thesis unfolding HandleReorg_def by (rule pool_mu.lock_held_blocks)
qed

theorem HandleReorg_deadlocks_witness:
  "HandleReorg memory_leveldb 9 [GenesisBlock 5]
     [GenesisBlock 5, (GenesisBlock 6)\<lparr>b_Transactions := Insert (zero_tx\<lparr>tx_TransactionID := ''t1''\<rparr>) NewPatriciaTrie\<rparr>]
     ((NewUTXOPool (Some \<lparr>ldb_db = [], ldb_closed = False\<rparr>))\<lparr>pl_snapshots :=
        [\<lparr>ss_Height = 0, ss_UTXOStates = [], ss_BlockHash = [], ss_Timestamp = 0\<rparr>]\<rparr>) = Block"
proof (rule HandleReorg_deadlocks [where common = 0])
  have "b_mu (GenesisBlock 5) = Unlocked" "b_originalHash (GenesisBlock 5) = []"
    by (simp_all add: GenesisBlock_def new_block_def)
  then show "findLastCommonBlock [GenesisBlock 5] [GenesisBlock 5, (GenesisBlock 6)\<lparr>b_Transactions := Insert (zero_tx\<lparr>tx_TransactionID := ''t1''\<rparr>) NewPatriciaTrie\<rparr>] = Ret 0"
    by (simp add: findLastCommonBlock_def Hash_fresh eval_nat_numeral)
qed (use trie_of_distinct [of "[zero_tx\<lparr>tx_TransactionID := ''t1''\<rparr>]"] in auto)

section \<open>Snapshots\<close>

definition utxo_ok :: "UTXO \<Rightarrow> bool" where
  "utxo_ok u \<longleftrightarrow> int64 (u_OutputIndex u) \<and> int64 (u_Timestamp u)"

lemma dec_enc_utxo: "utxo_ok u \<Longrightarrow> enc_utxo u = Some j \<Longrightarrow> dec_utxo j = Some u"
  by (auto simp: enc_utxo_def dec_utxo_def field_def utxo_ok_def enc_float_dec split: option.splits)

lemma dec_enc_snapshot:
  assumes "enc_snapshot s = Some j" "gomap_wf (sn_UTXOs s)" "\<forall>(k, u)\<in>set (sn_UTXOs s). utxo_ok u" "int64 (sn_Timestamp s)"
  shows "\<exists>m. dec_snapshot j = Some (s\<lparr>sn_UTXOs := m\<rparr>) \<and> mset m = mset (sn_UTXOs s)"
proof -
  obtain us where us: "enc_map enc_utxo (sn_UTXOs s) = Some us" using assms(1) by (auto simp: enc_snapshot_def)
  obtain m where "dec_map dec_utxo us = Some m" "mset m = mset (sn_UTXOs s)"
    using dec_enc_map [OF assms(2) us, of dec_utxo] assms(3) dec_enc_utxo by fastforce
  then show ?thesis using us assms(1,4) by (cases s) (auto simp: enc_snapshot_def dec_snapshot_def field_def)
qed




section \<open>Balances and selection\<close>

text \<open>The amounts that \<open>GetBalance\<close> adds up.\<close>

definition owned :: "string \<Rightarrow> utxo_map \<Rightarrow> float64 list" where
  "owned address m = map (\<lambda>(k, u). u_Amount u) (filter (\<lambda>(k, u). u_Owner u = address \<and> \<not> u_Spent u) m)"

lemma GetBalance_fold:
  assumes "pl_mu p = Unlocked"
  shows "GetBalance address p = Ret (p, fold (\<lambda>a b. fadd b a) (owned address (pl_utxos p)) (Fin 0))"
proof -
  have "fold (\<lambda>(k, u) balance. if u_Owner u = address \<and> \<not> u_Spent u then fadd balance (u_Amount u) else balance) m b
      = fold (\<lambda>a b. fadd b a) (owned address m) b" for m b
  proof (induction m arbitrary: b)
    case (Cons x m)
    then show ?case by (cases x) (simp add: owned_def)
  qed (simp add: owned_def)
  moreover have "p\<lparr>pl_mu := Unlocked\<rparr> = p" using assms by (cases p) simp
  ultimately show ?thesis using assms by (simp add: GetBalance_def with_rlock_def)
qed

text \<open>Sums of multiples of \<open>2 powi - 20\<close> below \<open>2 ^ 33\<close> are exact.\<close>

definition dyadic :: "float64 \<Rightarrow> bool" where
  "dyadic x \<longleftrightarrow> (\<exists>n. x = Fin (of_nat n / 2 ^ 20))"

fun rat_of :: "float64 \<Rightarrow> rat" where
  "rat_of (Fin x) = x"
| "rat_of _ = 0"

lemma exact_sum:
  assumes "\<forall>a\<in>set as. dyadic a" "b = of_nat n / 2 ^ 20" "b + (\<Sum>a\<leftarrow>as. rat_of a) \<le> 2 ^ 33"
  shows "fold (\<lambda>a b. fadd b a) as (Fin b) = Fin (b + (\<Sum>a\<leftarrow>as. rat_of a))"
  using assms
proof (induction as arbitrary: b n)
  case (Cons a as)
  then obtain k where k: "a = Fin (of_nat k / 2 ^ 20)" by (auto simp: dyadic_def)
  have pos: "0 \<le> (\<Sum>a\<leftarrow>as. rat_of a)"
    using Cons.prems(1) by (intro sum_list_nonneg) (auto simp: dyadic_def)
  have sum: "b + of_nat k / 2 ^ 20 = of_nat (n + k) / 2 ^ 20" using Cons.prems(2) by (simp add: add_divide_distrib)
  have "of_nat (n + k) / 2 ^ 20 \<le> (2 ^ 33 :: rat)" using Cons.prems(3) pos k sum by simp
  then have "(of_nat (n + k) :: rat) \<le> of_nat (2 ^ 53)" by (simp add: divide_le_eq)
  then have "n + k \<le> 2 ^ 53" by (simp only: of_nat_le_iff)
  then have "representable (b + of_nat k / 2 ^ 20)"
    unfolding sum using representable_dyadic [of "int (n + k)" 20] by simp
  then have add: "fadd (Fin b) a = Fin (b + of_nat k / 2 ^ 20)" unfolding k by (rule fadd_Fin)
  have bound: "b + of_nat k / 2 ^ 20 + (\<Sum>a\<leftarrow>as. rat_of a) \<le> 2 ^ 33"
    using Cons.prems(3) k by (simp add: algebra_simps)
  have "fold (\<lambda>a b. fadd b a) as (Fin (b + of_nat k / 2 ^ 20)) = Fin (b + of_nat k / 2 ^ 20 + (\<Sum>a\<leftarrow>as. rat_of a))"
    by (rule Cons.IH [OF _ sum bound]) (use Cons.prems(1) in simp)
  then show ?case unfolding fold_Cons comp_apply add by (simp add: k add.assoc)
qed simp


text \<open>
  C31. The balance of an address is the sum of its unspent outputs, exactly and in whatever order Go visits
  the map, as long as the amounts are multiples of \<open>2 powi - 20\<close> and their sum is at most \<open>2 ^ 33\<close>.
\<close>

theorem GetBalance_exact:
  assumes "pl_mu p = Unlocked" "\<forall>a\<in>set (owned address (pl_utxos p)). dyadic a"
    and "(\<Sum>a\<leftarrow>owned address (pl_utxos p). rat_of a) \<le> 2 ^ 33"
  shows "GetBalance address p = Ret (p, Fin (\<Sum>a\<leftarrow>owned address (pl_utxos p). rat_of a))"
  using exact_sum [of "owned address (pl_utxos p)" 0 0] assms by (simp add: GetBalance_fold)

theorem GetBalance_exact_witness:
  "GetBalance ''a'' ((NewUTXOPool None :: unit UTXOPool)\<lparr>pl_utxos := [(''x'', zero_utxo\<lparr>u_Owner := ''a'', u_Amount := Fin 50\<rparr>),
       (''y'', zero_utxo\<lparr>u_Owner := ''a'', u_Amount := Fin (1 / 2)\<rparr>), (''z'', zero_utxo\<lparr>u_Owner := ''b'', u_Amount := Fin 7\<rparr>)]\<rparr>)
   = Ret ((NewUTXOPool None)\<lparr>pl_utxos := [(''x'', zero_utxo\<lparr>u_Owner := ''a'', u_Amount := Fin 50\<rparr>),
       (''y'', zero_utxo\<lparr>u_Owner := ''a'', u_Amount := Fin (1 / 2)\<rparr>), (''z'', zero_utxo\<lparr>u_Owner := ''b'', u_Amount := Fin 7\<rparr>)]\<rparr>, Fin (101 / 2))"
proof -
  define p where "p = (NewUTXOPool None :: unit UTXOPool)\<lparr>pl_utxos := [(''x'', zero_utxo\<lparr>u_Owner := ''a'', u_Amount := Fin 50\<rparr>),
       (''y'', zero_utxo\<lparr>u_Owner := ''a'', u_Amount := Fin (1 / 2)\<rparr>), (''z'', zero_utxo\<lparr>u_Owner := ''b'', u_Amount := Fin 7\<rparr>)]\<rparr>"
  have o: "owned ''a'' (pl_utxos p) = [Fin 50, Fin (1 / 2)]" by (simp add: p_def owned_def zero_utxo_def)
  have "dyadic (Fin 50)" "dyadic (Fin (1 / 2))"
    unfolding dyadic_def by (rule exI [of _ 52428800], simp) (rule exI [of _ 524288], simp)
  then have "GetBalance ''a'' p = Ret (p, Fin (\<Sum>a\<leftarrow>owned ''a'' (pl_utxos p). rat_of a))"
    by (intro GetBalance_exact) (simp_all add: o, simp add: p_def NewUTXOPool_def)
  then have "GetBalance ''a'' p = Ret (p, Fin (101 / 2))" by (simp add: o)
  then show ?thesis unfolding p_def .
qed

text \<open>
  For other amounts the balance depends on the order in which Go visits the map: three outputs of
  0.1, 0.2 and 0.3 add up to two different numbers.
\<close>

theorem GetBalance_depends_on_order:
  "\<exists>(p :: unit UTXOPool) (q :: unit UTXOPool) x y. pl_utxos q = rev (pl_utxos p) \<and> gomap_wf (pl_utxos p) \<and>
     owned ''a'' (pl_utxos p) = [round64 (1 / 10), round64 (2 / 10), round64 (3 / 10)] \<and>
     GetBalance ''a'' p = Ret (p, x) \<and> GetBalance ''a'' q = Ret (q, y) \<and> x \<noteq> y"
proof -
  let ?u = "\<lambda>a. zero_utxo\<lparr>u_Owner := ''a'', u_Amount := round64 a\<rparr>"
  let ?m = "[(''x'', ?u (1 / 10)), (''y'', ?u (2 / 10)), (''z'', ?u (3 / 10))]"
  define p where "p = (NewUTXOPool None :: unit UTXOPool)\<lparr>pl_utxos := ?m\<rparr>"
  define q where "q = (NewUTXOPool None :: unit UTXOPool)\<lparr>pl_utxos := rev ?m\<rparr>"
  have o: "owned ''a'' (pl_utxos p) = [round64 (1 / 10), round64 (2 / 10), round64 (3 / 10)]"
    "owned ''a'' (pl_utxos q) = [round64 (3 / 10), round64 (2 / 10), round64 (1 / 10)]"
    by (simp_all add: p_def q_def owned_def zero_utxo_def)
  let ?x = "fadd (fadd (fadd (Fin 0) (round64 (1 / 10))) (round64 (2 / 10))) (round64 (3 / 10))"
  let ?y = "fadd (fadd (fadd (Fin 0) (round64 (3 / 10))) (round64 (2 / 10))) (round64 (1 / 10))"
  have mu: "pl_mu p = Unlocked" "pl_mu q = Unlocked" by (simp_all add: p_def q_def NewUTXOPool_def)
  have "GetBalance ''a'' p = Ret (p, ?x)" "GetBalance ''a'' q = Ret (q, ?y)"
    unfolding GetBalance_fold [OF mu(1)] GetBalance_fold [OF mu(2)] o by simp_all
  moreover have "?x \<noteq> ?y" by (simp add: float_eval)
  moreover have "pl_utxos q = rev (pl_utxos p)" "gomap_wf (pl_utxos p)" by (simp_all add: p_def q_def)
  ultimately show ?thesis using o(1) by blast
qed


definition amount_sum :: "UTXO list \<Rightarrow> float64" where
  "amount_sum us = fold (\<lambda>u b. fadd b (u_Amount u)) us (Fin 0)"

lemma select_loop_prefix:
  "\<exists>pre post. filter (\<lambda>u. \<not> u_Spent u) us = pre @ post \<and>
     select_loop needed us sel t = (sel @ pre, fold (\<lambda>u b. fadd b (u_Amount u)) pre t) \<and>
     (post = [] \<or> fle needed (fold (\<lambda>u b. fadd b (u_Amount u)) pre t))"
proof (induction us arbitrary: sel t)
  case (Cons u us)
  show ?case
  proof (cases "u_Spent u \<or> \<not> fle needed (fadd t (u_Amount u))")
    case False
    then show ?thesis
      by (intro exI [of _ "[u]"] exI [of _ "filter (\<lambda>u. \<not> u_Spent u) us"]) (simp add: Let_def)
  next
    case True
    then show ?thesis
    proof (cases "u_Spent u")
      case True
      then show ?thesis using Cons [of sel t] by simp
    next
      case False
      obtain pre post where "filter (\<lambda>u. \<not> u_Spent u) us = pre @ post"
        "select_loop needed us (sel @ [u]) (fadd t (u_Amount u)) = ((sel @ [u]) @ pre, fold (\<lambda>u b. fadd b (u_Amount u)) pre (fadd t (u_Amount u)))"
        "post = [] \<or> fle needed (fold (\<lambda>u b. fadd b (u_Amount u)) pre (fadd t (u_Amount u)))"
        using Cons [of "sel @ [u]" "fadd t (u_Amount u)"] by blast
      then show ?thesis using False True by (intro exI [of _ "u # pre"] exI [of _ post]) (simp add: Let_def)
    qed
  qed
qed simp

lemma fold_AddInput:
  "fold (\<lambda>u. AddInput (u_TransactionID u) (u_OutputIndex u) []) us tx =
    tx\<lparr>tx_Inputs := tx_Inputs tx @ map (\<lambda>u. \<lparr>in_TransactionID = u_TransactionID u, in_OutputIndex = u_OutputIndex u, in_Signature = []\<rparr>) us\<rparr>"
  by (induction us arbitrary: tx) (simp_all add: AddInput_def)




end
