(* ===== verification/Mempool.thy ===== *)
theory Mempool
  imports Utxo
begin

text \<open>
  The pool of unconfirmed transactions (\<open>src/blockchain/mempool.go\<close>): a list of transactions under a
  lock, with a bound. The transactions, the outputs they are validated against, the registered
  public keys and the time are explicit; what a peer sends over the network is an argument of the
  operations that receive it.

  The lemmas characterise the validation and the insertion completely, and show by induction over
  all runs of the local operations that the pool never holds an id twice nor more than its bound;
  the operations that merge a peer's transactions keep neither.
\<close>

section \<open>State\<close>

record Mempool =
  mp_Transactions :: "Transaction list"
  mp_mu :: rwmutex
  mp_maxSize :: int
  mp_timeouts :: "(string, int) gomap"

abbreviation set_mp_mu :: "rwmutex \<Rightarrow> Mempool \<Rightarrow> Mempool" where
  "set_mp_mu l m \<equiv> m\<lparr>mp_mu := l\<rparr>"

interpretation mempool_mu: mutexed mp_mu set_mp_mu
  by unfold_locales auto

type_synonym keys = "(string, PublicKey option) gomap"

definition NewMempool :: Mempool where
  "NewMempool = \<lparr>mp_Transactions = [], mp_mu = Unlocked, mp_maxSize = 1000, mp_timeouts = []\<rparr>"

text \<open>The orders of the various sorts: by fee, by fee and age, by gas price.\<close>

definition by_fee :: "Transaction \<Rightarrow> Transaction \<Rightarrow> bool" where
  "by_fee s t = flt (tx_GasFee t) (tx_GasFee s)"

definition by_fee_and_time :: "Transaction \<Rightarrow> Transaction \<Rightarrow> bool" where
  "by_fee_and_time s t =
    (if feq (tx_GasFee s) (tx_GasFee t) then tx_Timestamp s > tx_Timestamp t
     else flt (tx_GasFee t) (tx_GasFee s))"

definition by_gas_price :: "Transaction \<Rightarrow> Transaction \<Rightarrow> bool" where
  "by_gas_price s t = (tx_GasPrice s > tx_GasPrice t)"

text \<open>The age of a transaction, whose timestamp is in seconds.\<close>

definition age :: "int \<Rightarrow> Transaction \<Rightarrow> int" where
  "age now_ns tx = elapsed now_ns (tx_Timestamp tx * second)"

definition priority :: "int \<Rightarrow> Transaction \<Rightarrow> float64" where
  "priority now_ns tx =
    fmul (tx_GasFee tx) (fadd (Fin 1) (fdiv (duration_in minute (age now_ns tx)) (Fin 1440)))"

definition by_priority :: "int \<Rightarrow> Transaction \<Rightarrow> Transaction \<Rightarrow> bool" where
  "by_priority now_ns s t = flt (priority now_ns t) (priority now_ns s)"

section \<open>Validation\<close>

text \<open>The sum of the inputs, when each refers to an unspent output of the sender.\<close>

fun input_sum :: "utxo_map \<Rightarrow> string \<Rightarrow> TransactionInput list \<Rightarrow> float64 \<Rightarrow> float64 option" where
  "input_sum utxos sender [] inputSum = Some inputSum"
| "input_sum utxos sender (i # is) inputSum =
    (case gomap_get utxos (input_key i) of
       None \<Rightarrow> None
     | Some u \<Rightarrow>
         if u_Owner u \<noteq> sender then None
         else if u_Spent u then None
         else input_sum utxos sender is (fadd inputSum (u_Amount u)))"

definition stake_shape :: "Transaction \<Rightarrow> bool" where
  "stake_shape tx \<longleftrightarrow> length (tx_Inputs tx) \<noteq> 0 \<and> length (tx_Outputs tx) \<noteq> 0 \<and>
     out_Receiver (hd (tx_Outputs tx)) = tx_Sender tx"

definition total_required :: "Transaction \<Rightarrow> float64" where
  "total_required tx =
    (if tx_TxType tx = TX_STAKE then tx_Amount tx
     else fadd (tx_Amount tx) (ConvertGasToTokens (tx_GasLimit tx * tx_MaxFeePerGas tx)))"

definition ValidateTransaction :: "keys \<Rightarrow> Transaction \<Rightarrow> utxo_map \<Rightarrow> bool go" where
  "ValidateTransaction keys tx utxos =
    (if IsCoinbase tx \<or> IsValidatorReward tx then Ret True
     else case tx_ValidateGas tx of
       Inl _ \<Rightarrow> Ret False
     | Inr _ \<Rightarrow>
         if tx_TxType tx = TX_STAKE \<and> \<not> stake_shape tx then Ret False
         else case input_sum utxos (tx_Sender tx) (tx_Inputs tx) (Fin 0) of
           None \<Rightarrow> Ret False
         | Some inputSum \<Rightarrow>
             if flt inputSum (total_required tx) then Ret False
             else tx_VerifySignature keys tx)"

section \<open>Operations\<close>

definition has_id :: "string \<Rightarrow> Transaction list \<Rightarrow> bool" where
  "has_id txID txs = (\<exists>t\<in>set txs. tx_TransactionID t = txID)"

definition mempool_AddTransaction :: "keys \<Rightarrow> Transaction \<Rightarrow> utxo_map \<Rightarrow> Mempool \<Rightarrow> (Mempool \<times> bool) go" where
  "mempool_AddTransaction keys tx utxoSet = with_lock mp_mu set_mp_mu (\<lambda>m.
    if has_id (tx_TransactionID tx) (mp_Transactions m) then Ret (m, False)
    else go_bind (ValidateTransaction keys tx utxoSet) (\<lambda>valid.
      if \<not> valid then Ret (m, False)
      else if int (length (mp_Transactions m)) \<ge> mp_maxSize m then
        (let sorted = SliceStable by_fee (mp_Transactions m) in
         if sorted = [] then Panic
         else if flt (tx_GasFee (last sorted)) (tx_GasFee tx) then
           Ret (m\<lparr>mp_Transactions := SliceStable by_fee (butlast sorted @ [tx])\<rparr>, True)
         else Ret (m\<lparr>mp_Transactions := sorted\<rparr>, False))
      else Ret (m\<lparr>mp_Transactions := SliceStable by_fee (mp_Transactions m @ [tx])\<rparr>, True)))"

definition GetTransactions :: "Mempool \<Rightarrow> (Mempool \<times> Transaction list) go" where
  "GetTransactions = with_lock mp_mu set_mp_mu (\<lambda>m. Ret (m, mp_Transactions m))"

definition Clear :: "Mempool \<Rightarrow> (Mempool \<times> unit) go" where
  "Clear = with_lock mp_mu set_mp_mu (\<lambda>m. Ret (m\<lparr>mp_Transactions := []\<rparr>, ()))"

definition RemoveTransaction :: "string \<Rightarrow> Mempool \<Rightarrow> (Mempool \<times> unit) go" where
  "RemoveTransaction txID = with_lock mp_mu set_mp_mu (\<lambda>m.
    Ret (m\<lparr>mp_Transactions := filter (\<lambda>tx. tx_TransactionID tx \<noteq> txID) (mp_Transactions m)\<rparr>, ()))"

text \<open>\<open>sort.Slice\<close> leaves the order of equal fees open; this is one of the orders it may produce.\<close>

definition PrioritizeTransactions :: "Mempool \<Rightarrow> (Mempool \<times> unit) go" where
  "PrioritizeTransactions = with_lock mp_mu set_mp_mu (\<lambda>m.
    Ret (m\<lparr>mp_Transactions := SliceStable by_fee (mp_Transactions m)\<rparr>, ()))"

definition GetPrioritizedTransactions :: "int \<Rightarrow> int \<Rightarrow> Mempool \<Rightarrow> (Mempool \<times> Transaction list) go" where
  "GetPrioritizedTransactions now_ns limit = with_rlock mp_mu set_mp_mu (\<lambda>m.
    let txCopy = SliceStable (by_priority now_ns) (mp_Transactions m);
        limit' = (if limit > int (length txCopy) then int (length txCopy) else limit)
    in if limit' < 0 then Panic else Ret (m, take (nat limit') txCopy))"

definition ClearProcessedTransactions :: "string list \<Rightarrow> Mempool \<Rightarrow> (Mempool \<times> unit) go" where
  "ClearProcessedTransactions processedTxs = with_lock mp_mu set_mp_mu (\<lambda>m.
    Ret (m\<lparr>mp_Transactions := filter (\<lambda>tx. tx_TransactionID tx \<notin> set processedTxs) (mp_Transactions m)\<rparr>, ()))"

definition SortByGasPrice :: "Mempool \<Rightarrow> (Mempool \<times> unit) go" where
  "SortByGasPrice = with_lock mp_mu set_mp_mu (\<lambda>m.
    Ret (m\<lparr>mp_Transactions := SliceStable by_gas_price (mp_Transactions m)\<rparr>, ()))"

section \<open>Synchronisation\<close>

definition evictOldTransactions :: "Mempool \<Rightarrow> Mempool" where
  "evictOldTransactions m =
    (let sorted = SliceStable by_fee_and_time (mp_Transactions m)
     in m\<lparr>mp_Transactions := (if int (length sorted) > mp_maxSize m then take (nat (mp_maxSize m)) sorted else sorted)\<rparr>)"

definition day :: int where "day = 24 * hour"

definition validateAndAddTransaction :: "int \<Rightarrow> Transaction \<Rightarrow> Mempool \<Rightarrow> Mempool \<times> bool" where
  "validateAndAddTransaction now_ns tx m =
    (if age now_ns tx > day then (m, False)
     else let m = (if int (length (mp_Transactions m)) \<ge> mp_maxSize m then evictOldTransactions m else m)
          in (m\<lparr>mp_timeouts := gomap_put (tx_TransactionID tx) (now_ns + day) (mp_timeouts m),
                mp_Transactions := mp_Transactions m @ [tx]\<rparr>, True))"

text \<open>The ids that are present are collected once, before the loop.\<close>

definition SyncMempool :: "int \<Rightarrow> Transaction list \<Rightarrow> Mempool \<Rightarrow> (Mempool \<times> unit) go" where
  "SyncMempool now_ns peerMempool = with_lock mp_mu set_mp_mu (\<lambda>m.
    let existingTxs = set (map tx_TransactionID (mp_Transactions m))
    in Ret (fold (\<lambda>tx m. if tx_TransactionID tx \<in> existingTxs then m else fst (validateAndAddTransaction now_ns tx m))
              peerMempool m, ()))"

record MempoolSync =
  ms_Transactions :: "Transaction list"
  ms_StateRoot :: string
  ms_Timestamp :: int
  ms_LastSyncTime :: int
  ms_PeerID :: string

definition mempool_root :: "Transaction list \<Rightarrow> string" where
  "mempool_root txs = (if length txs = 0 then [] else hash_hex (concat (map tx_Hash txs)))"

text \<open>
  \<open>GetMempoolSync\<close> gives its read lock back while it sorts its copy; \<open>others\<close> is what other goroutines do
  to the pool in between.
\<close>

definition GetMempoolSync :: "int \<Rightarrow> (Mempool \<Rightarrow> Mempool) \<Rightarrow> Mempool \<Rightarrow> (Mempool \<times> MempoolSync) go" where
  "GetMempoolSync now others m =
    go_bind (with_rlock mp_mu set_mp_mu (\<lambda>m. Ret (m, mp_Transactions m)) m) (\<lambda>(m, txCopy).
      with_rlock mp_mu set_mp_mu (\<lambda>m.
        Ret (m, \<lparr>ms_Transactions = SliceStable by_fee_and_time txCopy, ms_StateRoot = mempool_root (mp_Transactions m),
          ms_Timestamp = now, ms_LastSyncTime = 0, ms_PeerID = []\<rparr>)) (others m))"

text \<open>Append the transactions that validate against no outputs at all, as both kinds of synchronisation do.\<close>

fun append_valid :: "keys \<Rightarrow> Transaction list \<Rightarrow> Transaction list \<Rightarrow> Transaction list go" where
  "append_valid keys [] acc = Ret acc"
| "append_valid keys (tx # txs) acc =
    go_bind (ValidateTransaction keys tx []) (\<lambda>valid.
      append_valid keys txs (if valid then acc @ [tx] else acc))"

datatype mempool_error = StreamFailed | SendFailed | ReceiveFailed | StateRootMismatch

definition ApplySync :: "keys \<Rightarrow> MempoolSync \<Rightarrow> Mempool \<Rightarrow> (Mempool \<times> (mempool_error + unit)) go" where
  "ApplySync keys sync = with_lock mp_mu set_mp_mu (\<lambda>m.
    go_bind (append_valid keys (ms_Transactions sync) []) (\<lambda>txs.
      Ret (m\<lparr>mp_Transactions := txs\<rparr>, if mempool_root txs \<noteq> ms_StateRoot sync then Inl StateRootMismatch else Inr ())))"

definition GetDeltaSync :: "int \<Rightarrow> int \<Rightarrow> Mempool \<Rightarrow> (Mempool \<times> MempoolSync) go" where
  "GetDeltaSync now lastSyncTime = with_rlock mp_mu set_mp_mu (\<lambda>m.
    Ret (m, \<lparr>ms_Transactions = filter (\<lambda>tx. tx_Timestamp tx > lastSyncTime) (mp_Transactions m),
      ms_StateRoot = mempool_root (mp_Transactions m), ms_Timestamp = now, ms_LastSyncTime = lastSyncTime, ms_PeerID = []\<rparr>))"

definition removeExpiredTransactions :: "int \<Rightarrow> Transaction list \<Rightarrow> Transaction list" where
  "removeExpiredTransactions lastSyncTime txs = filter (\<lambda>tx. tx_Timestamp tx > lastSyncTime) txs"

definition ApplyDeltaSync :: "keys \<Rightarrow> MempoolSync \<Rightarrow> Mempool \<Rightarrow> (Mempool \<times> (mempool_error + unit)) go" where
  "ApplyDeltaSync keys delta = with_lock mp_mu set_mp_mu (\<lambda>m.
    go_bind (append_valid keys (ms_Transactions delta) (removeExpiredTransactions (ms_LastSyncTime delta) (mp_Transactions m))) (\<lambda>txs.
      Ret (m\<lparr>mp_Transactions := txs\<rparr>, if mempool_root txs \<noteq> ms_StateRoot delta then Inl StateRootMismatch else Inr ())))"

text \<open>
  \<open>answer\<close> is what the exchange with the peer yields: an error, or the peer's transactions. The lock is
  taken for reading once the stream is open, to log the pool.
\<close>

definition merge_tx :: "Transaction \<Rightarrow> Transaction list \<Rightarrow> Transaction list" where
  "merge_tx peerTx txs = (if has_id (tx_TransactionID peerTx) txs then txs else txs @ [peerTx])"

definition SyncWithPeer :: "mempool_error + Transaction list \<Rightarrow> Mempool \<Rightarrow> (Mempool \<times> (mempool_error + unit)) go" where
  "SyncWithPeer answer m =
    (if answer = Inl StreamFailed then Ret (m, Inl StreamFailed)
     else go_bind (with_rlock mp_mu set_mp_mu (\<lambda>m. Ret (m, ())) m) (\<lambda>(m, _).
       case answer of
         Inl e \<Rightarrow> Ret (m, Inl e)
       | Inr peerTransactions \<Rightarrow> with_lock mp_mu set_mp_mu (\<lambda>m.
           Ret (m\<lparr>mp_Transactions := fold merge_tx peerTransactions (mp_Transactions m)\<rparr>, Inr ())) m))"

section \<open>Insertion\<close>

lemma sorted_by_fee:
  assumes "\<forall>t\<in>set txs. tx_GasFee t \<noteq> NaN"
  shows "sorted_wrt (\<lambda>s t. fle (tx_GasFee t) (tx_GasFee s)) (SliceStable by_fee txs)"
proof -
  have "\<forall>s\<in>set txs. \<forall>t\<in>set txs. fle (tx_GasFee s) (tx_GasFee t) \<or> fle (tx_GasFee t) (tx_GasFee s)"
    using assms fle_total by blast
  then have "sorted_wrt (\<lambda>s t. \<not> by_fee t s) (SliceStable by_fee txs)"
    by (intro sorted_SliceStable) (use assms in \<open>auto simp: by_fee_def flt_not_fle intro: fle_trans\<close>)
  then show ?thesis
    by (rule sorted_wrt_mono_rel [rotated]) (use assms in \<open>auto simp: by_fee_def flt_not_fle\<close>)
qed

lemma last_has_lowest_fee:
  assumes "\<forall>t\<in>set txs. tx_GasFee t \<noteq> NaN" "t \<in> set txs"
  shows "fle (tx_GasFee (last (SliceStable by_fee txs))) (tx_GasFee t)"
proof -
  obtain us u where snoc: "SliceStable by_fee txs = us @ [u]"
    using assms(2) by (metis append_butlast_last_id length_pos_if_in_set length_SliceStable length_greater_0_conv)
  have "t \<in> set (us @ [u])" using assms(2) snoc by (metis set_SliceStable)
  moreover have "fle (tx_GasFee u) (tx_GasFee u)"
    using assms(1) snoc by (metis fle_refl in_set_conv_decomp set_SliceStable)
  ultimately show ?thesis
    using sorted_by_fee [OF assms(1)] by (auto simp: snoc sorted_wrt_append)
qed

lemma mset_butlast_SliceStable:
  assumes "txs \<noteq> []"
  shows "mset (butlast (SliceStable lt txs)) = mset txs - {#last (SliceStable lt txs)#}"
    and "last (SliceStable lt txs) \<in> set txs"
proof -
  have ne: "SliceStable lt txs \<noteq> []" using assms by (metis length_0_conv length_SliceStable)
  have "mset txs = mset (butlast (SliceStable lt txs) @ [last (SliceStable lt txs)])"
    unfolding append_butlast_last_id [OF ne] by simp
  then show "mset (butlast (SliceStable lt txs)) = mset txs - {#last (SliceStable lt txs)#}" by simp
  show "last (SliceStable lt txs) \<in> set txs" using last_in_set [OF ne] by simp
qed

lemma AddTransaction_eq:
  assumes "mp_mu m = Unlocked" "0 < mp_maxSize m" "ValidateTransaction keys tx utxos = Ret valid"
  shows "mempool_AddTransaction keys tx utxos m =
    (if has_id (tx_TransactionID tx) (mp_Transactions m) \<or> \<not> valid then Ret (m, False)
     else if int (length (mp_Transactions m)) < mp_maxSize m then
       Ret (m\<lparr>mp_Transactions := SliceStable by_fee (mp_Transactions m @ [tx])\<rparr>, True)
     else if flt (tx_GasFee (last (SliceStable by_fee (mp_Transactions m)))) (tx_GasFee tx) then
       Ret (m\<lparr>mp_Transactions := SliceStable by_fee (butlast (SliceStable by_fee (mp_Transactions m)) @ [tx])\<rparr>, True)
     else Ret (m\<lparr>mp_Transactions := SliceStable by_fee (mp_Transactions m)\<rparr>, False))"
  using assms
  by (auto simp: mempool_AddTransaction_def mempool_mu.lock_enters Let_def simp flip: length_0_conv)

lemma AddTransaction_returns:
  assumes "mempool_AddTransaction keys tx utxos m = Ret (m', ok)"
  shows "has_id (tx_TransactionID tx) (mp_Transactions m) \<and> m' = m \<or> (\<exists>valid. ValidateTransaction keys tx utxos = Ret valid)"
  using assms mempool_mu.set_mu_same [of m]
  by (cases "ValidateTransaction keys tx utxos"; cases "mp_mu m")
    (auto simp: mempool_AddTransaction_def with_lock_def split: if_splits)

text \<open>
  C10. What \<open>AddTransaction\<close> does to a pool whose fees are numbers, on every branch. It accepts a
  transaction exactly when its id is new, it validates, and there is room or it pays strictly more than
  some transaction of the pool. A rejected transaction leaves the contents as they were. An accepted
  one is added, at the price of one transaction with the lowest fee when the pool is full, and the pool
  is then sorted by fee.
\<close>

theorem mempool_AddTransaction_spec:
  assumes "mp_mu m = Unlocked" "0 < mp_maxSize m" "ValidateTransaction keys tx utxos = Ret valid"
    and "\<forall>t\<in>set (mp_Transactions m). tx_GasFee t \<noteq> NaN" "tx_GasFee tx \<noteq> NaN"
  shows "\<exists>m' ok. mempool_AddTransaction keys tx utxos m = Ret (m', ok) \<and>
    (ok \<longleftrightarrow> \<not> has_id (tx_TransactionID tx) (mp_Transactions m) \<and> valid \<and>
       (int (length (mp_Transactions m)) < mp_maxSize m \<or>
        (\<exists>t\<in>set (mp_Transactions m). flt (tx_GasFee t) (tx_GasFee tx)))) \<and>
    (\<not> ok \<longrightarrow> mset (mp_Transactions m') = mset (mp_Transactions m)) \<and>
    (ok \<longrightarrow> sorted_wrt (\<lambda>s t. fle (tx_GasFee t) (tx_GasFee s)) (mp_Transactions m') \<and>
       (if int (length (mp_Transactions m)) < mp_maxSize m
        then mset (mp_Transactions m') = add_mset tx (mset (mp_Transactions m))
        else \<exists>lowest\<in>set (mp_Transactions m).
          (\<forall>t\<in>set (mp_Transactions m). fle (tx_GasFee lowest) (tx_GasFee t)) \<and>
          mset (mp_Transactions m') = add_mset tx (mset (mp_Transactions m) - {#lowest#})))"
proof -
  let ?txs = "mp_Transactions m" and ?low = "last (SliceStable by_fee (mp_Transactions m))"
  note enter = AddTransaction_eq [OF assms(1-3)]
  show ?thesis
  proof (cases "int (length ?txs) < mp_maxSize m")
    case True
    have "sorted_wrt (\<lambda>s t. fle (tx_GasFee t) (tx_GasFee s)) (SliceStable by_fee (?txs @ [tx]))"
      using assms(4,5) by (intro sorted_by_fee) auto
    with True show ?thesis by (simp add: enter)
  next
    case False
    then have ne: "?txs \<noteq> []" using assms(2) by auto
    note low = mset_butlast_SliceStable [OF ne, of by_fee]
    have sorted: "sorted_wrt (\<lambda>s t. fle (tx_GasFee t) (tx_GasFee s)) (SliceStable by_fee (butlast (SliceStable by_fee ?txs) @ [tx]))"
      using assms(4,5) in_set_butlastD by (intro sorted_by_fee) fastforce
    have lowest: "\<forall>t\<in>set ?txs. fle (tx_GasFee ?low) (tx_GasFee t)"
      using last_has_lowest_fee [OF assms(4)] by blast
    then have "(\<exists>t\<in>set ?txs. flt (tx_GasFee t) (tx_GasFee tx)) \<longleftrightarrow> flt (tx_GasFee ?low) (tx_GasFee tx)"
      using low(2) fle_flt_trans by blast
    then show ?thesis using False sorted lowest low by (auto simp: enter)
  qed
qed


theorem mempool_AddTransaction_spec_witness:
  "\<exists>m'. mempool_AddTransaction [] (zero_tx\<lparr>tx_TxType := TX_COINBASE\<rparr>) [] NewMempool = Ret (m', True) \<and>
    mset (mp_Transactions m') = {#zero_tx\<lparr>tx_TxType := TX_COINBASE\<rparr>#}"
proof -
  have "ValidateTransaction [] (zero_tx\<lparr>tx_TxType := TX_COINBASE\<rparr>) [] = Ret True"
    by (simp add: ValidateTransaction_def IsCoinbase_def)
  from mempool_AddTransaction_spec [OF _ _ this, of NewMempool] show ?thesis
    by (auto simp: NewMempool_def zero_tx_def has_id_def)
qed

section \<open>The pool over its life\<close>

text \<open>One call of an operation that changes the pool locally, with any arguments.\<close>

inductive mempool_step :: "Mempool \<Rightarrow> Mempool \<Rightarrow> bool" where
  add: "mempool_AddTransaction keys tx utxos m = Ret (m', ok) \<Longrightarrow> mempool_step m m'"
| remove: "RemoveTransaction txID m = Ret (m', ()) \<Longrightarrow> mempool_step m m'"
| clear: "Clear m = Ret (m', ()) \<Longrightarrow> mempool_step m m'"
| processed: "ClearProcessedTransactions ids m = Ret (m', ()) \<Longrightarrow> mempool_step m m'"
| prioritize: "PrioritizeTransactions m = Ret (m', ()) \<Longrightarrow> mempool_step m m'"
| sort: "SortByGasPrice m = Ret (m', ()) \<Longrightarrow> mempool_step m m'"

definition checked :: "Transaction \<Rightarrow> bool" where
  "checked tx \<longleftrightarrow> IsCoinbase tx \<or> IsValidatorReward tx \<or> tx_ValidateGas tx = Inr ()"

definition mempool_wf :: "Mempool \<Rightarrow> bool" where
  "mempool_wf m \<longleftrightarrow> mp_mu m = Unlocked \<and> mp_maxSize m = 1000 \<and> length (mp_Transactions m) \<le> 1000 \<and>
     distinct (map tx_TransactionID (mp_Transactions m)) \<and> (\<forall>tx\<in>set (mp_Transactions m). checked tx)"

lemma wf_NewMempool: "mempool_wf NewMempool"
  by (simp add: mempool_wf_def NewMempool_def)

lemma ValidateTransaction_checked: "ValidateTransaction keys tx utxos = Ret True \<Longrightarrow> checked tx"
  by (auto simp: ValidateTransaction_def checked_def split: if_splits sum.splits)

text \<open>The contents of a well-formed pool only matter up to their order, and may shrink.\<close>

lemma distinct_subseteq_mset:
  assumes "distinct ys" "mset xs \<subseteq># mset ys"
  shows "distinct xs"
proof -
  obtain A where A: "mset ys = mset xs + A" using assms(2) by (auto simp: mset_subset_eq_exists_conv)
  obtain zs where "mset zs = A" using ex_mset by blast
  with A have "distinct (xs @ zs)"
    using assms(1) mset_eq_imp_distinct_iff [of ys "xs @ zs"] by simp
  then show ?thesis by simp
qed

lemma wf_smaller:
  assumes "mempool_wf m" "mset txs \<subseteq># mset (mp_Transactions m)"
  shows "mempool_wf (m\<lparr>mp_Transactions := txs\<rparr>)"
proof -
  have "mset (map tx_TransactionID txs) \<subseteq># mset (map tx_TransactionID (mp_Transactions m))"
    unfolding mset_map using assms(2) by (rule image_mset_subseteq_mono)
  moreover have "distinct (map tx_TransactionID (mp_Transactions m))"
    using assms(1) unfolding mempool_wf_def by blast
  ultimately have ids: "distinct (map tx_TransactionID txs)" by (rule distinct_subseteq_mset [rotated])
  have len: "length txs \<le> length (mp_Transactions m)" using size_mset_mono [OF assms(2)] by simp
  have sub: "set txs \<subseteq> set (mp_Transactions m)" using set_mset_mono [OF assms(2)] by simp
  show ?thesis
    using assms(1) ids len sub unfolding mempool_wf_def by (simp add: subset_iff)
qed

lemma wf_add:
  assumes "mempool_wf (m\<lparr>mp_Transactions := txs\<rparr>)" "checked tx" "\<not> has_id (tx_TransactionID tx) txs" "length txs < 1000"
    and "mset txs' = add_mset tx (mset txs)"
  shows "mempool_wf (m\<lparr>mp_Transactions := txs'\<rparr>)"
proof -
  have m: "mset txs' = mset (tx # txs)" using assms(5) by simp
  have "mset (map tx_TransactionID txs') = mset (map tx_TransactionID (tx # txs))"
    using m by (metis mset_map)
  then have "distinct (map tx_TransactionID txs') = distinct (map tx_TransactionID (tx # txs))"
    by (rule mset_eq_imp_distinct_iff)
  then show ?thesis
    using assms mset_eq_length [OF m] mset_eq_setD [OF m] by (auto simp: mempool_wf_def has_id_def)
qed

lemma wf_replace_lowest:
  assumes "mempool_wf m" "checked tx" "\<not> has_id (tx_TransactionID tx) (mp_Transactions m)" "mp_Transactions m \<noteq> []"
  shows "mempool_wf (m\<lparr>mp_Transactions := SliceStable by_fee (butlast (SliceStable by_fee (mp_Transactions m)) @ [tx])\<rparr>)"
    (is "mempool_wf (m\<lparr>mp_Transactions := SliceStable by_fee (?kept @ [tx])\<rparr>)")
proof (rule wf_add [of ?kept m tx])
  show "mempool_wf (m\<lparr>mp_Transactions := ?kept\<rparr>)"
    using mset_butlast_SliceStable(1) [OF assms(4), of by_fee] by (intro wf_smaller assms(1)) simp
  show "length ?kept < 1000"
    using assms(1,4) unfolding mempool_wf_def by (cases "mp_Transactions m") simp_all
  show "\<not> has_id (tx_TransactionID tx) ?kept"
    using assms(3) in_set_butlastD [of _ "SliceStable by_fee (mp_Transactions m)"] unfolding has_id_def by auto
qed (simp_all add: assms(2))

lemma wf_AddTransaction:
  assumes "mempool_wf m" "mempool_AddTransaction keys tx utxos m = Ret (m', ok)"
  shows "mempool_wf m'"
proof -
  let ?txs = "mp_Transactions m"
  have mu: "mp_mu m = Unlocked" "0 < mp_maxSize m" and max: "mp_maxSize m = 1000"
    using assms(1) unfolding mempool_wf_def by simp_all
  consider "m' = m" | valid where "ValidateTransaction keys tx utxos = Ret valid"
    using AddTransaction_returns [OF assms(2)] by blast
  then show ?thesis
  proof cases
    case 1
    then show ?thesis using assms(1) by simp
  next
    case (2 valid)
    note eq = AddTransaction_eq [OF mu 2] assms(2)
    have perm: "mempool_wf (m\<lparr>mp_Transactions := SliceStable by_fee ?txs\<rparr>)"
      by (rule wf_smaller [OF assms(1)]) simp
    show ?thesis
    proof (cases "has_id (tx_TransactionID tx) ?txs \<or> \<not> valid")
      case True
      then show ?thesis using eq assms(1) by simp
    next
      case new: False
      then have c: "checked tx" using 2 ValidateTransaction_checked by simp
      show ?thesis
      proof (cases "length ?txs < 1000")
        case True
        have "mempool_wf (m\<lparr>mp_Transactions := SliceStable by_fee (?txs @ [tx])\<rparr>)"
          by (rule wf_add [of ?txs m tx]) (use assms(1) c new True in simp_all)
        then show ?thesis using eq new True max by auto
      next
        case False
        then have "?txs \<noteq> []" by auto
        then have "mempool_wf (m\<lparr>mp_Transactions := SliceStable by_fee (butlast (SliceStable by_fee ?txs) @ [tx])\<rparr>)"
          using new wf_replace_lowest [OF assms(1) c] by simp
        then show ?thesis using eq new False max perm by (auto split: if_splits)
      qed
    qed
  qed
qed

text \<open>
  C3. From a new pool on, through any number of local operations with any arguments, the pool is
  well-formed: its lock is free between calls, it holds at most a thousand transactions, no two with
  the same id, and each is a system transaction or passes the gas checks.
\<close>

theorem mempool_reachable_wf:
  assumes "mempool_step\<^sup>*\<^sup>* NewMempool m"
  shows "mempool_wf m"
  using assms
proof (induction rule: rtranclp_induct)
  case base
  show ?case by (rule wf_NewMempool)
next
  case (step m m')
  have mu: "mp_mu m = Unlocked" using step.IH unfolding mempool_wf_def by simp
  have enter: "with_lock mp_mu set_mp_mu (\<lambda>m. Ret (m\<lparr>mp_Transactions := f (mp_Transactions m)\<rparr>, ())) m =
      Ret (m\<lparr>mp_Transactions := f (mp_Transactions m)\<rparr>, ())" for f
    using mu by (simp add: mempool_mu.lock_enters)
  note smaller = wf_smaller [OF step.IH]
  from step.hyps(2) show ?case
  proof (cases rule: mempool_step.cases)
    case (add keys tx utxos ok)
    then show ?thesis using step.IH wf_AddTransaction by blast
  next
    case (remove txID)
    then show ?thesis
      unfolding RemoveTransaction_def enter by (auto intro!: smaller simp: multiset_filter_subset)
  next
    case clear
    then show ?thesis
      unfolding Clear_def using enter [of "\<lambda>_. []"] by (auto intro!: smaller)
  next
    case (processed ids)
    then show ?thesis
      unfolding ClearProcessedTransactions_def enter by (auto intro!: smaller simp: multiset_filter_subset)
  next
    case prioritize
    then show ?thesis unfolding PrioritizeTransactions_def enter by (auto intro!: smaller)
  next
    case sort
    then show ?thesis unfolding SortByGasPrice_def enter by (auto intro!: smaller)
  qed
qed

theorem mempool_reachable_wf_witness:
  "\<exists>m. mempool_wf m \<and> mset (mp_Transactions m) = {#zero_tx\<lparr>tx_TxType := TX_COINBASE\<rparr>#}"
proof -
  let ?tx = "zero_tx\<lparr>tx_TxType := TX_COINBASE\<rparr>"
  have v: "ValidateTransaction [] ?tx [] = Ret True"
    by (simp add: ValidateTransaction_def IsCoinbase_def)
  let ?m = "NewMempool\<lparr>mp_Transactions := SliceStable by_fee [?tx]\<rparr>"
  have "mempool_AddTransaction [] ?tx [] NewMempool = Ret (?m, True)"
    using AddTransaction_eq [OF _ _ v, of NewMempool] by (simp add: NewMempool_def has_id_def)
  then have "mempool_step\<^sup>*\<^sup>* NewMempool ?m" using mempool_step.add by blast
  then have "mempool_wf ?m" by (rule mempool_reachable_wf)
  then show ?thesis by (intro exI [of _ ?m]) simp
qed

section \<open>What the validation does not check\<close>

lemma input_sum_replicate:
  assumes "gomap_get utxos (input_key i) = Some u" "u_Owner u = sender" "\<not> u_Spent u" "u_Amount u = Fin (of_nat a)"
    and "(k + n) * a \<le> 2 ^ 53"
  shows "input_sum utxos sender (replicate n i) (Fin (of_nat (k * a))) = Some (Fin (of_nat ((k + n) * a)))"
  using assms(5)
proof (induction n arbitrary: k)
  case (Suc n)
  have "Suc k * a \<le> (k + Suc n) * a" by simp
  then have "Suc k * a \<le> 2 ^ 53" using Suc.prems by linarith
  then have "representable (of_nat (k * a) + of_nat a)"
    using representable_nat [of "Suc k * a"] by (simp add: algebra_simps)
  then have "fadd (Fin (of_nat (k * a))) (Fin (of_nat a)) = Fin (of_nat (k * a) + of_nat a)"
    by (rule fadd_Fin)
  then have step: "fadd (Fin (of_nat (k * a))) (u_Amount u) = Fin (of_nat (Suc k * a))"
    by (simp add: assms(4) add.commute)
  have "input_sum utxos sender (replicate n i) (Fin (of_nat (Suc k * a))) = Some (Fin (of_nat ((Suc k + n) * a)))"
    by (rule Suc.IH) (use Suc.prems in simp)
  with step show ?case by (simp add: assms(1-3) del: mult_Suc)
qed simp

text \<open>
  C28. The validation counts an output as often as the transaction lists it and does not look at what the
  outputs pay: a transaction whose inputs name one unspent output of the sender \<open>n\<close> times validates as
  soon as \<open>n\<close> times the value of that output covers the declared amount and the highest gas fee, whatever
  its outputs are. What is left is the signature check, which covers neither inputs nor outputs.
\<close>

theorem repeated_input_validates:
  assumes "gomap_get utxos (input_key i) = Some u" "u_Owner u = tx_Sender tx" "\<not> u_Spent u"
    and "u_Amount u = Fin (of_nat a)" "n * a \<le> 2 ^ 53" "\<not> flt (Fin (of_nat (n * a))) (total_required tx)"
    and "tx_TxType tx = TX_REGULAR" "tx_ValidateGas tx = Inr ()"
  shows "ValidateTransaction keys (tx\<lparr>tx_Inputs := replicate n i, tx_Outputs := outs\<rparr>) utxos = tx_VerifySignature keys tx"
proof -
  let ?tx = "tx\<lparr>tx_Inputs := replicate n i, tx_Outputs := outs\<rparr>"
  have "input_sum utxos (tx_Sender tx) (replicate n i) (Fin 0) = Some (Fin (of_nat (n * a)))"
    using input_sum_replicate [OF assms(1-4), of 0 n] assms(5) by simp
  moreover have "total_required ?tx = total_required tx" "tx_ValidateGas ?tx = tx_ValidateGas tx"
    by (simp_all add: total_required_def tx_ValidateGas_def)
  moreover have "tx_VerifySignature keys ?tx = tx_VerifySignature keys tx"
    using VerifySignature_frame [where db = keys and tx = tx and ins = "replicate n i" and outs = outs and
        n = "tx_Nonce tx" and fee = "tx_GasFee tx" and d = "tx_Data tx"] by simp
  ultimately show ?thesis
    using assms(6-8) by (simp add: ValidateTransaction_def IsCoinbase_def IsValidatorReward_def tx_types)
qed


definition poor_tx :: Transaction where
  "poor_tx = zero_tx\<lparr>tx_Sender := ''alice'', tx_Amount := Fin 100, tx_GasLimit := 21000, tx_GasPrice := 10, tx_MaxFeePerGas := 10\<rparr>"

theorem repeated_input_validates_witness:
  "ValidateTransaction []
     (poor_tx\<lparr>tx_Inputs := replicate 1000 \<lparr>in_TransactionID = ''a'', in_OutputIndex = 0, in_Signature = []\<rparr>,
        tx_Outputs := [\<lparr>out_Receiver = ''mallory'', out_Amount = Fin 1000000, out_ScriptPubKey = []\<rparr>]\<rparr>)
     [(utxo_key ''a'' 0, zero_utxo\<lparr>u_Owner := ''alice'', u_Amount := Fin 1\<rparr>)]
   = tx_VerifySignature [] poor_tx"
proof (rule repeated_input_validates [where a = 1 and u = "zero_utxo\<lparr>u_Owner := ''alice'', u_Amount := Fin 1\<rparr>"])
  show "tx_ValidateGas poor_tx = Inr ()"
    by (simp add: poor_tx_def tx_ValidateGas_def zero_tx_def ConvertGasToTokens_def of_u64_def gas_consts MaxTotalFee_def fdiv_def is_zero_def float_eval)
qed (simp_all add: poor_tx_def zero_tx_def zero_utxo_def input_key_def total_required_def tx_types
    ConvertGasToTokens_def of_u64_def fdiv_def is_zero_def float_eval)


section \<open>Synchronisation\<close>

text \<open>Against no outputs, the only transactions that validate spend nothing.\<close>

definition system_tx :: "Transaction \<Rightarrow> bool" where
  "system_tx tx = (IsCoinbase tx \<or> IsValidatorReward tx)"

lemma ValidateTransaction_no_outputs:
  assumes "system_tx tx \<or> tx_Inputs tx \<noteq> []"
  shows "ValidateTransaction keys tx [] = Ret (system_tx tx)"
  using assms by (cases "tx_Inputs tx") (auto simp: ValidateTransaction_def system_tx_def split: sum.splits)

lemma append_valid_no_outputs:
  assumes "\<forall>tx\<in>set txs. system_tx tx \<or> tx_Inputs tx \<noteq> []"
  shows "append_valid keys txs acc = Ret (acc @ filter system_tx txs)"
  using assms by (induction txs arbitrary: acc) (auto simp: ValidateTransaction_no_outputs)

text \<open>
  C26. Applying a snapshot of the pool empties it of payments: \<open>ApplySync\<close> first drops the local
  transactions, then validates the received ones against no outputs, so what remains of a snapshot
  whose payments have inputs is its system transactions, which are accepted unchecked. The contents
  are replaced even when the state root does not match and an error is returned.
\<close>

theorem ApplySync_drops_payments:
  assumes "mp_mu m = Unlocked" "\<forall>tx\<in>set (ms_Transactions sync). system_tx tx \<or> tx_Inputs tx \<noteq> []"
  shows "ApplySync keys sync m =
    Ret (m\<lparr>mp_Transactions := filter system_tx (ms_Transactions sync)\<rparr>,
      if mempool_root (filter system_tx (ms_Transactions sync)) \<noteq> ms_StateRoot sync then Inl StateRootMismatch else Inr ())"
  using assms by (simp add: ApplySync_def mempool_mu.lock_enters append_valid_no_outputs)

theorem ApplySync_drops_payments_witness:
  "ApplySync [] \<lparr>ms_Transactions = [poor_tx\<lparr>tx_Inputs := [\<lparr>in_TransactionID = ''a'', in_OutputIndex = 0, in_Signature = []\<rparr>]\<rparr>],
      ms_StateRoot = ''r'', ms_Timestamp = 0, ms_LastSyncTime = 0, ms_PeerID = []\<rparr> (NewMempool\<lparr>mp_Transactions := [poor_tx]\<rparr>)
    = Ret (NewMempool, Inl StateRootMismatch)"
  using ApplySync_drops_payments [of "NewMempool\<lparr>mp_Transactions := [poor_tx]\<rparr>"
      "\<lparr>ms_Transactions = [poor_tx\<lparr>tx_Inputs := [\<lparr>in_TransactionID = ''a'', in_OutputIndex = 0, in_Signature = []\<rparr>]\<rparr>],
        ms_StateRoot = ''r'', ms_Timestamp = 0, ms_LastSyncTime = 0, ms_PeerID = []\<rparr>" "[]"]
  by (simp add: NewMempool_def poor_tx_def zero_tx_def system_tx_def IsCoinbase_def IsValidatorReward_def tx_types mempool_root_def)

text \<open>Merging a peer's pool keeps the ids distinct, but neither validates what arrives nor bounds the size.\<close>

lemma merge_tx_ids: "set (map tx_TransactionID (merge_tx tx txs)) = insert (tx_TransactionID tx) (set (map tx_TransactionID txs))"
  by (auto simp: merge_tx_def has_id_def image_iff intro: sym)

lemma fold_merge_tx:
  "set (map tx_TransactionID (fold merge_tx ps txs)) = set (map tx_TransactionID ps) \<union> set (map tx_TransactionID txs)"
  "distinct (map tx_TransactionID txs) \<Longrightarrow> distinct (map tx_TransactionID (fold merge_tx ps txs))"
proof (induction ps arbitrary: txs)
  case (Cons p ps)
  {
    case 1
    show ?case using Cons.IH(1) [of "merge_tx p txs"] merge_tx_ids [of p txs] by auto
  next
    case 2
    then have "distinct (map tx_TransactionID (merge_tx p txs))" by (auto simp: merge_tx_def has_id_def)
    then show ?case using Cons.IH(2) by simp
  }
qed simp_all

text \<open>
  C27. \<open>SyncWithPeer\<close> takes everything a peer sends: afterwards the pool holds every id of the peer beside its
  own, still without duplicates, so its size is the number of distinct ids of both, however many
  there are; none of the transactions is validated.
\<close>

theorem SyncWithPeer_unbounded:
  assumes "mp_mu m = Unlocked" "distinct (map tx_TransactionID (mp_Transactions m))"
  shows "\<exists>m'. SyncWithPeer (Inr ps) m = Ret (m', Inr ()) \<and>
    length (mp_Transactions m') = card (tx_TransactionID ` (set ps \<union> set (mp_Transactions m))) \<and>
    distinct (map tx_TransactionID (mp_Transactions m'))"
proof -
  let ?txs = "fold merge_tx ps (mp_Transactions m)"
  have "SyncWithPeer (Inr ps) m = Ret (m\<lparr>mp_Transactions := ?txs\<rparr>, Inr ())"
    using assms(1) mempool_mu.rlock_readonly [of m "\<lambda>m. Ret (m, ())" "()"] by (simp add: SyncWithPeer_def mempool_mu.lock_enters)
  moreover have "length ?txs = card (set (map tx_TransactionID ?txs))"
    using distinct_card [OF fold_merge_tx(2) [OF assms(2)]] by simp
  ultimately show ?thesis
    using fold_merge_tx(1) [of ps "mp_Transactions m"] fold_merge_tx(2) [OF assms(2), of ps] by (simp add: image_Un)
qed

theorem SyncWithPeer_unbounded_witness:
  "\<exists>m'. SyncWithPeer (Inr [zero_tx, zero_tx]) NewMempool = Ret (m', Inr ()) \<and> length (mp_Transactions m') = 1"
  using SyncWithPeer_unbounded [of NewMempool "[zero_tx, zero_tx]"] by (auto simp: NewMempool_def)


end
