(* ===== verification/Stake.thy ===== *)
theory Stake
  imports Blocks
begin

text \<open>
  The pool of stakes (\<open>src/blockchain/stake_pool.go\<close>). Each wallet has one entry, written by the
  operations below under the pool's lock; a pointer to an entry is the entry itself, since no other
  component holds one. The clock is the argument \<open>now\<close>, in nanoseconds.

  The lemmas describe what the operations do to the stake of every address: additions and removals
  with their wrap-around, the halving by violations in closed form, the withdrawal after its lock
  period, the merge with a peer as a pointwise maximum, and the selection by weight.
\<close>

section \<open>State\<close>

record ValidatorPerformance =
  BlocksProposed :: u64
  BlocksValidated :: u64
  MissedValidations :: u64
  UptimePercentage :: float64
  LastUpdate :: int

definition zero_performance :: ValidatorPerformance where
  "zero_performance = \<lparr>BlocksProposed = 0, BlocksValidated = 0, MissedValidations = 0, UptimePercentage = Fin 0,
     LastUpdate = zero_time\<rparr>"

record WithdrawalRequest =
  RequestTime :: int
  wr_Amount :: u64
  wr_Status :: string

record StakeInfo =
  si_Address :: string
  si_Amount :: u64
  si_StartTime :: int
  si_LastRewardTime :: int
  si_LastActive :: int
  si_WithdrawalReq :: "WithdrawalRequest option"
  si_Violations :: int
  si_Performance :: "ValidatorPerformance option"
  si_SelectionCount :: u64
  si_HostID :: string
  si_Timestamp :: int
  si_IsValidator :: bool

definition zero_stake :: StakeInfo where
  "zero_stake = \<lparr>si_Address = [], si_Amount = 0, si_StartTime = zero_time, si_LastRewardTime = zero_time,
     si_LastActive = zero_time, si_WithdrawalReq = None, si_Violations = 0, si_Performance = None,
     si_SelectionCount = 0, si_HostID = [], si_Timestamp = 0, si_IsValidator = False\<rparr>"

record StakePool =
  Stakes :: "(string, StakeInfo) gomap"
  WalletToHost :: "(string, string) gomap"
  sp_mu :: rwmutex
  sp_stateRoot :: string

abbreviation set_sp_mu :: "rwmutex \<Rightarrow> StakePool \<Rightarrow> StakePool" where
  "set_sp_mu l sp \<equiv> sp\<lparr>sp_mu := l\<rparr>"

interpretation stake_mu: mutexed sp_mu set_sp_mu
  by unfold_locales auto

definition NewStakePool :: StakePool where
  "NewStakePool = \<lparr>Stakes = [], WalletToHost = [], sp_mu = Unlocked, sp_stateRoot = []\<rparr>"

record ValidatorNode =
  vn_Address :: string
  vn_Stake :: float64
  vn_hostID :: string

definition HostID :: "ValidatorNode \<Rightarrow> string \<times> bool" where
  "HostID v = (if vn_hostID v = [] then ([], False) else (vn_hostID v, True))"

datatype stake_error = EmptyWallet | EmptyHost | NegativeStake | AmountNotPositive | NotEnoughStake
  | NoValidators | NoActiveValidators | SelectionFailed | NoStake | NoRequest | StillLocked | BadJSON
  | NotConnected | ExchangeFailed

text \<open>The constants of the file.\<close>

definition MinStakeAge :: int where "MinStakeAge = 0"
definition MaxStakeAge :: int where "MaxStakeAge = 365 * 24 * hour"
definition BaseStakeWeight :: u64 where "BaseStakeWeight = 100"
definition WithdrawalLockPeriod :: int where "WithdrawalLockPeriod = 72 * hour"
definition MinValidatorStake :: u64 where "MinValidatorStake = 1"
definition MaxInactivityPeriod :: int where "MaxInactivityPeriod = 24 * hour"
definition SlashingThreshold :: int where "SlashingThreshold = 3"

section \<open>Adding and removing stake\<close>

definition AddValidator :: "int \<Rightarrow> string \<Rightarrow> float64 \<Rightarrow> string \<Rightarrow> StakePool \<Rightarrow> (StakePool \<times> (stake_error + unit)) go" where
  "AddValidator now walletAddress stake hostID = with_lock sp_mu set_sp_mu (\<lambda>sp.
    if walletAddress = [] then Ret (sp, Inl EmptyWallet)
    else if hostID = [] then Ret (sp, Inl EmptyHost)
    else if flt stake (Fin 0) then Ret (sp, Inl NegativeStake)
    else
      let info = (case gomap_get (Stakes sp) walletAddress of
            None \<Rightarrow> zero_stake\<lparr>si_Address := walletAddress, si_Amount := to_u64 stake, si_StartTime := now,
              si_LastActive := now, si_LastRewardTime := now,
              si_Performance := Some (zero_performance\<lparr>LastUpdate := now\<rparr>),
              si_HostID := hostID, si_Timestamp := now div second, si_IsValidator := True\<rparr>
          | Some info \<Rightarrow> info\<lparr>si_Amount := si_Amount info + to_u64 stake, si_LastActive := now,
              si_HostID := hostID, si_IsValidator := True, si_Timestamp := now div second\<rparr>)
      in Ret (sp\<lparr>Stakes := gomap_put walletAddress info (Stakes sp),
                WalletToHost := gomap_put walletAddress hostID (WalletToHost sp)\<rparr>, Inr ()))"

definition AddStake :: "int \<Rightarrow> string \<Rightarrow> string \<Rightarrow> float64 \<Rightarrow> StakePool \<Rightarrow> (StakePool \<times> (stake_error + unit)) go" where
  "AddStake now walletAddress hostID amount sp =
    (if fle amount (Fin 0) then Ret (sp, Inl AmountNotPositive)
     else with_lock sp_mu set_sp_mu (\<lambda>sp.
       let info = (case gomap_get (Stakes sp) walletAddress of
             None \<Rightarrow> zero_stake\<lparr>si_Address := walletAddress, si_Amount := to_u64 amount, si_StartTime := now,
               si_LastActive := now\<rparr>
           | Some info \<Rightarrow> info\<lparr>si_Amount := si_Amount info + to_u64 amount\<rparr>)
       in Ret (sp\<lparr>Stakes := gomap_put walletAddress info (Stakes sp),
                 WalletToHost := gomap_put walletAddress hostID (WalletToHost sp)\<rparr>, Inr ())) sp)"

definition RemoveStake :: "string \<Rightarrow> float64 \<Rightarrow> StakePool \<Rightarrow> (StakePool \<times> (stake_error + unit)) go" where
  "RemoveStake walletAddress amount = with_lock sp_mu set_sp_mu (\<lambda>sp.
    case gomap_get (Stakes sp) walletAddress of
      None \<Rightarrow> Ret (sp, Inl NotEnoughStake)
    | Some stake \<Rightarrow>
        if si_Amount stake < to_u64 amount then Ret (sp, Inl NotEnoughStake)
        else let rest = si_Amount stake - to_u64 amount in
          if rest = 0 then
            Ret (sp\<lparr>Stakes := gomap_del walletAddress (Stakes sp), WalletToHost := gomap_del walletAddress (WalletToHost sp)\<rparr>, Inr ())
          else Ret (sp\<lparr>Stakes := gomap_put walletAddress (stake\<lparr>si_Amount := rest\<rparr>) (Stakes sp)\<rparr>, Inr ()))"

definition sum_stakes :: "(string, StakeInfo) gomap \<Rightarrow> float64" where
  "sum_stakes m = fold (\<lambda>(_, stake) acc. fadd acc (of_u64 (si_Amount stake))) m (Fin 0)"

definition GetTotalStake :: "StakePool \<Rightarrow> (StakePool \<times> float64) go" where
  "GetTotalStake = with_lock sp_mu set_sp_mu (\<lambda>sp. Ret (sp, sum_stakes (Stakes sp)))"

section \<open>Selection\<close>

text \<open>
  \<open>r\<close> is the result of \<open>rand.Float64\<close>, and \<open>visit\<close> the order of the second loop over the map, which may differ from
  the order of the first. Broadcasting the result never fails.
\<close>

fun pick_validator :: "float64 \<Rightarrow> float64 \<Rightarrow> (string, StakeInfo) gomap \<Rightarrow> string option" where
  "pick_validator r cumulativeStake [] = None"
| "pick_validator r cumulativeStake ((walletAddr, stake) # rest) =
    (let cumulativeStake = fadd cumulativeStake (of_u64 (si_Amount stake))
     in if fle r cumulativeStake then Some walletAddr else pick_validator r cumulativeStake rest)"

definition SelectValidator :: "float64 \<Rightarrow> (string, StakeInfo) gomap \<Rightarrow> StakePool \<Rightarrow> (StakePool \<times> (stake_error + string \<times> string)) go" where
  "SelectValidator r visit = with_lock sp_mu set_sp_mu (\<lambda>sp.
    if length (Stakes sp) = 0 then Ret (sp, Inl NoValidators)
    else if length (Stakes sp) = 1 then
      (let walletAddr = fst (hd (Stakes sp)) in Ret (sp, Inr (walletAddr, gomap_get_or [] (WalletToHost sp) walletAddr)))
    else case pick_validator (fmul r (sum_stakes (Stakes sp))) (Fin 0) visit of
      None \<Rightarrow> Ret (sp, Inl SelectionFailed)
    | Some walletAddr \<Rightarrow> Ret (sp, Inr (walletAddr, gomap_get_or [] (WalletToHost sp) walletAddr)))"

text \<open>The condition \<open>stake.Amount >= 0\<close> holds of every unsigned amount; \<open>sort.Slice\<close> leaves the order of equal stakes open.\<close>

definition GetValidators :: "int \<Rightarrow> int \<Rightarrow> StakePool \<Rightarrow> (StakePool \<times> (stake_error + ValidatorNode list)) go" where
  "GetValidators now cnt = with_lock sp_mu set_sp_mu (\<lambda>sp.
    if length (Stakes sp) = 0 then Ret (sp, Inl NoValidators)
    else
      let validators = map (\<lambda>(addr, stake). \<lparr>vn_Address = addr, vn_Stake = of_u64 (si_Amount stake),
              vn_hostID = gomap_get_or [] (WalletToHost sp) addr\<rparr>)
            (filter (\<lambda>(addr, stake). elapsed now (si_StartTime stake) \<ge> MinStakeAge) (Stakes sp))
      in if length validators = 0 then Ret (sp, Inl NoActiveValidators)
         else let sorted = SliceStable (\<lambda>v w. flt (vn_Stake w) (vn_Stake v)) validators;
                  cnt' = (if cnt = 0 then int (length sorted)
                            else if cnt > int (length sorted) then int (length sorted) else cnt)
              in if cnt' < 0 then Panic else Ret (sp, Inr (take (nat cnt') sorted)))"

definition GetStakeWeight :: "int \<Rightarrow> StakeInfo option \<Rightarrow> u64" where
  "GetStakeWeight now stakeInfo =
    (case stakeInfo of
       None \<Rightarrow> 0
     | Some info \<Rightarrow>
         let age = elapsed now (si_StartTime info) in
         if age < MinStakeAge then 0
         else let age = (if age > MaxStakeAge then MaxStakeAge else age);
                  ageWeight = to_u64 (fdiv (duration_in hour age) (Fin 24));
                  baseWeight = (si_Amount info * BaseStakeWeight) div 1000000000
              in baseWeight + (baseWeight * ageWeight div 365))"

section \<open>Withdrawals and violations\<close>

definition RequestWithdrawal :: "int \<Rightarrow> string \<Rightarrow> StakePool \<Rightarrow> (StakePool \<times> (stake_error + unit)) go" where
  "RequestWithdrawal now address = with_lock sp_mu set_sp_mu (\<lambda>sp.
    case gomap_get (Stakes sp) address of
      None \<Rightarrow> Ret (sp, Inl NoStake)
    | Some stake \<Rightarrow>
        let stake = stake\<lparr>si_WithdrawalReq := Some \<lparr>RequestTime = now, wr_Amount = si_Amount stake, wr_Status = ''pending''\<rparr>\<rparr>
        in Ret (sp\<lparr>Stakes := gomap_put address stake (Stakes sp)\<rparr>, Inr ()))"

definition ProcessWithdrawal :: "int \<Rightarrow> string \<Rightarrow> StakePool \<Rightarrow> (StakePool \<times> (stake_error + u64)) go" where
  "ProcessWithdrawal now address = with_lock sp_mu set_sp_mu (\<lambda>sp.
    case gomap_get (Stakes sp) address of
      None \<Rightarrow> Ret (sp, Inl NoStake)
    | Some stake \<Rightarrow>
        (case si_WithdrawalReq stake of
           None \<Rightarrow> Ret (sp, Inl NoRequest)
         | Some req \<Rightarrow>
             if elapsed now (RequestTime req) < WithdrawalLockPeriod then Ret (sp, Inl StillLocked)
             else Ret (sp\<lparr>Stakes := gomap_del address (Stakes sp)\<rparr>, Inr (si_Amount stake))))"

definition violate :: "StakeInfo \<Rightarrow> StakeInfo" where
  "violate stake =
    (let stake = stake\<lparr>si_Violations := si_Violations stake + 1\<rparr> in
     if si_Violations stake \<ge> SlashingThreshold then
       (let slashedAmount = si_Amount stake div 2 in stake\<lparr>si_Amount := si_Amount stake - slashedAmount\<rparr>)
     else stake)"

definition RecordViolation :: "string \<Rightarrow> StakePool \<Rightarrow> (StakePool \<times> (stake_error + unit)) go" where
  "RecordViolation address = with_lock sp_mu set_sp_mu (\<lambda>sp.
    case gomap_get (Stakes sp) address of
      None \<Rightarrow> Ret (sp, Inl NoStake)
    | Some stake \<Rightarrow> Ret (sp\<lparr>Stakes := gomap_put address (violate stake) (Stakes sp)\<rparr>, Inr ()))"

text \<open>\<open>CreateStake\<close> writes the map without taking the lock.\<close>

definition CreateStake :: "int \<Rightarrow> string \<Rightarrow> u64 \<Rightarrow> StakePool \<Rightarrow> StakePool \<times> StakeInfo" where
  "CreateStake now address amount sp =
    (let stake = zero_stake\<lparr>si_Address := address, si_Amount := amount, si_StartTime := now, si_LastRewardTime := now,
           si_LastActive := now, si_Performance := Some (zero_performance\<lparr>LastUpdate := now\<rparr>)\<rparr>
     in (sp\<lparr>Stakes := gomap_put address stake (Stakes sp)\<rparr>, stake))"

section \<open>Synchronisation\<close>

text \<open>One entry of a peer's map; a \<open>null\<close> entry is skipped.\<close>

fun merge_stake :: "string \<times> StakeInfo option \<Rightarrow> StakePool \<Rightarrow> StakePool" where
  "merge_stake (wallet, None) sp = sp"
| "merge_stake (wallet, Some peerStake) sp =
    (let adopted = sp\<lparr>Stakes := gomap_put wallet peerStake (Stakes sp),
           WalletToHost := gomap_put wallet (si_HostID peerStake) (WalletToHost sp)\<rparr>
     in case gomap_get (Stakes sp) wallet of
          None \<Rightarrow> adopted
        | Some existingStake \<Rightarrow> if si_Amount peerStake > si_Amount existingStake then adopted else sp)"

text \<open>
  \<open>answer\<close> is the outcome of the exchange with the peer: \<open>NotConnected\<close> when the node or its host is missing,
  \<open>ExchangeFailed\<close> when the stream, the request, the answer or its decoding fails or the answer is
  \<open>null\<close>, and otherwise the peer's map.
\<close>

definition stake_SyncWithPeer :: "stake_error + (string, StakeInfo option) gomap \<Rightarrow> StakePool \<Rightarrow> (StakePool \<times> (stake_error + unit)) go" where
  "stake_SyncWithPeer answer = with_lock sp_mu set_sp_mu (\<lambda>sp.
    case answer of
      Inl e \<Rightarrow> Ret (sp, Inl e)
    | Inr peerStakes \<Rightarrow> Ret (fold merge_stake peerStakes sp, Inr ()))"

text \<open>The fields of a \<open>ValidatorNode\<close> that are exported, and hence written as JSON.\<close>

definition enc_node :: "ValidatorNode \<Rightarrow> json option" where
  "enc_node v = map_option (\<lambda>s. JObj [(''Address'', JStr (vn_Address v)), (''Stake'', s)]) (enc_float (vn_Stake v))"

definition dec_node :: "json \<Rightarrow> ValidatorNode option" where
  "dec_node j =
    (case (dec_string (field ''Address'' j), dec_float (field ''Stake'' j)) of
       (Some a, Some s) \<Rightarrow> Some \<lparr>vn_Address = a, vn_Stake = s, vn_hostID = []\<rparr>
     | _ \<Rightarrow> None)"

definition GetValidatorInfo :: "int \<Rightarrow> StakePool \<Rightarrow> (StakePool \<times> (stake_error + json)) go" where
  "GetValidatorInfo now sp =
    go_bind (GetValidators now 0 sp) (\<lambda>(sp, r).
      case r of
        Inl e \<Rightarrow> Ret (sp, Inl e)
      | Inr validators \<Rightarrow>
          (case enc_list enc_node validators of
             None \<Rightarrow> Ret (sp, Inl BadJSON)
           | Some vs \<Rightarrow> Ret (sp, Inr (JObj [(''validators'', vs), (''state_root'', JStr (sp_stateRoot sp))]))))"

fun add_nodes :: "int \<Rightarrow> ValidatorNode list \<Rightarrow> StakePool \<Rightarrow> (StakePool \<times> (stake_error + unit)) go" where
  "add_nodes now [] sp = Ret (sp, Inr ())"
| "add_nodes now (v # vs) sp =
    go_bind (AddStake now (vn_Address v) (vn_hostID v) (vn_Stake v) sp) (\<lambda>(sp, r).
      case r of Inl e \<Rightarrow> Ret (sp, Inl e) | Inr _ \<Rightarrow> add_nodes now vs sp)"

definition UpdateValidators :: "int \<Rightarrow> json \<Rightarrow> StakePool \<Rightarrow> (StakePool \<times> (stake_error + unit)) go" where
  "UpdateValidators now data sp =
    (case (dec_list dec_node (field ''validators'' data), dec_string (field ''state_root'' data)) of
       (Some validators, Some stateRoot) \<Rightarrow>
         go_bind (add_nodes now validators sp) (\<lambda>(sp, r).
           case r of Inl e \<Rightarrow> Ret (sp, Inl e) | Inr _ \<Rightarrow> Ret (sp\<lparr>sp_stateRoot := stateRoot\<rparr>, Inr ()))
     | _ \<Rightarrow> Ret (sp, Inl BadJSON))"

definition GetMinimumStake :: float64 where
  "GetMinimumStake = Fin 1"

section \<open>The stake of an address\<close>

text \<open>
  The abstract view: how much every address has at stake. Both ways of adding stake and the removal act
  on it as updates of one address.
\<close>

definition stake_of :: "StakePool \<Rightarrow> string \<Rightarrow> int" where
  "stake_of sp a = (case gomap_get (Stakes sp) a of None \<Rightarrow> 0 | Some s \<Rightarrow> uint (si_Amount s))"

lemma stake_of_put: "stake_of (sp\<lparr>Stakes := gomap_put a s m\<rparr>) = (stake_of (sp\<lparr>Stakes := m\<rparr>))(a := uint (si_Amount s))"
  by (auto simp: stake_of_def gomap_simps fun_eq_iff)

lemma stake_of_del: "stake_of (sp\<lparr>Stakes := gomap_del a m\<rparr>) = (stake_of (sp\<lparr>Stakes := m\<rparr>))(a := 0)"
  by (auto simp: stake_of_def gomap_simps fun_eq_iff)

lemma stake_of_frame [simp]:
  "stake_of (sp\<lparr>WalletToHost := h\<rparr>) = stake_of sp" "stake_of (sp\<lparr>sp_mu := l\<rparr>) = stake_of sp"
  "stake_of (sp\<lparr>sp_stateRoot := r\<rparr>) = stake_of sp" "stake_of (sp\<lparr>Stakes := Stakes sp\<rparr>) = stake_of sp"
  by (simp_all add: stake_of_def fun_eq_iff)

lemma uint_to_u64_Fin: "0 \<le> x \<Longrightarrow> x < 2 ^ 63 \<Longrightarrow> uint (to_u64 (Fin x)) = \<lfloor>x\<rfloor>"
proof -
  assume x: "0 \<le> x" "x < 2 ^ 63"
  then have "0 \<le> \<lfloor>x\<rfloor>" "\<lfloor>x\<rfloor> < 2 ^ 63" by (simp_all add: floor_less_iff)
  then show ?thesis using x by (simp add: to_u64_Fin uint_word_of_int_eq take_bit_int_eq_self)
qed

lemma AddStake_effect:
  assumes "sp_mu sp = Unlocked" "0 < x" "x < 2 ^ 63"
  shows "\<exists>sp'. AddStake now w h (Fin x) sp = Ret (sp', Inr ()) \<and> sp_mu sp' = Unlocked \<and>
    stake_of sp' = (stake_of sp)(w := (stake_of sp w + \<lfloor>x\<rfloor>) mod 2 ^ 64) \<and>
    gomap_get (WalletToHost sp') = (gomap_get (WalletToHost sp))(w \<mapsto> h)"
proof -
  have "\<not> fle (Fin x) (Fin 0)" using assms(2) by simp
  moreover have "uint (a + to_u64 (Fin x)) = (uint a + \<lfloor>x\<rfloor>) mod 2 ^ 64" for a :: u64
    using assms by (simp add: uint_word_ariths uint_to_u64_Fin)
  moreover have "\<lfloor>x\<rfloor> mod 2 ^ 64 = \<lfloor>x\<rfloor>" "uint (to_u64 (Fin x)) = \<lfloor>x\<rfloor>"
    using assms by (simp_all add: uint_to_u64_Fin floor_less_iff)
  ultimately show ?thesis
    using assms(1)
    by (cases "gomap_get (Stakes sp) w")
      (auto simp: AddStake_def stake_mu.lock_enters Let_def stake_of_def gomap_simps fun_eq_iff)
qed

lemma RemoveStake_effect:
  assumes "sp_mu sp = Unlocked" "0 \<le> x" "x < 2 ^ 63" "\<lfloor>x\<rfloor> \<le> stake_of sp w" "gomap_get (Stakes sp) w \<noteq> None"
  shows "\<exists>sp'. RemoveStake w (Fin x) sp = Ret (sp', Inr ()) \<and> sp_mu sp' = Unlocked \<and>
    stake_of sp' = (stake_of sp)(w := stake_of sp w - \<lfloor>x\<rfloor>)"
proof -
  obtain s where s: "gomap_get (Stakes sp) w = Some s" using assms(5) by auto
  have u: "uint (to_u64 (Fin x)) = \<lfloor>x\<rfloor>" using assms by (simp add: uint_to_u64_Fin)
  have le: "to_u64 (Fin x) \<le> si_Amount s" using assms(4) s u by (simp add: stake_of_def word_le_def)
  then have rest: "uint (si_Amount s - to_u64 (Fin x)) = uint (si_Amount s) - \<lfloor>x\<rfloor>"
    using u by (simp add: uint_minus_simple_alt)
  show ?thesis
  proof (cases "si_Amount s - to_u64 (Fin x) = 0")
    case True
    then have "uint (si_Amount s) = \<lfloor>x\<rfloor>" using rest by simp
    then show ?thesis
      using assms(1) s le True
      by (auto simp: RemoveStake_def stake_mu.lock_enters Let_def stake_of_def gomap_simps fun_eq_iff not_less)
  next
    case False
    then show ?thesis
      using assms(1) s le rest
      by (auto simp: RemoveStake_def stake_mu.lock_enters Let_def stake_of_def gomap_simps fun_eq_iff not_less)
  qed
qed

text \<open>
  Stake that is added can be removed again: adding an amount whose sum with the present stake does
  not wrap, and then removing it, both succeed and leave every address with the stake it had.
\<close>

theorem AddStake_RemoveStake:
  assumes "sp_mu sp = Unlocked" "0 < x" "x < 2 ^ 63" "stake_of sp w + \<lfloor>x\<rfloor> < 2 ^ 64"
  shows "\<exists>sp1 sp2. AddStake now w h (Fin x) sp = Ret (sp1, Inr ()) \<and> RemoveStake w (Fin x) sp1 = Ret (sp2, Inr ()) \<and>
    stake_of sp2 = stake_of sp"
proof -
  have pos: "0 \<le> stake_of sp w" "0 \<le> \<lfloor>x\<rfloor>" using assms(2) by (auto simp: stake_of_def split: option.split)
  obtain sp1 where sp1: "AddStake now w h (Fin x) sp = Ret (sp1, Inr ())" "sp_mu sp1 = Unlocked"
    "stake_of sp1 = (stake_of sp)(w := (stake_of sp w + \<lfloor>x\<rfloor>) mod 2 ^ 64)"
    using AddStake_effect [OF assms(1-3)] by blast
  then have sum: "stake_of sp1 w = stake_of sp w + \<lfloor>x\<rfloor>" using assms(4) pos by simp
  have "gomap_get (Stakes sp1) w \<noteq> None"
    using sp1(1) assms(1,2) by (cases "gomap_get (Stakes sp) w")
      (auto simp: AddStake_def stake_mu.lock_enters Let_def gomap_simps)
  then obtain sp2 where "RemoveStake w (Fin x) sp1 = Ret (sp2, Inr ())"
    "stake_of sp2 = (stake_of sp1)(w := stake_of sp1 w - \<lfloor>x\<rfloor>)"
    using RemoveStake_effect [OF sp1(2), of x w] assms pos sum by auto
  then show ?thesis using sp1 sum by auto
qed

theorem AddStake_RemoveStake_witness:
  "\<exists>sp1 sp2. AddStake 0 ''w'' ''h'' (Fin 5) NewStakePool = Ret (sp1, Inr ()) \<and> RemoveStake ''w'' (Fin 5) sp1 = Ret (sp2, Inr ()) \<and>
    stake_of sp2 = stake_of NewStakePool"
  by (rule AddStake_RemoveStake) (simp_all add: NewStakePool_def stake_of_def)


section \<open>Violations\<close>

fun record_violations :: "nat \<Rightarrow> string \<Rightarrow> StakePool \<Rightarrow> (StakePool \<times> (stake_error + unit)) go" where
  "record_violations 0 a sp = Ret (sp, Inr ())"
| "record_violations (Suc n) a sp =
    go_bind (record_violations n a sp) (\<lambda>(sp, r). case r of Inl e \<Rightarrow> Ret (sp, Inl e) | Inr _ \<Rightarrow> RecordViolation a sp)"

lemma half_rounded_up: "((a + 2 ^ k - 1) div 2 ^ k + 1) div 2 = (a + 2 ^ Suc k - 1) div (2 ^ Suc k :: int)"
proof -
  have up: "(a + 2 ^ j - 1) div 2 ^ j = (a - 1) div 2 ^ j + 1" for j
    using div_add_self2 [of "2 ^ j" "a - 1"] by (simp add: algebra_simps)
  have "(b + 1 + 1) div 2 = b div 2 + 1" for b :: int by presburger
  then show ?thesis unfolding up by (simp add: zdiv_zmult2_eq [symmetric] mult.commute)
qed

lemma violate_below: "si_Violations s < 2 \<Longrightarrow> violate s = s\<lparr>si_Violations := si_Violations s + 1\<rparr>"
  by (simp add: violate_def SlashingThreshold_def Let_def)

lemma violate_above:
  assumes "si_Violations s \<ge> 2"
  shows "si_Violations (violate s) = si_Violations s + 1" "uint (si_Amount (violate s)) = (uint (si_Amount s) + 1) div 2"
proof -
  let ?a = "si_Amount s"
  have "uint (?a div 2) = uint ?a div 2" by (simp add: uint_div)
  moreover have "0 \<le> b \<Longrightarrow> b div 2 \<le> b" for b :: int by presburger
  then have "?a div 2 \<le> ?a" using uint_ge_0 [of ?a] by (simp add: word_le_def uint_div)
  ultimately have "uint (?a - ?a div 2) = uint ?a - uint ?a div 2" by (simp add: uint_minus_simple_alt)
  moreover have "uint ?a - uint ?a div 2 = (uint ?a + 1) div 2" by presburger
  ultimately show "uint (si_Amount (violate s)) = (uint ?a + 1) div 2"
    using assms by (simp add: violate_def SlashingThreshold_def Let_def)
  show "si_Violations (violate s) = si_Violations s + 1" by (simp add: violate_def Let_def)
qed

lemma violate_iterated:
  assumes "si_Violations s = 0"
  shows "si_Violations ((violate ^^ n) s) = int n \<and>
    uint (si_Amount ((violate ^^ n) s)) = (uint (si_Amount s) + 2 ^ (n - 2) - 1) div 2 ^ (n - 2)"
proof (induction n)
  case (Suc n)
  show ?case
  proof (cases "n < 2")
    case True
    then have "n - 2 = 0" "Suc n - 2 = 0" by auto
    then show ?thesis using Suc True by (simp add: violate_below)
  next
    case False
    then have "Suc n - 2 = Suc (n - 2)" by simp
    then show ?thesis
      using Suc False violate_above [of "(violate ^^ n) s"] half_rounded_up [of "uint (si_Amount s)" "n - 2"] by simp
  qed
qed (simp add: assms)

lemma record_violations_eq:
  assumes "sp_mu sp = Unlocked" "gomap_get (Stakes sp) a = Some s"
  shows "\<exists>sp'. record_violations n a sp = Ret (sp', Inr ()) \<and> sp_mu sp' = Unlocked \<and>
    gomap_get (Stakes sp') = (gomap_get (Stakes sp))(a \<mapsto> (violate ^^ n) s)"
proof (induction n)
  case 0
  then show ?case using assms by (auto simp: fun_eq_iff)
next
  case (Suc n)
  then obtain sp' where "record_violations n a sp = Ret (sp', Inr ())" "sp_mu sp' = Unlocked"
    "gomap_get (Stakes sp') = (gomap_get (Stakes sp))(a \<mapsto> (violate ^^ n) s)" by blast
  then show ?case by (auto simp: RecordViolation_def stake_mu.lock_enters gomap_simps fun_eq_iff)
qed

text \<open>
  C20. What repeated violations cost. Two are free; from the third on each halves the stake, rounding up.
  After \<open>n\<close> violations of a validator with a clean record its stake is the original divided by
  \<open>2 ^ (n - 2)\<close>, rounded up, so that a positive stake never reaches zero, and no other stake changes.
\<close>

theorem violations_halve_stake:
  assumes "sp_mu sp = Unlocked" "gomap_get (Stakes sp) a = Some s" "si_Violations s = 0"
  shows "\<exists>sp'. record_violations n a sp = Ret (sp', Inr ()) \<and>
    stake_of sp' = (stake_of sp)(a := (stake_of sp a + 2 ^ (n - 2) - 1) div 2 ^ (n - 2))"
proof -
  obtain sp' where "record_violations n a sp = Ret (sp', Inr ())"
    and get: "gomap_get (Stakes sp') = (gomap_get (Stakes sp))(a \<mapsto> (violate ^^ n) s)"
    using record_violations_eq [OF assms(1,2)] by blast
  moreover have "stake_of sp' = (stake_of sp)(a := (stake_of sp a + 2 ^ (n - 2) - 1) div 2 ^ (n - 2))"
    using violate_iterated [OF assms(3), of n] by (auto simp: stake_of_def get assms(2) fun_eq_iff)
  ultimately show ?thesis by blast
qed

theorem violations_halve_stake_witness:
  "\<exists>sp'. record_violations 4 ''w'' (NewStakePool\<lparr>Stakes := [(''w'', zero_stake\<lparr>si_Amount := 101\<rparr>)]\<rparr>) = Ret (sp', Inr ()) \<and>
    stake_of sp' ''w'' = 26"
proof -
  let ?s = "zero_stake\<lparr>si_Amount := 101\<rparr>"
  let ?sp = "NewStakePool\<lparr>Stakes := [(''w'', ?s)]\<rparr>"
  have "stake_of ?sp ''w'' = 101" by (simp add: stake_of_def)
  then show ?thesis
    using violations_halve_stake [of ?sp "''w''" ?s 4] by (auto simp: NewStakePool_def zero_stake_def)
qed

section \<open>Withdrawals\<close>

text \<open>
  C21. The lock period of a withdrawal. After a request at time \<open>t\<close>, whatever stake the entry holds by
  then is paid out by a call at time \<open>t'\<close> exactly when 72 hours have passed, and the entry is removed;
  before that the pool is unchanged. The amount of the request plays no role, and the wallet stays
  assigned to its host.
\<close>

theorem withdrawal_after_lock:
  assumes "sp_mu sp = Unlocked" "gomap_get (Stakes sp) a = Some s" "0 \<le> t' - t" "t' - t < 2 ^ 63"
    and "RequestWithdrawal t a sp = Ret (sp1, Inr ())"
    and "gomap_get (Stakes sp2) a = Some s2" "sp_mu sp2 = Unlocked"
    and "si_WithdrawalReq s2 = si_WithdrawalReq (the (gomap_get (Stakes sp1) a))"
  shows "if 72 * hour \<le> t' - t
    then \<exists>sp3. ProcessWithdrawal t' a sp2 = Ret (sp3, Inr (si_Amount s2)) \<and> stake_of sp3 = (stake_of sp2)(a := 0) \<and>
      gomap_get (Stakes sp3) a = None \<and> WalletToHost sp3 = WalletToHost sp2
    else ProcessWithdrawal t' a sp2 = Ret (sp2, Inl StillLocked)"
proof -
  have "elapsed t' t = t' - t" using assms(3,4) by (simp add: elapsed_def)
  moreover have "\<exists>amt st. si_WithdrawalReq s2 = Some \<lparr>RequestTime = t, wr_Amount = amt, wr_Status = st\<rparr>"
    using assms(1,2,5,8) by (auto simp: RequestWithdrawal_def stake_mu.lock_enters Let_def gomap_simps)
  moreover have "sp2\<lparr>sp_mu := Unlocked\<rparr> = sp2" using assms(7) by (cases sp2) simp
  ultimately show ?thesis
    using assms(6,7)
    by (auto simp: ProcessWithdrawal_def stake_mu.lock_enters WithdrawalLockPeriod_def stake_of_def gomap_simps fun_eq_iff)
qed

theorem withdrawal_after_lock_witness:
  "ProcessWithdrawal (71 * hour) ''w'' (NewStakePool\<lparr>Stakes := [(''w'', zero_stake\<lparr>si_Amount := 7,
      si_WithdrawalReq := Some \<lparr>RequestTime = 0, wr_Amount = 5, wr_Status = ''pending''\<rparr>\<rparr>)]\<rparr>)
    = Ret (NewStakePool\<lparr>Stakes := [(''w'', zero_stake\<lparr>si_Amount := 7,
      si_WithdrawalReq := Some \<lparr>RequestTime = 0, wr_Amount = 5, wr_Status = ''pending''\<rparr>\<rparr>)]\<rparr>, Inl StillLocked)"
proof -
  let ?sp = "NewStakePool\<lparr>Stakes := [(''w'', zero_stake\<lparr>si_Amount := 5\<rparr>)]\<rparr>"
  let ?sp1 = "NewStakePool\<lparr>Stakes := [(''w'', zero_stake\<lparr>si_Amount := 5,
      si_WithdrawalReq := Some \<lparr>RequestTime = 0, wr_Amount = 5, wr_Status = ''pending''\<rparr>\<rparr>)]\<rparr>"
  have "RequestWithdrawal 0 ''w'' ?sp = Ret (?sp1, Inr ())"
    by (simp add: RequestWithdrawal_def NewStakePool_def zero_stake_def with_lock_def)
  from withdrawal_after_lock [OF _ _ _ _ this, where t' = "71 * hour"] show ?thesis
    by (simp add: NewStakePool_def zero_stake_def second_def)
qed


section \<open>Merging with a peer\<close>

text \<open>What the merge makes of one entry.\<close>

fun merged :: "StakeInfo option \<Rightarrow> StakeInfo option option \<Rightarrow> StakeInfo option" where
  "merged None (Some (Some p)) = Some p"
| "merged (Some s) (Some (Some p)) = Some (if si_Amount p > si_Amount s then p else s)"
| "merged s _ = s"

lemma merge_stake_get:
  "gomap_get (Stakes (merge_stake (w, v) sp)) a = (if a = w then merged (gomap_get (Stakes sp) w) (Some v) else gomap_get (Stakes sp) a)"
  by (cases v; cases "gomap_get (Stakes sp) w") (auto simp: Let_def gomap_simps)

lemma fold_merge_stake_get:
  "gomap_wf ps \<Longrightarrow> gomap_get (Stakes (fold merge_stake ps sp)) a = merged (gomap_get (Stakes sp) a) (gomap_get ps a)"
proof (induction ps arbitrary: sp)
  case Nil
  then show ?case by (cases "gomap_get (Stakes sp) a") simp_all
next
  case (Cons p ps)
  obtain w v where p: "p = (w, v)" by fastforce
  have "gomap_get ps w = None" using Cons.prems p by (simp add: map_of_eq_None_iff)
  then show ?case using Cons p by (cases "gomap_get (Stakes sp) a") (auto simp: merge_stake_get)
qed

lemma fold_merge_stake_mu: "sp_mu (fold merge_stake ps sp) = sp_mu sp"
proof (induction ps arbitrary: sp)
  case (Cons p ps)
  have "sp_mu (merge_stake p sp) = sp_mu sp"
    by (cases "(p, sp)" rule: merge_stake.cases) (auto simp: Let_def split: option.split)
  with Cons show ?case by simp
qed simp

definition peer_stake :: "(string, StakeInfo option) gomap \<Rightarrow> string \<Rightarrow> int" where
  "peer_stake ps a = (case gomap_get ps a of Some (Some p) \<Rightarrow> uint (si_Amount p) | _ \<Rightarrow> 0)"

text \<open>
  Synchronising with a peer takes the maximum: afterwards the stake of every address is the larger of
  the local one and the one the peer claims. The peer's entry replaces the local one, its violations
  and pending withdrawal included, exactly when it claims strictly more, and nothing bounds the claim.
\<close>

theorem stake_sync_is_max:
  assumes "sp_mu sp = Unlocked" "gomap_wf ps"
  shows "\<exists>sp'. stake_SyncWithPeer (Inr ps) sp = Ret (sp', Inr ()) \<and>
    (\<forall>a. stake_of sp' a = max (stake_of sp a) (peer_stake ps a)) \<and>
    (\<forall>a. gomap_get (Stakes sp') a = merged (gomap_get (Stakes sp) a) (gomap_get ps a))"
proof -
  let ?sp = "sp\<lparr>sp_mu := Locked\<rparr>"
  have get: "gomap_get (Stakes (fold merge_stake ps ?sp)) a = merged (gomap_get (Stakes sp) a) (gomap_get ps a)" for a
    using fold_merge_stake_get [OF assms(2), of ?sp] by simp
  have "stake_of (fold merge_stake ps ?sp) a = max (stake_of sp a) (peer_stake ps a)" for a
    unfolding stake_of_def get peer_stake_def
    by (cases "gomap_get (Stakes sp) a"; cases "gomap_get ps a"; cases "the (gomap_get ps a)")
      (auto simp: word_less_def)
  then show ?thesis
    using assms(1) get by (simp add: stake_SyncWithPeer_def stake_mu.lock_enters)
qed

theorem stake_sync_is_max_witness:
  "\<exists>sp'. stake_SyncWithPeer (Inr [(''w'', Some (zero_stake\<lparr>si_Amount := 9\<rparr>))]) NewStakePool = Ret (sp', Inr ()) \<and> stake_of sp' ''w'' = 9"
proof -
  obtain sp' where "stake_SyncWithPeer (Inr [(''w'', Some (zero_stake\<lparr>si_Amount := 9\<rparr>))]) NewStakePool = Ret (sp', Inr ())"
    and s: "stake_of sp' ''w'' = max (stake_of NewStakePool ''w'') (peer_stake [(''w'', Some (zero_stake\<lparr>si_Amount := 9\<rparr>))] ''w'')"
    using stake_sync_is_max [of NewStakePool "[(''w'', Some (zero_stake\<lparr>si_Amount := 9\<rparr>))]"]
    by (auto simp: NewStakePool_def)
  moreover have "stake_of sp' ''w'' = 9"
    unfolding s by (simp add: stake_of_def peer_stake_def NewStakePool_def)
  ultimately show ?thesis by blast
qed

section \<open>Selection by weight\<close>

text \<open>Amounts whose sum stays below \<open>2 ^ 53\<close> add up exactly.\<close>

definition total_stake :: "(string, StakeInfo) gomap \<Rightarrow> int" where
  "total_stake m = (\<Sum>(_, s)\<leftarrow>m. uint (si_Amount s))"

lemma total_stake_nonneg: "0 \<le> total_stake m"
  unfolding total_stake_def by (induction m) auto

lemma total_stake_simps [simp]:
  "total_stake [] = 0" "total_stake ((k, s) # m) = uint (si_Amount s) + total_stake m"
  by (simp_all add: total_stake_def)

lemma total_stake_mset:
  assumes "mset m = mset m'"
  shows "total_stake m = total_stake m'"
proof -
  have "mset (map (\<lambda>(_, s). uint (si_Amount s)) m) = mset (map (\<lambda>(_, s). uint (si_Amount s)) m')"
    using assms by simp
  then show ?thesis unfolding total_stake_def using sum_mset_sum_list by metis
qed

lemma exact_stake_step:
  assumes "0 \<le> b" "b + uint (a :: u64) \<le> 2 ^ 53"
  shows "fadd (Fin (of_int b)) (of_u64 a) = Fin (of_int (b + uint a))"
proof -
  have "of_u64 a = Fin (of_int (uint a))" using assms by (intro of_u64_exact) simp
  moreover have "representable (of_int b + of_int (uint a))"
    using representable_int [of "b + uint a"] assms by simp
  ultimately show ?thesis using fadd_Fin [of "of_int b" "of_int (uint a)"] by simp
qed

lemma sum_stakes_exact:
  assumes "total_stake m \<le> 2 ^ 53"
  shows "sum_stakes m = Fin (of_int (total_stake m))"
proof -
  have "fold (\<lambda>(_, stake) acc. fadd acc (of_u64 (si_Amount stake))) m (Fin (of_int b)) = Fin (of_int (b + total_stake m))"
    if "0 \<le> b" "b + total_stake m \<le> 2 ^ 53" for b
    using that
  proof (induction m arbitrary: b)
    case Nil
    then show ?case by simp
  next
    case (Cons kv m)
    obtain k s where kv: "kv = (k, s)" by fastforce
    have "fadd (Fin (of_int b)) (of_u64 (si_Amount s)) = Fin (of_int (b + uint (si_Amount s)))"
      using Cons.prems total_stake_nonneg [of m] kv by (intro exact_stake_step) auto
    moreover have "fold (\<lambda>(_, stake) acc. fadd acc (of_u64 (si_Amount stake))) m (Fin (of_int (b + uint (si_Amount s))))
        = Fin (of_int (b + uint (si_Amount s) + total_stake m))"
      using Cons.prems kv by (intro Cons.IH) auto
    ultimately show ?case by (simp add: kv add.assoc)
  qed
  from this [of 0] assms show ?thesis by (simp add: sum_stakes_def)
qed

lemma pick_validator_exact:
  assumes "0 \<le> b" "b + total_stake m \<le> 2 ^ 53" "r \<le> of_int (b + total_stake m)" "m \<noteq> []"
  shows "\<exists>i < length m. pick_validator (Fin r) (Fin (of_int b)) m = Some (fst (m ! i)) \<and>
    r \<le> of_int (b + total_stake (take (Suc i) m)) \<and> (0 < i \<longrightarrow> of_int (b + total_stake (take i m)) < r)"
  using assms
proof (induction m arbitrary: b)
  case (Cons kv m)
  obtain k s where kv: "kv = (k, s)" by fastforce
  let ?b = "b + uint (si_Amount s)"
  have step: "fadd (Fin (of_int b)) (of_u64 (si_Amount s)) = Fin (of_int ?b)"
    using Cons.prems total_stake_nonneg [of m] kv by (intro exact_stake_step) auto
  show ?case
  proof (cases "r \<le> of_int ?b")
    case True
    then show ?thesis using step kv by (intro exI [of _ 0]) simp
  next
    case False
    then have ne: "m \<noteq> []" using Cons.prems(3) kv by auto
    have "0 \<le> ?b" "?b + total_stake m \<le> 2 ^ 53" "r \<le> of_int (?b + total_stake m)"
      using Cons.prems kv by (simp_all add: add.assoc)
    from Cons.IH [OF this ne] obtain i where i: "i < length m"
      "pick_validator (Fin r) (Fin (of_int ?b)) m = Some (fst (m ! i))"
      "r \<le> of_int (?b + total_stake (take (Suc i) m))" "0 < i \<longrightarrow> of_int (?b + total_stake (take i m)) < r" by blast
    have "of_int (b + total_stake (take (Suc i) (kv # m))) < r"
      using i(4) False kv by (cases i) (simp_all add: add.assoc)
    then show ?thesis
      using i(1-3) step False kv by (intro exI [of _ "Suc i"]) (simp add: add.assoc)
  qed
qed simp


lemma fmul_fraction:
  assumes "0 \<le> q" "q \<le> 1" "0 \<le> t" "t \<le> 2 ^ 53"
  shows "\<exists>r. fmul (Fin q) (Fin (of_int t)) = Fin r \<and> 0 \<le> r \<and> r \<le> of_int t"
proof -
  have f: "fmul (Fin q) (Fin (of_int t)) = round64 (q * of_int t)"
    using assms by (intro fmul_Fin_round) auto
  obtain r where "round64 (q * of_int t) = Fin r" "0 \<le> r" "r \<le> of_int t"
    by (rule round64_between [of 0 "of_int t" "q * of_int t"])
      (use assms representable_int [of t] in \<open>simp_all add: mult_left_le_one_le representable_def\<close>)
  then show ?thesis unfolding f by blast
qed

text \<open>
  C19. The selection by weight always finds a validator and draws it in proportion to its stake. For any
  random number between 0 and 1, any two orders in which Go may visit the map, and stakes that add up
  to at most \<open>2 ^ 53\<close>, it returns an address of the pool, the one at the first position of the second
  order where the accumulated stake reaches the random share of the total.
\<close>

theorem SelectValidator_weighted:
  assumes "sp_mu sp = Unlocked" "1 < length (Stakes sp)" "mset visit = mset (Stakes sp)" "total_stake (Stakes sp) \<le> 2 ^ 53"
    and "0 \<le> q" "q \<le> 1"
  shows "\<exists>i r. i < length visit \<and>
    SelectValidator (Fin q) visit sp = Ret (sp, Inr (fst (visit ! i), gomap_get_or [] (WalletToHost sp) (fst (visit ! i)))) \<and>
    Fin r = fmul (Fin q) (Fin (of_int (total_stake (Stakes sp)))) \<and>
    r \<le> of_int (total_stake (take (Suc i) visit)) \<and> (0 < i \<longrightarrow> of_int (total_stake (take i visit)) < r)"
proof -
  have t: "total_stake visit = total_stake (Stakes sp)" using assms(3) by (rule total_stake_mset)
  obtain r where r: "fmul (Fin q) (Fin (of_int (total_stake (Stakes sp)))) = Fin r" "r \<le> of_int (total_stake (Stakes sp))"
    using fmul_fraction [OF assms(5,6) total_stake_nonneg assms(4)] by blast
  have "visit \<noteq> []" using assms(2,3) by (metis length_0_conv mset_eq_length not_less_zero)
  then obtain i where i: "i < length visit" "pick_validator (Fin r) (Fin (of_int 0)) visit = Some (fst (visit ! i))"
    "r \<le> of_int (0 + total_stake (take (Suc i) visit))" "0 < i \<longrightarrow> of_int (0 + total_stake (take i visit)) < r"
    using pick_validator_exact [of 0 visit r] r assms(4) by (auto simp: t)
  have "SelectValidator (Fin q) visit sp = Ret (sp, Inr (fst (visit ! i), gomap_get_or [] (WalletToHost sp) (fst (visit ! i))))"
    unfolding SelectValidator_def
    by (rule stake_mu.lock_readonly [OF assms(1)])
      (use assms(2,4) i(2) r(1) in \<open>auto simp: sum_stakes_exact\<close>)
  then show ?thesis using i(1,3,4) r(1) by (intro exI [of _ i] exI [of _ r]) simp
qed

theorem SelectValidator_weighted_witness:
  "\<exists>w h. SelectValidator (Fin (1 / 2)) [(''v'', zero_stake\<lparr>si_Amount := 3\<rparr>), (''w'', zero_stake\<lparr>si_Amount := 5\<rparr>)]
      (NewStakePool\<lparr>Stakes := [(''w'', zero_stake\<lparr>si_Amount := 5\<rparr>), (''v'', zero_stake\<lparr>si_Amount := 3\<rparr>)]\<rparr>)
    = Ret (NewStakePool\<lparr>Stakes := [(''w'', zero_stake\<lparr>si_Amount := 5\<rparr>), (''v'', zero_stake\<lparr>si_Amount := 3\<rparr>)]\<rparr>, Inr (w, h))"
  (is "\<exists>w h. SelectValidator _ ?visit ?sp = _")
proof -
  have "sp_mu ?sp = Unlocked" by (simp add: NewStakePool_def)
  from SelectValidator_weighted [OF this, of ?visit "1 / 2"] show ?thesis
    by (auto simp: add_mset_commute)
qed

section \<open>Exporting and importing the validators\<close>

definition exported :: "ValidatorNode \<Rightarrow> ValidatorNode" where
  "exported v = v\<lparr>vn_hostID := []\<rparr>"

lemma enc_node_exported: "enc_node (exported v) = enc_node v"
  by (simp add: enc_node_def exported_def)

lemma dec_enc_node: "enc_node v = Some j \<Longrightarrow> dec_node j = Some (exported v)"
  by (cases v) (auto simp: enc_node_def dec_node_def field_def exported_def dest: enc_float_dec)

lemma dec_enc_nodes: "enc_list enc_node vs = Some j \<Longrightarrow> dec_list dec_node j = Some (map exported vs)"
proof (rule dec_enc_list)
  assume "enc_list enc_node vs = Some j"
  then show "enc_list enc_node (map exported vs) = Some j"
    by (simp add: enc_list_def enc_node_exported comp_def)
  show "dec_node k = Some v" if "v \<in> set (map exported vs)" "enc_node v = Some k" for v k
    using that dec_enc_node by (auto simp: exported_def)
qed

definition whole_stake :: "float64 \<Rightarrow> int \<Rightarrow> bool" where
  "whole_stake x n \<longleftrightarrow> x = Fin (of_int n) \<and> 0 < n \<and> n \<le> 2 ^ 53"

lemma add_nodes_effect:
  assumes "sp_mu sp = Unlocked" "distinct (map vn_Address vs)"
    and "\<And>v. v \<in> set vs \<Longrightarrow> whole_stake (vn_Stake v) (n (vn_Address v)) \<and> stake_of sp (vn_Address v) = 0"
  shows "\<exists>sp'. add_nodes now vs sp = Ret (sp', Inr ()) \<and> sp_mu sp' = Unlocked \<and>
    (\<forall>a. stake_of sp' a = (if a \<in> vn_Address ` set vs then n a else stake_of sp a)) \<and>
    (\<forall>v\<in>set vs. gomap_get (WalletToHost sp') (vn_Address v) = Some (vn_hostID v)) \<and>
    (\<forall>a. a \<notin> vn_Address ` set vs \<longrightarrow> gomap_get (WalletToHost sp') a = gomap_get (WalletToHost sp) a)"
  using assms
proof (induction vs arbitrary: sp)
  case (Cons v vs)
  let ?a = "vn_Address v"
  have v: "vn_Stake v = Fin (of_int (n ?a))" "0 < n ?a" "n ?a \<le> 2 ^ 53" "stake_of sp ?a = 0"
    using Cons.prems(3) [of v] by (auto simp: whole_stake_def)
  have "(of_int (n ?a) :: rat) \<le> of_int (2 ^ 53)" using v(3) by (simp only: of_int_le_iff)
  also have "\<dots> < 2 ^ 63" by simp
  finally have small: "(of_int (n ?a) :: rat) < 2 ^ 63" .
  obtain sp1 where sp1: "AddStake now ?a (vn_hostID v) (vn_Stake v) sp = Ret (sp1, Inr ())" "sp_mu sp1 = Unlocked"
    "stake_of sp1 = (stake_of sp)(?a := n ?a)"
    "gomap_get (WalletToHost sp1) = (gomap_get (WalletToHost sp))(?a \<mapsto> vn_hostID v)"
    using AddStake_effect [OF Cons.prems(1), of "of_int (n ?a)" now ?a "vn_hostID v"] v small by auto
  have new: "?a \<notin> vn_Address ` set vs" using Cons.prems(2) by simp
  then have "stake_of sp1 (vn_Address w) = 0" if "w \<in> set vs" for w
    using that Cons.prems(3) [of w] sp1(3) by (auto simp: image_iff)
  then obtain sp' where sp': "add_nodes now vs sp1 = Ret (sp', Inr ())" "sp_mu sp' = Unlocked"
    "\<forall>a. stake_of sp' a = (if a \<in> vn_Address ` set vs then n a else stake_of sp1 a)"
    "\<forall>v\<in>set vs. gomap_get (WalletToHost sp') (vn_Address v) = Some (vn_hostID v)"
    "\<forall>a. a \<notin> vn_Address ` set vs \<longrightarrow> gomap_get (WalletToHost sp') a = gomap_get (WalletToHost sp1) a"
    using Cons.IH [OF sp1(2)] Cons.prems by auto
  then show ?case using sp1 new by auto
qed auto


lemma GetValidators_all:
  assumes "sp_mu sp = Unlocked" "Stakes sp \<noteq> []" "\<forall>(a, s)\<in>set (Stakes sp). 0 \<le> elapsed now (si_StartTime s)"
  shows "\<exists>vs. GetValidators now 0 sp = Ret (sp, Inr vs) \<and>
    mset vs = mset (map (\<lambda>(a, s). \<lparr>vn_Address = a, vn_Stake = of_u64 (si_Amount s), vn_hostID = gomap_get_or [] (WalletToHost sp) a\<rparr>) (Stakes sp))"
proof -
  have all: "filter (\<lambda>(a, s). elapsed now (si_StartTime s) \<ge> MinStakeAge) (Stakes sp) = Stakes sp"
    using assms(3) by (auto simp: MinStakeAge_def filter_id_conv)
  let ?nodes = "map (\<lambda>(a, s). \<lparr>vn_Address = a, vn_Stake = of_u64 (si_Amount s), vn_hostID = gomap_get_or [] (WalletToHost sp) a\<rparr>) (Stakes sp)"
  have "GetValidators now 0 sp = Ret (sp, Inr (SliceStable (\<lambda>v w. flt (vn_Stake w) (vn_Stake v)) ?nodes))"
    unfolding GetValidators_def
    by (rule stake_mu.lock_readonly [OF assms(1)]) (use assms(2) in \<open>simp add: all Let_def\<close>)
  then show ?thesis by (intro exI) (auto simp flip: mset_map)
qed

text \<open>
  Exporting the validators of a pool and importing them into an empty one: the import succeeds and
  gives every address the stake it had, but no host. The host is not part of the exported document, so
  every imported wallet is assigned to the empty host.
\<close>

theorem validator_info_roundtrip:
  assumes "sp_mu sp = Unlocked" "Stakes sp \<noteq> []" "gomap_wf (Stakes sp)"
    and "\<forall>(a, s)\<in>set (Stakes sp). 0 \<le> elapsed now (si_StartTime s) \<and> 0 < uint (si_Amount s) \<and> uint (si_Amount s) \<le> 2 ^ 53"
  shows "\<exists>j sp'. GetValidatorInfo now sp = Ret (sp, Inr j) \<and> UpdateValidators now' j NewStakePool = Ret (sp', Inr ()) \<and>
    stake_of sp' = stake_of sp \<and> (\<forall>a. gomap_get (WalletToHost sp') a = (if gomap_get (Stakes sp) a = None then None else Some []))"
proof -
  obtain vs where vs: "GetValidators now 0 sp = Ret (sp, Inr vs)" "mset vs = mset (map (\<lambda>(a, s).
      \<lparr>vn_Address = a, vn_Stake = of_u64 (si_Amount s), vn_hostID = gomap_get_or [] (WalletToHost sp) a\<rparr>) (Stakes sp))"
    using GetValidators_all [OF assms(1,2)] assms(4) by fastforce
  have addrs: "mset (map vn_Address vs) = mset (map fst (Stakes sp))"
    using arg_cong [OF vs(2), of "image_mset vn_Address"] by (simp add: image_mset.compositionality comp_def case_prod_beta)
  have dist: "distinct (map vn_Address vs)"
    using mset_eq_imp_distinct_iff [OF addrs] assms(3) by simp
  have whole: "whole_stake (vn_Stake v) (stake_of sp (vn_Address v))" if v: "v \<in> set vs" for v
  proof -
    obtain a s where as: "(a, s) \<in> set (Stakes sp)" "v = \<lparr>vn_Address = a, vn_Stake = of_u64 (si_Amount s), vn_hostID = gomap_get_or [] (WalletToHost sp) a\<rparr>"
      using v mset_eq_setD [OF vs(2)] by auto
    then have "gomap_get (Stakes sp) a = Some s" using assms(3) by (simp add: map_of_eq_Some_iff)
    then show ?thesis
      using as assms(4) by (auto simp: whole_stake_def stake_of_def of_u64_exact)
  qed
  then have "\<And>v. v \<in> set vs \<Longrightarrow> enc_node v \<noteq> None"
    by (auto simp: enc_node_def enc_float_def whole_stake_def)
  then obtain k where k: "enc_list enc_node vs = Some k" using enc_list_total by blast
  let ?j = "JObj [(''validators'', k), (''state_root'', JStr (sp_stateRoot sp))]"
  have "\<exists>sp1. add_nodes now' (map exported vs) NewStakePool = Ret (sp1, Inr ()) \<and> sp_mu sp1 = Unlocked \<and>
    (\<forall>a. stake_of sp1 a = (if a \<in> vn_Address ` set (map exported vs) then stake_of sp a else stake_of NewStakePool a)) \<and>
    (\<forall>v\<in>set (map exported vs). gomap_get (WalletToHost sp1) (vn_Address v) = Some (vn_hostID v)) \<and>
    (\<forall>a. a \<notin> vn_Address ` set (map exported vs) \<longrightarrow> gomap_get (WalletToHost sp1) a = gomap_get (WalletToHost NewStakePool) a)"
    by (rule add_nodes_effect) (use dist whole in \<open>auto simp: exported_def NewStakePool_def stake_of_def comp_def\<close>)
  then obtain sp1 where sp1: "add_nodes now' (map exported vs) NewStakePool = Ret (sp1, Inr ())"
    "\<And>a. stake_of sp1 a = (if a \<in> vn_Address ` set (map exported vs) then stake_of sp a else stake_of NewStakePool a)"
    "\<And>v. v \<in> set vs \<Longrightarrow> gomap_get (WalletToHost sp1) (vn_Address v) = Some []"
    "\<And>a. a \<notin> vn_Address ` set (map exported vs) \<Longrightarrow> gomap_get (WalletToHost sp1) a = None"
    by (auto simp: exported_def NewStakePool_def)
  have dom: "vn_Address ` set (map exported vs) = fst ` set (Stakes sp)" "vn_Address ` set vs = fst ` set (Stakes sp)"
    using mset_eq_setD [OF addrs] by (auto simp: exported_def image_image)
  show ?thesis
  proof (intro exI conjI)
    show "GetValidatorInfo now sp = Ret (sp, Inr ?j)" by (simp add: GetValidatorInfo_def vs(1) k)
    show "UpdateValidators now' ?j NewStakePool = Ret (sp1\<lparr>sp_stateRoot := sp_stateRoot sp\<rparr>, Inr ())"
      by (simp add: UpdateValidators_def field_def dec_enc_nodes [OF k] sp1(1))
    show "stake_of (sp1\<lparr>sp_stateRoot := sp_stateRoot sp\<rparr>) = stake_of sp"
    proof
      fix a
      have "a \<notin> fst ` set (Stakes sp) \<Longrightarrow> gomap_get (Stakes sp) a = None" by (simp add: map_of_eq_None_iff)
      then show "stake_of (sp1\<lparr>sp_stateRoot := sp_stateRoot sp\<rparr>) a = stake_of sp a"
        using sp1(2) [of a] unfolding dom by (auto simp: NewStakePool_def stake_of_def)
    qed
    show "\<forall>a. gomap_get (WalletToHost (sp1\<lparr>sp_stateRoot := sp_stateRoot sp\<rparr>)) a = (if gomap_get (Stakes sp) a = None then None else Some [])"
      using sp1(3,4) unfolding dom by (auto simp: map_of_eq_None_iff simp flip: dom(2))
  qed
qed


theorem validator_info_roundtrip_witness:
  "\<exists>j sp'. GetValidatorInfo 0 (NewStakePool\<lparr>Stakes := [(''w'', zero_stake\<lparr>si_Amount := 7\<rparr>)], WalletToHost := [(''w'', ''h'')]\<rparr>)
      = Ret (NewStakePool\<lparr>Stakes := [(''w'', zero_stake\<lparr>si_Amount := 7\<rparr>)], WalletToHost := [(''w'', ''h'')]\<rparr>, Inr j) \<and>
    UpdateValidators 0 j NewStakePool = Ret (sp', Inr ()) \<and> gomap_get (WalletToHost sp') ''w'' = Some []"
  (is "\<exists>j sp'. GetValidatorInfo 0 ?sp = _ \<and> _")
proof -
  have "sp_mu ?sp = Unlocked" by (simp add: NewStakePool_def)
  from validator_info_roundtrip [OF this, of 0 0] show ?thesis
    by (auto simp: zero_stake_def elapsed_def zero_time_def second_def)
qed


end
