(* ===== verification/Validators.thy ===== *)
theory Validators
  imports Stake Utxo
begin

text \<open>
  A validator's own state (\<open>src/blockchain/validator.go\<close>) and the selection of validators by the
  stake pool (\<open>src/blockchain/validator_selection.go\<close>). What a validator checks of a block is in the
  theory of mining, on whose state it depends.

  The lemmas show which calls never return because they ask for a lock that is held, what makes the
  weighted selection stop the node and how its draw is biased, and that slashing is not permanent.
\<close>

section \<open>State\<close>

definition ValidatorStatusPending :: int where "ValidatorStatusPending = 0"
definition ValidatorStatusActive :: int where "ValidatorStatusActive = 1"
definition ValidatorStatusProbation :: int where "ValidatorStatusProbation = 2"
definition ValidatorStatusSlashed :: int where "ValidatorStatusSlashed = 3"
definition ValidatorStatusInactive :: int where "ValidatorStatusInactive = 4"

lemmas status_defs = ValidatorStatusPending_def ValidatorStatusActive_def ValidatorStatusProbation_def
  ValidatorStatusSlashed_def ValidatorStatusInactive_def

record ValidatorConfig =
  cfg_Stake :: float64
  cfg_MinStake :: float64
  cfg_RewardRate :: float64
  cfg_SlashingRate :: float64
  cfg_BlockTimeout :: int
  cfg_MaxMissed :: int

text \<open>The pointers to the chain and to other validators are arguments where they are used.\<close>

record Validator =
  va_Address :: string
  va_PublicKey :: bytes
  va_Status :: int
  va_Score :: u64
  va_LastActive :: int
  va_Performance :: "ValidatorPerformance option"
  va_Violations :: int
  va_Timeouts :: int
  va_ProbationEndTime :: int
  va_ConsensusFailures :: int
  va_config :: "ValidatorConfig option"
  va_mu :: rwmutex
  va_isValidating :: bool
  va_missedBlocks :: int
  va_lastBlock :: u64
  va_rewards :: float64
  va_slashed :: bool
  va_isSelected :: bool
  va_selectionProof :: "SelectionProof option"

abbreviation set_va_mu :: "rwmutex \<Rightarrow> Validator \<Rightarrow> Validator" where
  "set_va_mu l v \<equiv> v\<lparr>va_mu := l\<rparr>"

interpretation validator_mu: mutexed va_mu set_va_mu
  by unfold_locales auto

definition zero_validator :: Validator where
  "zero_validator = \<lparr>va_Address = [], va_PublicKey = [], va_Status = ValidatorStatusPending, va_Score = 0,
     va_LastActive = zero_time, va_Performance = None, va_Violations = 0, va_Timeouts = 0,
     va_ProbationEndTime = zero_time, va_ConsensusFailures = 0, va_config = None, va_mu = Unlocked,
     va_isValidating = False, va_missedBlocks = 0, va_lastBlock = 0, va_rewards = Fin 0, va_slashed = False,
     va_isSelected = False, va_selectionProof = None\<rparr>"

datatype validator_error = HasBeenSlashed | ChainSyncing | NotActive | ScoreTooLow | NotReady | NotRecoverable
  | BroadcastFailed | NoEligibleValidators | ValidatorSelectionFailed | NoStakeFound
  | MissingProof | InvalidSelection | InvalidProof

section \<open>Life of a validator\<close>

definition default_config :: ValidatorConfig where
  "default_config = \<lparr>cfg_Stake = Fin 0, cfg_MinStake = Fin 0, cfg_RewardRate = round64 (1 / 100), cfg_SlashingRate = round64 (1 / 2),
     cfg_BlockTimeout = 30 * second, cfg_MaxMissed = 10\<rparr>"

text \<open>\<open>registered\<close> is the chain's map of validators, if there is a chain.\<close>

definition NewValidator :: "int \<Rightarrow> (string, Validator) gomap option \<Rightarrow> ValidatorConfig option \<Rightarrow> string \<Rightarrow> Validator" where
  "NewValidator now registered config walletAddress =
    (let config = (case config of None \<Rightarrow> default_config | Some c \<Rightarrow> c) in
     case (case registered of None \<Rightarrow> None | Some vs \<Rightarrow> gomap_get vs walletAddress) of
       Some existingValidator \<Rightarrow> existingValidator
     | None \<Rightarrow> zero_validator\<lparr>va_config := Some config, va_Address := walletAddress, va_Status := ValidatorStatusPending,
         va_LastActive := now, va_Performance := Some (zero_performance\<lparr>LastUpdate := now\<rparr>)\<rparr>)"

text \<open>\<open>syncing\<close> tells whether there is a node that is synchronising. The log lines at the end read the configuration.\<close>

definition Start :: "bool \<Rightarrow> Validator \<Rightarrow> (Validator \<times> (validator_error + unit)) go" where
  "Start syncing = with_lock va_mu set_va_mu (\<lambda>v.
    if va_isValidating v then Ret (v, Inr ())
    else if va_Status v = ValidatorStatusSlashed then Ret (v, Inl HasBeenSlashed)
    else if syncing then Ret (v, Inl ChainSyncing)
    else case va_config v of
      None \<Rightarrow> Panic
    | Some _ \<Rightarrow> Ret (v\<lparr>va_isValidating := True, va_Status := ValidatorStatusActive\<rparr>, Inr ()))"

definition Stop :: "Validator \<Rightarrow> (Validator \<times> (validator_error + unit)) go" where
  "Stop = with_lock va_mu set_va_mu (\<lambda>v.
    if \<not> va_isValidating v then Ret (v, Inr ()) else Ret (v\<lparr>va_isValidating := False\<rparr>, Inr ()))"

text \<open>\<open>slash\<close> is called with the lock held.\<close>

definition slash :: "Validator \<Rightarrow> (Validator \<times> unit) go" where
  "slash v =
    (case va_config v of
       None \<Rightarrow> Panic
     | Some config \<Rightarrow>
         let slashAmount = fmul (cfg_Stake config) (cfg_SlashingRate config);
             config = config\<lparr>cfg_Stake := fsub (cfg_Stake config) slashAmount\<rparr>;
             v = v\<lparr>va_config := Some config, va_slashed := True\<rparr>
         in if flt (cfg_Stake config) (cfg_MinStake config) then go_bind (Stop v) (\<lambda>(v, _). Ret (v, ())) else Ret (v, ()))"

definition handleMissedBlocks :: "int \<Rightarrow> Validator \<Rightarrow> (Validator \<times> unit) go" where
  "handleMissedBlocks missed = with_lock va_mu set_va_mu (\<lambda>v.
    let v = v\<lparr>va_missedBlocks := va_missedBlocks v + missed\<rparr> in
    case va_config v of
      None \<Rightarrow> Panic
    | Some config \<Rightarrow> if va_missedBlocks v \<ge> cfg_MaxMissed config then slash v else Ret (v, ()))"

definition GetStats :: "Validator \<Rightarrow> (Validator \<times> (float64 \<times> float64 \<times> int \<times> bool \<times> bool \<times> u64)) go" where
  "GetStats = with_rlock va_mu set_va_mu (\<lambda>v.
    case va_config v of
      None \<Rightarrow> Panic
    | Some config \<Rightarrow> Ret (v, (cfg_Stake config, va_rewards v, va_missedBlocks v, va_isValidating v, va_slashed v, va_lastBlock v)))"

definition performance_score :: "ValidatorPerformance \<Rightarrow> u64" where
  "performance_score p =
    (let baseScore = BlocksValidated p * 10; penalties = MissedValidations p * 20;
         uptimeScore = to_u64 (fmul (UptimePercentage p) (Fin 100))
     in if penalties > baseScore then 0 else baseScore - penalties + uptimeScore)"

definition updateStatus :: "Validator \<Rightarrow> Validator" where
  "updateStatus v =
    (if va_Score v < 100 then v\<lparr>va_Status := ValidatorStatusProbation\<rparr>
     else if va_Score v \<ge> 100 \<and> va_Status v \<noteq> ValidatorStatusSlashed then v\<lparr>va_Status := ValidatorStatusActive\<rparr>
     else v)"

definition UpdateValidatorScore :: "int \<Rightarrow> Validator \<Rightarrow> Validator" where
  "UpdateValidatorScore now v =
    (case va_Performance v of
       None \<Rightarrow> v\<lparr>va_Performance := Some (zero_performance\<lparr>LastUpdate := now\<rparr>)\<rparr>
     | Some p \<Rightarrow> updateStatus (v\<lparr>va_Score := performance_score p\<rparr>))"

definition RecordValidation :: "int \<Rightarrow> bool \<Rightarrow> Validator \<Rightarrow> Validator" where
  "RecordValidation now success v =
    (let p = (case va_Performance v of None \<Rightarrow> zero_performance | Some p \<Rightarrow> p);
         v = (if success then v\<lparr>va_LastActive := now\<rparr> else v);
         p = (if success then p\<lparr>BlocksValidated := BlocksValidated p + 1\<rparr> else p\<lparr>MissedValidations := MissedValidations p + 1\<rparr>);
         sum = BlocksValidated p + MissedValidations p;
         p = (if sum > 0 then p\<lparr>UptimePercentage := fmul (fdiv (of_u64 (BlocksValidated p)) (of_u64 sum)) (Fin 100)\<rparr> else p)
     in UpdateValidatorScore now (v\<lparr>va_Performance := Some p\<rparr>))"

definition CheckSelectionEligibility :: "Validator \<Rightarrow> validator_error + unit" where
  "CheckSelectionEligibility v =
    (if va_Status v \<noteq> ValidatorStatusActive then Inl NotActive
     else if va_Score v < 100 then Inl ScoreTooLow
     else if va_slashed v then Inl HasBeenSlashed
     else Inr ())"

definition NotifySelection :: "int \<Rightarrow> SelectionProof option \<Rightarrow> Validator \<Rightarrow> (Validator \<times> (validator_error + unit)) go" where
  "NotifySelection now proof = with_lock va_mu set_va_mu (\<lambda>v.
    case CheckSelectionEligibility v of
      Inl e \<Rightarrow> Ret (v, Inl e)
    | Inr _ \<Rightarrow> Ret (v\<lparr>va_isSelected := True, va_selectionProof := proof, va_LastActive := now\<rparr>, Inr ()))"

definition IsReady :: "Validator \<Rightarrow> (Validator \<times> bool) go" where
  "IsReady = with_rlock va_mu set_va_mu (\<lambda>v.
    Ret (v, va_isValidating v \<and> \<not> va_slashed v \<and> va_Status v = ValidatorStatusActive))"

definition IsSlashed :: "Validator \<Rightarrow> bool" where
  "IsSlashed v = (va_Status v = ValidatorStatusSlashed)"

text \<open>\<open>sent\<close> is the outcome of broadcasting the vote.\<close>

definition Vote :: "bool \<Rightarrow> Validator \<Rightarrow> (Validator \<times> (validator_error + unit)) go" where
  "Vote sent v = go_bind (IsReady v) (\<lambda>(v, ready).
    if \<not> ready then Ret (v, Inl NotReady) else if sent then Ret (v, Inr ()) else Ret (v, Inl BroadcastFailed))"

definition ProcessSelection :: "int \<Rightarrow> SelectionProof option \<Rightarrow> Validator \<Rightarrow> (Validator \<times> (validator_error + unit)) go" where
  "ProcessSelection now proof = with_lock va_mu set_va_mu (\<lambda>v.
    case CheckSelectionEligibility v of
      Inl e \<Rightarrow> Ret (v, Inl e)
    | Inr _ \<Rightarrow> Ret (v\<lparr>va_isSelected := True, va_selectionProof := proof, va_LastActive := now\<rparr>, Inr ()))"

definition Recover :: "int \<Rightarrow> Validator \<Rightarrow> (Validator \<times> (validator_error + unit)) go" where
  "Recover now = with_lock va_mu set_va_mu (\<lambda>v.
    if va_Status v \<noteq> ValidatorStatusProbation \<and> va_Status v \<noteq> ValidatorStatusSlashed then Ret (v, Inl NotRecoverable)
    else Ret (v\<lparr>va_Score := 100, va_Timeouts := 0, va_Status := ValidatorStatusActive, va_LastActive := now\<rparr>, Inr ()))"

section \<open>Selection of a validator\<close>

record ValidatorSelector =
  vs_stakePool :: StakePool
  vs_mu :: rwmutex

abbreviation set_vs_mu :: "rwmutex \<Rightarrow> ValidatorSelector \<Rightarrow> ValidatorSelector" where
  "set_vs_mu l vs \<equiv> vs\<lparr>vs_mu := l\<rparr>"

interpretation selector_mu: mutexed vs_mu set_vs_mu
  by unfold_locales auto

definition NewValidatorSelector :: "StakePool \<Rightarrow> ValidatorSelector" where
  "NewValidatorSelector sp = \<lparr>vs_stakePool = sp, vs_mu = Unlocked\<rparr>"

definition generateSeed :: "u64 \<Rightarrow> string \<Rightarrow> bytes" where
  "generateSeed height prevHash = Sum256 (be_bytes 8 height @ bytes_of_string prevHash)"

definition generateRandomUint64 :: "bytes \<Rightarrow> u64" where
  "generateRandomUint64 seed = foldl (\<lambda>n b. n * 256 + ucast b) 0 (take 8 (Sum256 seed))"

definition calculateValidatorScore :: "StakeInfo option \<Rightarrow> u64" where
  "calculateValidatorScore stake =
    (case stake of
       None \<Rightarrow> 0
     | Some s \<Rightarrow> (case si_Performance s of None \<Rightarrow> 0 | Some p \<Rightarrow> performance_score p))"

definition isEligible :: "int \<Rightarrow> StakeInfo option \<Rightarrow> bool" where
  "isEligible now stake =
    (case stake of
       None \<Rightarrow> False
     | Some s \<Rightarrow>
         if elapsed now (si_StartTime s) < MinStakeAge then False
         else if si_Violations s \<ge> SlashingThreshold then False
         else if si_WithdrawalReq s \<noteq> None then False
         else if si_Amount s < MinValidatorStake then False
         else if elapsed now (si_LastActive s) > MaxInactivityPeriod then False
         else True)"

definition validator_of_stake :: "string \<Rightarrow> StakeInfo \<Rightarrow> Validator" where
  "validator_of_stake addr s = zero_validator\<lparr>va_Address := addr, va_Status := ValidatorStatusActive,
     va_Score := calculateValidatorScore (Some s), va_LastActive := si_LastActive s, va_Performance := si_Performance s\<rparr>"

definition getEligibleValidators :: "int \<Rightarrow> ValidatorSelector \<Rightarrow> (ValidatorSelector \<times> Validator list) go" where
  "getEligibleValidators now = with_rlock vs_mu set_vs_mu (\<lambda>vs.
    Ret (vs, map (\<lambda>(addr, s). validator_of_stake addr s)
      (filter (\<lambda>(addr, s). isEligible now (Some s)) (Stakes (vs_stakePool vs)))))"

definition performance_multiplier :: "int \<Rightarrow> ValidatorPerformance \<Rightarrow> float64" where
  "performance_multiplier now p =
    (let m = Fin 1;
         m = (if fle (Fin 99) (UptimePercentage p) then fmul m (round64 (12 / 10)) else m);
         validationRatio = fdiv (of_u64 (BlocksValidated p)) (of_u64 (BlocksValidated p + MissedValidations p));
         m = (if fle (round64 (95 / 100)) validationRatio then fmul m (round64 (11 / 10)) else m)
     in if elapsed now (LastUpdate p) < hour then fmul m (round64 (11 / 10)) else m)"

definition calculateWeight :: "int \<Rightarrow> ValidatorSelector \<Rightarrow> Validator \<Rightarrow> u64" where
  "calculateWeight now vs v =
    (case gomap_get (Stakes (vs_stakePool vs)) (va_Address v) of
       None \<Rightarrow> 0
     | Some stakeInfo \<Rightarrow>
         let baseWeight = GetStakeWeight now (Some stakeInfo) in
         case va_Performance v of
           None \<Rightarrow> baseWeight
         | Some p \<Rightarrow> to_u64 (fmul (of_u64 baseWeight) (performance_multiplier now p)))"

text \<open>The loop that draws: the first validator at which the accumulated weight reaches the target.\<close>

fun draw :: "u64 \<Rightarrow> u64 \<Rightarrow> (Validator \<times> u64) list \<Rightarrow> (Validator \<times> u64 \<times> u64) option" where
  "draw target cumulative [] = None"
| "draw target cumulative ((v, w) # rest) =
    (let cumulative = cumulative + w in if cumulative \<ge> target then Some (v, w, cumulative) else draw target cumulative rest)"

text \<open>The weights are collected in a map keyed by address; the addresses come from the keys of a map and are distinct.\<close>

definition weightedSelection :: "int \<Rightarrow> ValidatorSelector \<Rightarrow> Validator list \<Rightarrow> bytes \<Rightarrow> (Validator \<times> SelectionProof) option go" where
  "weightedSelection now vs validators seed =
    (let weighted = map (\<lambda>v. (v, calculateWeight now vs v)) validators;
         totalWeight = (\<Sum>(v, w)\<leftarrow>weighted. w)
     in if totalWeight = 0 then Panic
        else let target = generateRandomUint64 seed mod totalWeight in
          Ret (map_option (\<lambda>(v, w, cumulative).
              (v, \<lparr>sp_Seed = Some seed, sp_Timestamp = now, sp_Weight = w, sp_Score = cumulative\<rparr>))
            (draw target 0 weighted)))"

definition mark_selected :: "int \<Rightarrow> string \<Rightarrow> StakePool \<Rightarrow> StakePool" where
  "mark_selected now addr sp =
    (case gomap_get (Stakes sp) addr of
       None \<Rightarrow> sp
     | Some s \<Rightarrow> sp\<lparr>Stakes := gomap_put addr (s\<lparr>si_LastActive := now, si_SelectionCount := si_SelectionCount s + 1\<rparr>) (Stakes sp)\<rparr>)"

definition selector_SelectValidator :: "int \<Rightarrow> u64 \<Rightarrow> string \<Rightarrow> ValidatorSelector \<Rightarrow>
    (ValidatorSelector \<times> (validator_error + Validator \<times> SelectionProof)) go" where
  "selector_SelectValidator now blockHeight previousHash = with_lock vs_mu set_vs_mu (\<lambda>vs.
    let seed = generateSeed blockHeight previousHash in
    go_bind (getEligibleValidators now vs) (\<lambda>(vs, validators).
      if length validators = 0 then Ret (vs, Inl NoEligibleValidators)
      else go_bind (weightedSelection now vs validators seed) (\<lambda>selected.
        case selected of
          None \<Rightarrow> Ret (vs, Inl ValidatorSelectionFailed)
        | Some (v, proof) \<Rightarrow>
            let v = v\<lparr>va_isSelected := True, va_selectionProof := Some proof, va_LastActive := now\<rparr>
            in Ret (vs\<lparr>vs_stakePool := mark_selected now (va_Address v) (vs_stakePool vs)\<rparr>, Inr (v, proof)))))"

definition UpdateValidatorPerformance :: "int \<Rightarrow> string \<Rightarrow> ValidatorPerformance option \<Rightarrow> ValidatorSelector \<Rightarrow>
    (ValidatorSelector \<times> (validator_error + unit)) go" where
  "UpdateValidatorPerformance now address metrics = with_lock vs_mu set_vs_mu (\<lambda>vs.
    case gomap_get (Stakes (vs_stakePool vs)) address of
      None \<Rightarrow> Ret (vs, Inl NoStakeFound)
    | Some s \<Rightarrow> Ret (vs\<lparr>vs_stakePool := (vs_stakePool vs)\<lparr>Stakes :=
          gomap_put address (s\<lparr>si_Performance := metrics, si_LastActive := now\<rparr>) (Stakes (vs_stakePool vs))\<rparr>\<rparr>, Inr ()))"

definition selector_GetValidatorInfo :: "string \<Rightarrow> ValidatorSelector \<Rightarrow> (ValidatorSelector \<times> (validator_error + Validator)) go" where
  "selector_GetValidatorInfo address = with_rlock vs_mu set_vs_mu (\<lambda>vs.
    case gomap_get (Stakes (vs_stakePool vs)) address of
      None \<Rightarrow> Ret (vs, Inl NoStakeFound)
    | Some s \<Rightarrow> Ret (vs, Inr (validator_of_stake address s)))"

definition UpdateValidatorActivity :: "int \<Rightarrow> string \<Rightarrow> ValidatorSelector \<Rightarrow> (ValidatorSelector \<times> (validator_error + unit)) go" where
  "UpdateValidatorActivity now address = with_lock vs_mu set_vs_mu (\<lambda>vs.
    case gomap_get (Stakes (vs_stakePool vs)) address of
      None \<Rightarrow> Ret (vs, Inl NoStakeFound)
    | Some s \<Rightarrow>
        let s = s\<lparr>si_LastActive := now, si_Performance := map_option (\<lambda>p. p\<lparr>LastUpdate := now\<rparr>) (si_Performance s)\<rparr>
        in Ret (vs\<lparr>vs_stakePool := (vs_stakePool vs)\<lparr>Stakes := gomap_put address s (Stakes (vs_stakePool vs))\<rparr>\<rparr>, Inr ()))"

definition VerifyValidatorSelection :: "int \<Rightarrow> Block \<Rightarrow> ValidatorSelector \<Rightarrow> (ValidatorSelector \<times> (validator_error + unit)) go" where
  "VerifyValidatorSelection now b selector =
    (case h_ValidatorProof (b_Header b) of
       None \<Rightarrow> Ret (selector, Inl MissingProof)
     | Some _ \<Rightarrow>
         go_bind (selector_SelectValidator now (h_BlockNumber (b_Header b)) (h_PreviousHash (b_Header b)) selector) (\<lambda>(selector, r).
           case r of
             Inl e \<Rightarrow> Ret (selector, Inl e)
           | Inr (v, proof) \<Rightarrow>
               if va_Address v \<noteq> h_ValidatorAddress (b_Header b) then Ret (selector, Inl InvalidSelection)
               else if \<not> verifyProof (Some proof) (h_ValidatorProof (b_Header b)) then Ret (selector, Inl InvalidProof)
               else Ret (selector, Inr ())))"

section \<open>Calls that never return\<close>

lemma getEligibleValidators_under_lock: "vs_mu vs = Locked \<Longrightarrow> getEligibleValidators now vs = Block"
  by (simp add: getEligibleValidators_def selector_mu.rlock_under_lock_blocks)

text \<open>
  C24. The selection of a validator never returns: it takes the selector's lock and then asks for it again
  to read the eligible validators. The same holds for the check of the selection in a block, as soon as
  the block carries a proof.
\<close>

theorem SelectValidator_deadlocks:
  "selector_SelectValidator now blockHeight previousHash vs = Block \<and>
   VerifyValidatorSelection now b vs = (if h_ValidatorProof (b_Header b) = None then Ret (vs, Inl MissingProof) else Block)"
proof -
  have "selector_SelectValidator now h p vs = Block" for h p
    unfolding selector_SelectValidator_def
    by (rule selector_mu.reentry_blocks) (simp add: getEligibleValidators_under_lock Let_def)
  then show ?thesis by (simp add: VerifyValidatorSelection_def split: option.split)
qed

lemma slash_eq:
  assumes "va_config v = Some config" "va_mu v = Locked"
  shows "slash v =
    (let stake = fsub (cfg_Stake config) (fmul (cfg_Stake config) (cfg_SlashingRate config)) in
     if flt stake (cfg_MinStake config) then Block
     else Ret (v\<lparr>va_config := Some (config\<lparr>cfg_Stake := stake\<rparr>), va_slashed := True\<rparr>, ()))"
  using assms by (simp add: slash_def Let_def Stop_def validator_mu.lock_held_blocks)



section \<open>Slashing is not permanent\<close>

lemma RecordValidation_eq:
  assumes "va_Performance v = Some p"
    and "p' = (if success then p\<lparr>BlocksValidated := BlocksValidated p + 1\<rparr> else p\<lparr>MissedValidations := MissedValidations p + 1\<rparr>)"
    and "0 < BlocksValidated p' + MissedValidations p'"
    and "q = p'\<lparr>UptimePercentage := fmul (fdiv (of_u64 (BlocksValidated p')) (of_u64 (BlocksValidated p' + MissedValidations p'))) (Fin 100)\<rparr>"
  shows "va_Performance (RecordValidation now success v) = Some q"
    "va_Score (RecordValidation now success v) = performance_score q"
    "va_Status (RecordValidation now success v) =
      (if performance_score q < 100 then ValidatorStatusProbation
       else if va_Status v \<noteq> ValidatorStatusSlashed then ValidatorStatusActive else va_Status v)"
  using assms(1,3) unfolding assms(2,4)
  by (auto simp: RecordValidation_def UpdateValidatorScore_def updateStatus_def Let_def not_less)

lemma two_thirds_score: "100 \<le> to_u64 (fmul (fmul (fdiv (of_u64 2) (of_u64 3)) (Fin 100)) (Fin 100))"
proof -
  have rep: "representable (1 / 2)" using representable_dyadic [of 1 1] by simp
  obtain r where r: "round64 (2 / 3) = Fin r" "1 / 2 \<le> r" "r \<le> 1"
    by (rule round64_between [OF rep representable_int [of 1], of "2 / 3"]) simp_all
  have q: "fdiv (of_u64 2) (of_u64 3) = Fin r"
    using r(1) by (simp add: of_u64_exact fdiv_Fin_round)
  obtain s where s: "round64 (r * 100) = Fin s" "50 \<le> s" "s \<le> 100"
    by (rule round64_between [OF representable_int [of 50] representable_int [of 100], of "r * 100"]) (use r in simp_all)
  obtain t where t: "round64 (s * 100) = Fin t" "5000 \<le> t" "t \<le> 10000"
    by (rule round64_between [OF representable_int [of 5000] representable_int [of 10000], of "s * 100"]) (use s in simp_all)
  have f: "fmul (fmul (fdiv (of_u64 2) (of_u64 3)) (Fin 100)) (Fin 100) = Fin t"
    using q r s t by (simp add: fmul_Fin_round)
  have "5000 \<le> \<lfloor>t\<rfloor>" using t(2) by (simp add: le_floor_iff)
  moreover have "uint (to_u64 (Fin t)) = \<lfloor>t\<rfloor>" using t by (intro uint_to_u64_Fin) simp_all
  ultimately show ?thesis unfolding f word_le_def by simp
qed

text \<open>
  C23. A slashed validator comes back in two ways. \<open>Recover\<close> makes it active with a score of 100 at once.
  And the record of its validations does so on its own: a validator with a fresh record that misses one
  validation and then succeeds twice is active again, because a score of zero turns the slashed status
  into probation.
\<close>

theorem slashed_validator_returns:
  assumes "va_Status v = ValidatorStatusSlashed" "va_mu v = Unlocked" "va_Performance v = Some (zero_performance\<lparr>LastUpdate := t\<rparr>)"
  shows "(\<exists>v'. Recover now v = Ret (v', Inr ()) \<and> va_Status v' = ValidatorStatusActive \<and> va_Score v' = 100) \<and>
    va_Status (RecordValidation now True (RecordValidation now True (RecordValidation now False v))) = ValidatorStatusActive"
proof
  show "\<exists>v'. Recover now v = Ret (v', Inr ()) \<and> va_Status v' = ValidatorStatusActive \<and> va_Score v' = 100"
    using assms by (simp add: Recover_def validator_mu.lock_enters status_defs)
  let ?v1 = "RecordValidation now False v"
  have 1: "va_Status ?v1 = ValidatorStatusProbation"
    "\<exists>u. va_Performance ?v1 = Some (zero_performance\<lparr>LastUpdate := t, MissedValidations := 1, UptimePercentage := u\<rparr>)"
    using assms(3) by (simp_all add: RecordValidation_eq zero_performance_def performance_score_def updateStatus_def)
  let ?v2 = "RecordValidation now True ?v1"
  have 2: "va_Status ?v2 = ValidatorStatusProbation"
    "\<exists>u. va_Performance ?v2 = Some (zero_performance\<lparr>LastUpdate := t, BlocksValidated := 1, MissedValidations := 1, UptimePercentage := u\<rparr>)"
    using 1(2) by (auto simp: RecordValidation_eq zero_performance_def performance_score_def updateStatus_def)
  then show "va_Status (RecordValidation now True ?v2) = ValidatorStatusActive"
    using two_thirds_score by (auto simp: RecordValidation_eq zero_performance_def performance_score_def updateStatus_def status_defs Let_def)
qed

theorem slashed_validator_returns_witness:
  "va_Status (RecordValidation 0 True (RecordValidation 0 True (RecordValidation 0 False
     (zero_validator\<lparr>va_Status := ValidatorStatusSlashed, va_Performance := Some (zero_performance\<lparr>LastUpdate := 0\<rparr>)\<rparr>)))) = ValidatorStatusActive"
  using slashed_validator_returns [of "zero_validator\<lparr>va_Status := ValidatorStatusSlashed, va_Performance := Some (zero_performance\<lparr>LastUpdate := 0\<rparr>)\<rparr>" 0 0]
  by (simp add: zero_validator_def)

section \<open>The weighted draw\<close>

definition weight_sum :: "(Validator \<times> u64) list \<Rightarrow> nat" where
  "weight_sum ws = (\<Sum>(_, w)\<leftarrow>ws. unat w)"

lemma weight_sum_simps [simp]: "weight_sum [] = 0" "weight_sum ((v, w) # ws) = unat w + weight_sum ws"
  by (simp_all add: weight_sum_def)

lemma word_sum_exact: "weight_sum ws < 2 ^ 64 \<Longrightarrow> unat (\<Sum>(_, w)\<leftarrow>ws. w) = weight_sum ws"
proof (induction ws)
  case (Cons vw ws)
  obtain v w where "vw = (v, w)" by fastforce
  then show ?case using Cons by (simp add: unat_add_lem [THEN iffD1])
qed simp

lemma draw_interval:
  assumes "unat b + weight_sum ws < 2 ^ 64" "unat t \<le> unat b + weight_sum ws" "ws \<noteq> []"
  shows "\<exists>i < length ws. draw t b ws = Some (fst (ws ! i), snd (ws ! i), b + word_of_nat (weight_sum (take (Suc i) ws))) \<and>
    unat t \<le> unat b + weight_sum (take (Suc i) ws) \<and> (0 < i \<longrightarrow> unat b + weight_sum (take i ws) < unat t)"
  using assms
proof (induction ws arbitrary: b)
  case (Cons vw ws)
  obtain v w where vw: "vw = (v, w)" by fastforce
  have sum: "unat (b + w) = unat b + unat w"
    using Cons.prems(1) vw by (intro unat_add_lem [THEN iffD1]) simp
  show ?case
  proof (cases "t \<le> b + w")
    case True
    then show ?thesis using vw sum by (intro exI [of _ 0]) (simp add: Let_def word_le_nat_alt)
  next
    case False
    then have lt: "unat b + unat w < unat t" using sum by (simp add: word_le_nat_alt)
    then have ne: "ws \<noteq> []" using Cons.prems(2) vw by auto
    from Cons.IH [of "b + w", OF _ _ ne] Cons.prems sum vw
    obtain i where i: "i < length ws" "draw t (b + w) ws = Some (fst (ws ! i), snd (ws ! i), b + w + word_of_nat (weight_sum (take (Suc i) ws)))"
      "unat t \<le> unat b + unat w + weight_sum (take (Suc i) ws)" "0 < i \<longrightarrow> unat b + unat w + weight_sum (take i ws) < unat t"
      by (auto simp: add.assoc)
    then show ?thesis
      using lt vw False by (intro exI [of _ "Suc i"]) (cases i; simp add: Let_def add.assoc)
  qed
qed simp

text \<open>
  C27. The weighted selection, when the weights of the validators add up to less than \<open>2 ^ 64\<close>. With a
  positive sum \<open>W\<close> it always selects a validator, the first one whose accumulated weight reaches the
  random target, a number below \<open>W\<close>. Since the target can be zero but not \<open>W\<close>, the first validator is
  drawn for one target more than its weight and the last for one less. With sum zero the node panics
  on a division by zero.
\<close>

theorem weightedSelection_spec:
  assumes "ws = map (\<lambda>v. (v, calculateWeight now vs v)) validators" "weight_sum ws < 2 ^ 64"
  shows "if weight_sum ws = 0 then weightedSelection now vs validators seed = Panic
    else \<exists>i target. i < length ws \<and> target = unat (generateRandomUint64 seed) mod weight_sum ws \<and>
      weightedSelection now vs validators seed = Ret (Some (fst (ws ! i), \<lparr>sp_Seed = Some seed, sp_Timestamp = now,
        sp_Weight = snd (ws ! i), sp_Score = word_of_nat (weight_sum (take (Suc i) ws))\<rparr>)) \<and>
      target \<le> weight_sum (take (Suc i) ws) \<and> (0 < i \<longrightarrow> weight_sum (take i ws) < target)"
proof -
  let ?W = "\<Sum>(_, w)\<leftarrow>ws. w"
  have W: "unat ?W = weight_sum ws" using assms(2) by (rule word_sum_exact)
  then have zero: "?W = 0 \<longleftrightarrow> weight_sum ws = 0" by (metis unat_eq_zero)
  show ?thesis
  proof (cases "weight_sum ws = 0")
    case True
    then show ?thesis using zero by (simp add: weightedSelection_def assms(1) [symmetric])
  next
    case False
    let ?t = "generateRandomUint64 seed mod ?W"
    have t: "unat ?t = unat (generateRandomUint64 seed) mod weight_sum ws" using W by (simp add: unat_mod)
    then have "unat ?t \<le> unat (0 :: u64) + weight_sum ws" using False by simp
    moreover have "ws \<noteq> []" using False by auto
    ultimately obtain i where "i < length ws"
      "draw ?t 0 ws = Some (fst (ws ! i), snd (ws ! i), 0 + word_of_nat (weight_sum (take (Suc i) ws)))"
      "unat ?t \<le> unat (0 :: u64) + weight_sum (take (Suc i) ws)" "0 < i \<longrightarrow> unat (0 :: u64) + weight_sum (take i ws) < unat ?t"
      using draw_interval [of 0 ws ?t] assms(2) by auto
    then show ?thesis
      using False zero t by (auto simp: weightedSelection_def assms(1) [symmetric] Let_def)
  qed
qed


theorem weightedSelection_spec_witness:
  "\<exists>p. weightedSelection 0 (NewValidatorSelector (NewStakePool\<lparr>Stakes := [(''w'', zero_stake\<lparr>si_Amount := 1000000000, si_StartTime := 0\<rparr>)]\<rparr>))
     [zero_validator\<lparr>va_Address := ''w''\<rparr>] [1] = Ret (Some (zero_validator\<lparr>va_Address := ''w''\<rparr>, p))"
proof -
  let ?v = "zero_validator\<lparr>va_Address := ''w''\<rparr>"
  let ?vs = "NewValidatorSelector (NewStakePool\<lparr>Stakes := [(''w'', zero_stake\<lparr>si_Amount := 1000000000, si_StartTime := 0\<rparr>)]\<rparr>)"
  have "calculateWeight 0 ?vs ?v = 100"
    by (simp add: calculateWeight_def NewValidatorSelector_def GetStakeWeight_def BaseStakeWeight_def MinStakeAge_def
        MaxStakeAge_def second_def elapsed_def duration_in_def of_int64_def fdiv_def is_zero_def signed_zero_def zero_validator_def
        to_u64_def trunc_rat_def float_eval)
  then have w: "weight_sum (map (\<lambda>v. (v, calculateWeight 0 ?vs v)) [?v]) = 100" by simp
  then show ?thesis using weightedSelection_spec [OF refl, of 0 ?vs "[?v]" "[1]"] by auto
qed

text \<open>
  Stakes below ten million have no weight, since the weight is a hundred times the amount divided by
  \<open>10 ^ 9\<close>; a pool of such stakes makes the selection panic.
\<close>

lemma GetStakeWeight_small:
  assumes "uint (si_Amount s) < 10000000"
  shows "GetStakeWeight now (Some s) = 0"
proof -
  have "uint (si_Amount s * BaseStakeWeight) = uint (si_Amount s) * 100 mod 2 ^ 64"
    by (simp add: BaseStakeWeight_def uint_word_ariths)
  also have "\<dots> = uint (si_Amount s) * 100" using assms by (intro mod_pos_pos_trivial) simp_all
  finally have "uint (si_Amount s * BaseStakeWeight) < 1000000000" using assms by simp
  then have "si_Amount s * BaseStakeWeight div 1000000000 = 0"
    by (intro div_word_less) (simp add: word_less_def)
  then show ?thesis by (simp add: GetStakeWeight_def Let_def)
qed


end
