(* ===== verification/Chain.thy ===== *)
theory Chain
  imports Ledger Mempool Validators
begin

text \<open>
  The chain of blocks (\<open>src/blockchain/blockchain.go\<close>): its blocks in memory and in the database, the
  choice between forks, checkpoints, and the operations that append and remove blocks. Mining is in a
  theory of its own.

  The database is one object, shared by the chain and its pool of outputs; the pool's operations
  are run on the chain's database. A block's \<open>Hash\<close> method stores what it computes, so every call of
  it returns the block with its hash filled in, in place where Go calls it through the slice and on a
  copy where Go copies the block first. The lemmas show what the operations keep of a well-linked
  chain, what the choice between forks does, and what is left of a block in the database.
\<close>

section \<open>State\<close>

record 'd Blockchain =
  Chain :: "Block list"
  bc_mu :: rwmutex
  bc_currentHash :: string
  bc_utxoPool :: "'d UTXOPool option"
  bc_db :: "'d levelDB option"
  bc_mempool :: "Mempool option"
  bc_StakePool :: StakePool
  bc_utxoSet :: utxo_map
  bc_Validators :: "(string, Validator) gomap"
  bc_communityPool :: float64
  bc_balances :: "(string, float64) gomap"
  bc_lastValidatorAddress :: string

abbreviation set_bc_mu :: "rwmutex \<Rightarrow> 'd Blockchain \<Rightarrow> 'd Blockchain" where
  "set_bc_mu l bc \<equiv> bc\<lparr>bc_mu := l\<rparr>"

interpretation chain_mu: mutexed bc_mu set_bc_mu
  by unfold_locales auto

definition InitialiseBlockchainWithStore :: "int \<Rightarrow> 'd levelDB \<Rightarrow> 'd Blockchain" where
  "InitialiseBlockchainWithStore now db =
    \<lparr>Chain = [GenesisBlock now], bc_mu = Unlocked, bc_currentHash = [], bc_utxoPool = Some (NewUTXOPool (Some db)),
     bc_db = Some db, bc_mempool = None, bc_StakePool = NewStakePool, bc_utxoSet = [], bc_Validators = [],
     bc_communityPool = Fin 0, bc_balances = [], bc_lastValidatorAddress = []\<rparr>"

definition InitialiseBlockchain :: "int \<Rightarrow> 'd levelDB \<Rightarrow> 'd Blockchain" where
  "InitialiseBlockchain now db =
    \<lparr>Chain = [GenesisBlock now], bc_mu = Unlocked, bc_currentHash = [], bc_utxoPool = Some (NewUTXOPool (Some db)),
     bc_db = Some db, bc_mempool = Some NewMempool, bc_StakePool = NewStakePool, bc_utxoSet = [], bc_Validators = [],
     bc_communityPool = Fin 0, bc_balances = [], bc_lastValidatorAddress = []\<rparr>"

datatype chain_error = InvalidBlockHash | InvalidBlockNumber | InvalidPreviousHash | SerializeFailed | StoreFailed db_error
  | BlockNotFound | DatabaseError db_error | DecodeFailed | NoChainDatabase | HashMismatch | BadCheckpoint
  | BadRollback | ParentNotFound | NumberMismatch | NoBlock | PoolError pool_error | EmptyTxID | TxNotFound
  | NoStakeFor | StakeNotMature | ValidatorSlashed | ValidatorScoreLow | WalletBalance | WalletSignatures | WalletDeduct

text \<open>Run an operation of the pool on the chain's database.\<close>

definition on_pool :: "('d UTXOPool \<Rightarrow> ('d UTXOPool \<times> 'r) go) \<Rightarrow> 'd UTXOPool \<Rightarrow> 'd Blockchain \<Rightarrow> ('d Blockchain \<times> 'r) go" where
  "on_pool f pool bc =
    go_bind (f (pool\<lparr>pl_db := bc_db bc\<rparr>)) (\<lambda>(pool, r). Ret (bc\<lparr>bc_utxoPool := Some pool, bc_db := pl_db pool\<rparr>, r))"

section \<open>Blocks in the database\<close>

definition BlockPrefix :: u8 where "BlockPrefix = 1"

definition block_key :: "string \<Rightarrow> string" where
  "block_key hash = prefixed BlockPrefix hash"

text \<open>\<open>%020d\<close>: at least twenty digits, padded with zeros.\<close>

definition show_padded :: "u64 \<Rightarrow> string" where
  "show_padded n = (let s = show_u64 n in replicate (20 - length s) (CHR ''0'') @ s)"

text \<open>
  \<open>Serialize\<close> marshals a block that is passed by value. The encoder calls \<open>MarshalJSON\<close> through pointers
  only, so the block is written field by field, with the nodes of its trie.
\<close>

fun enc_trie :: "PatriciaNode \<Rightarrow> json option" where
  "enc_trie (PNode cs v hs l c) =
    (case (sequence (map (\<lambda>(b, n). map_option (Pair (show_nat (unat b))) (enc_trie n)) cs), enc_ptr enc_tx v) of
       (Some children, Some tx) \<Rightarrow>
         Some (JObj [(''Key'', JNull), (''Children'', JObj children), (''Value'', tx), (''Hash'', JStr hs), (''IsLeaf'', JBool l)])
     | _ \<Rightarrow> None)"

definition Serialize :: "Block \<Rightarrow> json option" where
  "Serialize b =
    (case (enc_header (b_Header b), enc_trie (b_Transactions b), enc_list enc_receipt (b_Receipts b)) of
       (Some h, Some t, Some rs) \<Rightarrow>
         Some (JObj [(''Header'', h), (''Body'', JObj [(''Transactions'', JObj [(''Root'', t)]), (''Receipts'', rs)]),
           (''CumulativeDifficulty'', JInt (uint (b_CumulativeDifficulty b)))])
     | _ \<Rightarrow> None)"

text \<open>Unmarshal into a fresh variable.\<close>

definition load_block :: "json \<Rightarrow> Block option go" where
  "load_block j = UnmarshalJSON j (new_block zero_header)"

definition verifyBlockInDB :: "'d goleveldb \<Rightarrow> string \<Rightarrow> Block \<Rightarrow> 'd Blockchain \<Rightarrow> (chain_error + unit) go" where
  "verifyBlockInDB L hash expectedBlock bc =
    (case bc_db bc of
       None \<Rightarrow> Ret (Inl NoChainDatabase)
     | Some db \<Rightarrow>
         (case db_Get L (block_key hash) db of
            Inl e \<Rightarrow> Ret (Inl (DatabaseError e))
          | Inr blockData \<Rightarrow>
              go_bind (load_block blockData) (\<lambda>r.
                case r of
                  None \<Rightarrow> Ret (Inl DecodeFailed)
                | Some block \<Rightarrow>
                    go_bind (Hash block) (\<lambda>(_, h). go_bind (Hash expectedBlock) (\<lambda>(_, h').
                      if h \<noteq> h' then Ret (Inl HashMismatch) else Ret (Inr ()))))))"

text \<open>The steps that \<open>saveBlock\<close> and \<open>addBlockWithoutValidation\<close> share: the block under its hash, and the pointer to it.\<close>

definition put_block :: "'d goleveldb \<Rightarrow> Block \<Rightarrow> string \<Rightarrow> 'd levelDB \<Rightarrow> 'd levelDB \<times> (chain_error + unit)" where
  "put_block L block h db =
    (case Serialize block of
       None \<Rightarrow> (db, Inl SerializeFailed)
     | Some blockData \<Rightarrow>
         (case db_Put L (block_key h) blockData db of
            (db, Inl e) \<Rightarrow> (db, Inl (StoreFailed e))
          | (db, Inr _) \<Rightarrow>
              (case db_Put L ''latest_block'' (JStr h) db of
                 (db, Inl e) \<Rightarrow> (db, Inl (StoreFailed e))
               | (db, Inr _) \<Rightarrow> (db, Inr ()))))"

text \<open>The verification at the end of \<open>saveBlock\<close> only logs, but it may panic.\<close>

definition saveBlock :: "'d goleveldb \<Rightarrow> Block \<Rightarrow> 'd Blockchain \<Rightarrow> ('d Blockchain \<times> (chain_error + unit)) go" where
  "saveBlock L block bc =
    (case bc_db bc of
       None \<Rightarrow> Ret (bc, Inl NoChainDatabase)
     | Some db \<Rightarrow>
         (case Serialize block of
            None \<Rightarrow> Ret (bc, Inl SerializeFailed)
          | Some _ \<Rightarrow>
              go_bind (Hash block) (\<lambda>(block', h).
                case put_block L block h db of
                  (db, Inl e) \<Rightarrow> Ret (bc\<lparr>bc_db := Some db\<rparr>, Inl e)
                | (db, Inr _) \<Rightarrow>
                    let bc = bc\<lparr>bc_db := Some db\<rparr>
                    in go_bind (verifyBlockInDB L h block' bc) (\<lambda>_. Ret (bc, Inr ())))))"

text \<open>\<open>None\<close> is the zero block, whose header is nil.\<close>

definition GetLatestBlock :: "'d goleveldb \<Rightarrow> 'd Blockchain \<Rightarrow> ('d Blockchain \<times> Block option) go" where
  "GetLatestBlock L = with_rlock bc_mu set_bc_mu (\<lambda>bc.
    if length (Chain bc) > 0 then Ret (bc, Some (last (Chain bc)))
    else case bc_db bc of
      None \<Rightarrow> Ret (bc, None)
    | Some db \<Rightarrow>
        (case db_Get L ''latest_block'' db of
           Inr (JStr latestHash) \<Rightarrow>
             if length latestHash > 0 then
               (case db_Get L (block_key latestHash) db of
                  Inr blockData \<Rightarrow> go_bind (load_block blockData) (\<lambda>r. Ret (bc, r))
                | Inl _ \<Rightarrow> Ret (bc, None))
             else Ret (bc, None)
         | _ \<Rightarrow> Ret (bc, None)))"

fun find_hash :: "string \<Rightarrow> Block list \<Rightarrow> Block option go" where
  "find_hash hash [] = Ret None"
| "find_hash hash (b # bs) = go_bind (Hash b) (\<lambda>(b, h). if h = hash then Ret (Some b) else find_hash hash bs)"

definition GetBlock :: "'d goleveldb \<Rightarrow> string \<Rightarrow> 'd Blockchain \<Rightarrow> ('d Blockchain \<times> (chain_error + Block)) go" where
  "GetBlock L hash = with_rlock bc_mu set_bc_mu (\<lambda>bc.
    go_bind (find_hash hash (Chain bc)) (\<lambda>found.
      case found of
        Some b \<Rightarrow> Ret (bc, Inr b)
      | None \<Rightarrow>
          (case bc_db bc of
             None \<Rightarrow> Ret (bc, Inl BlockNotFound)
           | Some db \<Rightarrow>
               (case db_Get L (block_key hash) db of
                  Inl e \<Rightarrow> Ret (bc, Inl (if e = ErrKeyNotFound then BlockNotFound else DatabaseError e))
                | Inr blockData \<Rightarrow>
                    go_bind (load_block blockData) (\<lambda>r. Ret (bc, case r of None \<Rightarrow> Inl DecodeFailed | Some b \<Rightarrow> Inr b))))))"

text \<open>The first block of that number in memory, with its hash filled in; else the database under the padded number.\<close>

definition position_of :: "u64 \<Rightarrow> Block list \<Rightarrow> nat option" where
  "position_of h chain = find (\<lambda>i. h_BlockNumber (b_Header (chain ! i)) = h) [0..<length chain]"

definition block_by_height :: "'d goleveldb \<Rightarrow> u64 \<Rightarrow> 'd Blockchain \<Rightarrow> ('d Blockchain \<times> Block option) go" where
  "block_by_height L h bc =
    (case position_of h (Chain bc) of
       Some i \<Rightarrow>
         go_bind (Hash (Chain bc ! i)) (\<lambda>(b, hash).
           let b = b\<lparr>b_hash := hash\<rparr> in Ret (bc\<lparr>Chain := (Chain bc)[i := b]\<rparr>, Some b))
     | None \<Rightarrow>
         (case bc_db bc of
            None \<Rightarrow> Ret (bc, None)
          | Some db \<Rightarrow>
              (case db_Get L (block_key (show_padded h)) db of
                 Inl _ \<Rightarrow> Ret (bc, None)
               | Inr blockData \<Rightarrow>
                   go_bind (load_block blockData) (\<lambda>r. Ret (bc, map_option (\<lambda>b. b\<lparr>b_hash := CalculateHash b\<rparr>) r)))))"

definition GetBlockByHeight :: "'d goleveldb \<Rightarrow> u64 \<Rightarrow> 'd Blockchain \<Rightarrow> ('d Blockchain \<times> Block option) go" where
  "GetBlockByHeight L h = with_rlock bc_mu set_bc_mu (block_by_height L h)"

definition GetHeight :: "'d Blockchain \<Rightarrow> u64" where
  "GetHeight bc = (if length (Chain bc) = 0 then 0 else h_BlockNumber (b_Header (last (Chain bc))))"

section \<open>Appending and removing blocks\<close>

text \<open>Fill in the hash of the last block of the slice.\<close>

definition hash_last :: "Block list \<Rightarrow> (Block list \<times> string) go" where
  "hash_last chain = go_bind (Hash (last chain)) (\<lambda>(b, h). Ret (butlast chain @ [b], h))"

definition append_block :: "'d goleveldb \<Rightarrow> Block \<Rightarrow> string \<Rightarrow> 'd Blockchain \<Rightarrow> 'd Blockchain \<times> (chain_error + unit)" where
  "append_block L block h bc =
    (let bc = (if h_ValidatedBy (b_Header block) \<noteq> [] then bc\<lparr>bc_lastValidatorAddress := h_ValidatedBy (b_Header block)\<rparr> else bc);
         bc = bc\<lparr>Chain := Chain bc @ [block], bc_currentHash := h\<rparr>
     in case bc_db bc of
          None \<Rightarrow> (bc, Inr ())
        | Some db \<Rightarrow> (case put_block L block h db of (db, r) \<Rightarrow> (bc\<lparr>bc_db := Some db\<rparr>, r)))"

text \<open>The comparison with the stored hash comes after the call that fills it in.\<close>

definition addBlockWithoutValidation :: "'d goleveldb \<Rightarrow> Block \<Rightarrow> 'd Blockchain \<Rightarrow> ('d Blockchain \<times> (Block \<times> (chain_error + unit))) go" where
  "addBlockWithoutValidation L block = with_lock bc_mu set_bc_mu (\<lambda>bc.
    go_bind (Hash block) (\<lambda>(block, h).
      if h \<noteq> b_hash block then Ret (bc, (block, Inl InvalidBlockHash))
      else if h_BlockNumber (b_Header block) \<noteq> word_of_nat (length (Chain bc)) then Ret (bc, (block, Inl InvalidBlockNumber))
      else if length (Chain bc) > 0 then
        go_bind (hash_last (Chain bc)) (\<lambda>(chain, prev).
          let bc = bc\<lparr>Chain := chain\<rparr> in
          if h_PreviousHash (b_Header block) \<noteq> prev then Ret (bc, (block, Inl InvalidPreviousHash))
          else case append_block L block h bc of (bc, r) \<Rightarrow> Ret (bc, (block, r)))
      else case append_block L block h bc of (bc, r) \<Rightarrow> Ret (bc, (block, r))))"

definition ValidateGenesisBlock :: "Block \<Rightarrow> 'd Blockchain \<Rightarrow> bool go" where
  "ValidateGenesisBlock genesis bc =
    (case Chain bc of
       [] \<Rightarrow> Panic
     | b # _ \<Rightarrow>
         if b_hash b = [] \<or> b_hash genesis = [] then Ret (calculateHash b = calculateHash genesis)
         else Ret (b_hash b = b_hash genesis))"

definition ExecuteMultiSigTransaction :: "MultiSigTransaction \<Rightarrow> MultiSigwWallet \<Rightarrow> utxo_map \<Rightarrow> (MultiSigwWallet \<times> utxo_map \<times> (chain_error + unit)) go" where
  "ExecuteMultiSigTransaction tx wallet utxoSet =
    (if flt (ms_Balance wallet) (tx_Amount (ms_Transaction tx)) then Ret (wallet, utxoSet, Inl WalletBalance)
     else go_bind (ms_ValidateSignatures wallet (PublicKeyMap wallet) tx) (\<lambda>ok.
       if \<not> ok then Ret (wallet, utxoSet, Inl WalletSignatures)
       else case DeductFunds (tx_Amount (ms_Transaction tx)) wallet of
         (wallet, Inl _) \<Rightarrow> Ret (wallet, utxoSet, Inl WalletDeduct)
       | (wallet, Inr _) \<Rightarrow> Ret (wallet, UpdateUTXOSet (ms_Transaction tx) utxoSet, Inr ())))"

definition ValidateBlockHash :: "Block \<Rightarrow> (Block \<times> bool) go" where
  "ValidateBlockHash block = go_bind (Hash block) (\<lambda>(block', h). Ret (block', calculateHash block = h))"

text \<open>The transactions pass unchecked: \<open>ValidateTransaction\<close> returns no error.\<close>

definition chain_ValidateTransaction :: "Transaction \<Rightarrow> chain_error + unit" where
  "chain_ValidateTransaction tx = Inr ()"

definition chain_ValidateBlock :: "'d goleveldb \<Rightarrow> Block \<Rightarrow> 'd Blockchain \<Rightarrow> ('d Blockchain \<times> (Block \<times> (chain_error + unit))) go" where
  "chain_ValidateBlock L block bc =
    go_bind (ValidateBlockHash block) (\<lambda>(block, ok).
      if \<not> ok then Ret (bc, (block, Inl InvalidBlockHash))
      else go_bind (GetLatestBlock L bc) (\<lambda>(bc, prevBlock).
        case prevBlock of
          None \<Rightarrow> Panic
        | Some prevBlock \<Rightarrow>
            go_bind (Hash prevBlock) (\<lambda>(prevBlock, h).
              if h_PreviousHash (b_Header block) \<noteq> h then Ret (bc, (block, Inl InvalidPreviousHash))
              else if h_BlockNumber (b_Header block) \<noteq> h_BlockNumber (b_Header prevBlock) + 1 then Ret (bc, (block, Inl InvalidBlockNumber))
              else case find (\<lambda>tx. chain_ValidateTransaction tx \<noteq> Inr ()) (GetAllTransactions (b_Transactions block)) of
                None \<Rightarrow> Ret (bc, (block, Inr ()))
              | Some tx \<Rightarrow> Ret (bc, (block, chain_ValidateTransaction tx)))))"

text \<open>Errors of the pool are logged only.\<close>

definition process_utxos :: "'d goleveldb \<Rightarrow> int \<Rightarrow> Block \<Rightarrow> 'd Blockchain \<Rightarrow> ('d Blockchain \<times> (pool_error + unit)) go" where
  "process_utxos L now block bc =
    (case bc_utxoPool bc of
       None \<Rightarrow> Ret (bc, Inr ())
     | Some pool \<Rightarrow>
         on_pool (\<lambda>p. go_bind (ProcessBlockTransactions L now (Some block) p) (\<lambda>(p, b, r). Ret (p, r))) pool bc)"

definition AddBlockWithoutValidation :: "'d goleveldb \<Rightarrow> int \<Rightarrow> Block \<Rightarrow> 'd Blockchain \<Rightarrow> ('d Blockchain \<times> (chain_error + unit)) go" where
  "AddBlockWithoutValidation L now block = with_lock bc_mu set_bc_mu (\<lambda>bc.
    let bc = bc\<lparr>Chain := Chain bc @ [block], bc_currentHash := b_hash block\<rparr>
    in go_bind (process_utxos L now block bc) (\<lambda>(bc, _). Ret (bc, Inr ())))"

text \<open>The final broadcast does not change the chain.\<close>

definition AddBlockWithUTXOProcessing :: "'d goleveldb \<Rightarrow> int \<Rightarrow> Block \<Rightarrow> 'd Blockchain \<Rightarrow> ('d Blockchain \<times> (chain_error + unit)) go" where
  "AddBlockWithUTXOProcessing L now newBlock bc =
    go_bind (chain_ValidateBlock L newBlock bc) (\<lambda>(bc, newBlock, r).
      case r of
        Inl e \<Rightarrow> Ret (bc, Inl e)
      | Inr _ \<Rightarrow>
          go_bind (addBlockWithoutValidation L newBlock bc) (\<lambda>(bc, newBlock, r).
            case r of
              Inl e \<Rightarrow> Ret (bc, Inl e)
            | Inr _ \<Rightarrow> go_bind (process_utxos L now newBlock bc) (\<lambda>(bc, _). Ret (bc, Inr ()))))"

definition ProcessBlockUTXOs :: "'d goleveldb \<Rightarrow> int \<Rightarrow> Block option \<Rightarrow> 'd Blockchain \<Rightarrow> ('d Blockchain \<times> (chain_error + unit)) go" where
  "ProcessBlockUTXOs L now block bc =
    (case block of
       None \<Rightarrow> Ret (bc, Inl NoBlock)
     | Some b \<Rightarrow> go_bind (process_utxos L now b bc) (\<lambda>(bc, r). Ret (bc, case r of Inl e \<Rightarrow> Inl (PoolError e) | Inr _ \<Rightarrow> Inr ())))"

definition RollbackToHeight :: "u64 \<Rightarrow> 'd Blockchain \<Rightarrow> ('d Blockchain \<times> (chain_error + unit)) go" where
  "RollbackToHeight height = with_lock bc_mu set_bc_mu (\<lambda>bc.
    if height \<ge> word_of_nat (length (Chain bc)) then Ret (bc, Inl BadRollback)
    else Ret (bc\<lparr>Chain := take (unat (height + 1)) (Chain bc)\<rparr>, Inr ()))"

text \<open>\<open>validator\<close> is the address of the node's wallet, if there is one.\<close>

definition InitializeChain :: "'d goleveldb \<Rightarrow> int \<Rightarrow> string option \<Rightarrow> 'd Blockchain \<Rightarrow> ('d Blockchain \<times> (chain_error + unit)) go" where
  "InitializeChain L now validator = with_lock bc_mu set_bc_mu (\<lambda>bc.
    if GetHeight bc > 0 then Ret (bc, Inr ())
    else
      let genesis = GenesisBlock now;
          genesis = (case validator of
              None \<Rightarrow> genesis
            | Some a \<Rightarrow> genesis\<lparr>b_Header := (b_Header genesis)\<lparr>h_ValidatedBy := a, h_ValidatorAddress := a\<rparr>\<rparr>)
      in go_bind (calculateStateRoot (bc_utxoSet bc)) (\<lambda>stateRoot.
        let genesis = genesis\<lparr>b_Header := (b_Header genesis)\<lparr>h_StateRoot := stateRoot\<rparr>\<rparr> in
        go_bind (Hash genesis) (\<lambda>(genesis, h).
          let genesis = genesis\<lparr>b_hash := h\<rparr> in
          go_bind (saveBlock L genesis bc) (\<lambda>(bc, r).
            case r of
              Inl e \<Rightarrow> Ret (bc, Inl e)
            | Inr _ \<Rightarrow>
                let bc = bc\<lparr>Chain := [genesis], bc_currentHash := b_hash genesis\<rparr> in
                case bc_db bc of
                  None \<Rightarrow> Panic
                | Some db \<Rightarrow>
                    (case db_Put L ''latest_block'' (JStr (b_hash genesis)) db of
                       (db, Inl e) \<Rightarrow> Ret (bc\<lparr>bc_db := Some db\<rparr>, Inl (StoreFailed e))
                     | (db, Inr _) \<Rightarrow> Ret (bc\<lparr>bc_db := Some db\<rparr>, Inr ()))))))"

definition CalculateCumulativeDifficulty :: "'d goleveldb \<Rightarrow> Block \<Rightarrow> 'd Blockchain \<Rightarrow> ('d Blockchain \<times> (chain_error + u64)) go" where
  "CalculateCumulativeDifficulty L newBlock bc =
    go_bind (GetBlock L (h_PreviousHash (b_Header newBlock)) bc) (\<lambda>(bc, parent).
      case parent of
        Inl _ \<Rightarrow> Ret (bc, Inl ParentNotFound)
      | Inr parentBlock \<Rightarrow>
          if h_BlockNumber (b_Header newBlock) = 0 then Ret (bc, Inr (ucast (h_Difficulty (b_Header newBlock))))
          else if h_BlockNumber (b_Header parentBlock) + 1 \<noteq> h_BlockNumber (b_Header newBlock) then Ret (bc, Inl NumberMismatch)
          else Ret (bc, Inr (b_CumulativeDifficulty parentBlock + ucast (h_Difficulty (b_Header newBlock)))))"

section \<open>Forks\<close>

fun scan_chain :: "nat \<Rightarrow> Block \<Rightarrow> Block list \<Rightarrow> (Block list \<times> nat option) go" where
  "scan_chain 0 candidateBlock chain = Ret (chain, None)"
| "scan_chain (Suc j) candidateBlock chain =
    go_bind (Hash (chain ! j)) (\<lambda>(b, h).
      go_bind (Hash candidateBlock) (\<lambda>(candidateBlock, h').
        if h = h' then Ret (chain[j := b], Some j) else scan_chain j candidateBlock (chain[j := b])))"

fun scan_candidates :: "Block list \<Rightarrow> Block list \<Rightarrow> (Block list \<times> nat option) go" where
  "scan_candidates [] chain = Ret (chain, None)"
| "scan_candidates (c # cs) chain =
    go_bind (scan_chain (length chain) c chain) (\<lambda>(chain, r).
      case r of Some j \<Rightarrow> Ret (chain, Some j) | None \<Rightarrow> scan_candidates cs chain)"

text \<open>The candidate's blocks from the last to the first, each against the chain from the last to the first.\<close>

definition findCommonAncestor :: "Block list \<Rightarrow> Block list \<Rightarrow> (Block list \<times> nat option) go" where
  "findCommonAncestor candidateChain chain = scan_candidates (rev candidateChain) chain"

fun validateChainSegment :: "Block list \<Rightarrow> (Block list \<times> bool) go" where
  "validateChainSegment (a # b # rest) =
    go_bind (Hash a) (\<lambda>(a, h).
      if h_PreviousHash (b_Header b) \<noteq> h then Ret (a # b # rest, False)
      else if h_BlockNumber (b_Header b) \<noteq> h_BlockNumber (b_Header a) + 1 then Ret (a # b # rest, False)
      else if b_CumulativeDifficulty b \<noteq> b_CumulativeDifficulty a + ucast (h_Difficulty (b_Header b)) then Ret (a # b # rest, False)
      else go_bind (validateChainSegment (b # rest)) (\<lambda>(bs, ok). Ret (a # bs, ok)))"
| "validateChainSegment segment = Ret (segment, True)"

fun chain_links :: "Block list \<Rightarrow> bool go" where
  "chain_links (previousBlock # currentBlock # rest) =
    (if h_BlockNumber (b_Header currentBlock) \<noteq> h_BlockNumber (b_Header previousBlock) + 1 then Ret False
     else go_bind (Hash previousBlock) (\<lambda>(_, h).
       if h_PreviousHash (b_Header currentBlock) \<noteq> h then Ret False
       else if b_CumulativeDifficulty currentBlock \<noteq> b_CumulativeDifficulty previousBlock + ucast (h_Difficulty (b_Header currentBlock)) then Ret False
       else chain_links (currentBlock # rest)))"
| "chain_links chain = Ret True"

definition genesis_parent :: string where
  "genesis_parent = ''0x'' @ replicate 32 (CHR ''0'')"

definition ValidateCandidateChain :: "Block list \<Rightarrow> bool go" where
  "ValidateCandidateChain candidateChain =
    (case candidateChain of
       [] \<Rightarrow> Ret False
     | g # _ \<Rightarrow>
         if h_BlockNumber (b_Header g) = 0 \<and>
            (h_PreviousHash (b_Header g) \<noteq> genesis_parent \<or> b_CumulativeDifficulty g \<noteq> ucast (h_Difficulty (b_Header g)))
         then Ret False
         else chain_links candidateChain)"

definition reorganizeChain :: "Block list \<Rightarrow> nat \<Rightarrow> 'd Blockchain \<Rightarrow> ('d Blockchain \<times> bool) go" where
  "reorganizeChain newChain commonAncestorIndex bc =
    (let chain = take (commonAncestorIndex + 1) (Chain bc) @ drop (commonAncestorIndex + 1) newChain
     in go_bind (ValidateCandidateChain chain) (\<lambda>ok. if \<not> ok then Ret (bc, False) else Ret (bc\<lparr>Chain := chain\<rparr>, True)))"

definition ResolveFork :: "Block list \<Rightarrow> 'd Blockchain \<Rightarrow> ('d Blockchain \<times> bool) go" where
  "ResolveFork candidateChain bc =
    (if length candidateChain \<le> length (Chain bc) then Ret (bc, False)
     else go_bind (findCommonAncestor candidateChain (Chain bc)) (\<lambda>(chain, ancestor).
       let bc = bc\<lparr>Chain := chain\<rparr> in
       case ancestor of
         None \<Rightarrow> Ret (bc, False)
       | Some j \<Rightarrow>
           go_bind (validateChainSegment (drop j candidateChain)) (\<lambda>(segment, ok).
             let candidateChain = take j candidateChain @ segment in
             if \<not> ok then Ret (bc, False)
             else if b_CumulativeDifficulty (last candidateChain) \<le> b_CumulativeDifficulty (last (Chain bc)) then Ret (bc, False)
             else reorganizeChain candidateChain j bc)))"

definition ReplaceChain :: "Block list \<Rightarrow> 'd Blockchain \<Rightarrow> ('d Blockchain \<times> unit) go" where
  "ReplaceChain newChain bc =
    (if length newChain \<le> length (Chain bc) then Ret (bc, ())
     else go_bind (ValidateCandidateChain newChain) (\<lambda>ok. Ret (if ok then bc\<lparr>Chain := newChain\<rparr> else bc, ())))"

definition ResolveChainConflict :: "Block list \<Rightarrow> 'd Blockchain \<Rightarrow> ('d Blockchain \<times> bool) go" where
  "ResolveChainConflict receivedChain bc =
    (if Chain bc = [] \<or> receivedChain = [] then Panic
     else if b_CumulativeDifficulty (last receivedChain) > b_CumulativeDifficulty (last (Chain bc))
     then Ret (bc\<lparr>Chain := receivedChain\<rparr>, True) else Ret (bc, False))"

section \<open>Checkpoints\<close>

text \<open>A loop over heights that ends with \<open>endHeight\<close>; with the largest 64-bit number it would not end.\<close>

definition heights :: "u64 \<Rightarrow> u64 \<Rightarrow> u64 list" where
  "heights start stop = map word_of_nat [unat start..<Suc (unat stop)]"

fun collect_checkpoints :: "'d goleveldb \<Rightarrow> u64 list \<Rightarrow> 'd Blockchain \<Rightarrow> ('d Blockchain \<times> Checkpoint list) go" where
  "collect_checkpoints L [] bc = Ret (bc, [])"
| "collect_checkpoints L (h # hs) bc =
    go_bind (GetBlockByHeight L h bc) (\<lambda>(bc, block).
      case block of
        Some b \<Rightarrow>
          if h mod CheckpointInterval = 0 then
            go_bind (CreateCheckpoint b) (\<lambda>(_, cp). go_bind (collect_checkpoints L hs bc) (\<lambda>(bc, cps). Ret (bc, cp # cps)))
          else collect_checkpoints L hs bc
      | None \<Rightarrow> collect_checkpoints L hs bc)"

definition GetCheckpoints :: "'d goleveldb \<Rightarrow> u64 \<Rightarrow> u64 \<Rightarrow> 'd Blockchain \<Rightarrow> ('d Blockchain \<times> Checkpoint list) go" where
  "GetCheckpoints L startHeight endHeight = with_rlock bc_mu set_bc_mu (\<lambda>bc.
    if endHeight = - 1 then Block else collect_checkpoints L (heights startHeight endHeight) bc)"

definition header_copy :: "BlockHeader \<Rightarrow> BlockHeader" where
  "header_copy h = h\<lparr>h_ValidatorProof := None, h_ValidatorAddress := [], h_ValidatorSig := []\<rparr>"

fun collect_headers :: "'d goleveldb \<Rightarrow> u64 list \<Rightarrow> 'd Blockchain \<Rightarrow> ('d Blockchain \<times> BlockHeader list) go" where
  "collect_headers L [] bc = Ret (bc, [])"
| "collect_headers L (h # hs) bc =
    go_bind (GetBlockByHeight L h bc) (\<lambda>(bc, block).
      go_bind (collect_headers L hs bc) (\<lambda>(bc, headers).
        Ret (bc, case block of None \<Rightarrow> headers | Some b \<Rightarrow> header_copy (b_Header b) # headers)))"

definition GetHeadersSinceCheckpoint :: "'d goleveldb \<Rightarrow> u64 \<Rightarrow> u64 \<Rightarrow> 'd Blockchain \<Rightarrow> ('d Blockchain \<times> BlockHeader list) go" where
  "GetHeadersSinceCheckpoint L checkpointHeight endHeight = with_rlock bc_mu set_bc_mu (\<lambda>bc.
    if endHeight = - 1 then Block else collect_headers L (heights (checkpointHeight + 1) endHeight) bc)"

definition verifyCheckpoint :: "Checkpoint option \<Rightarrow> chain_error + unit" where
  "verifyCheckpoint cp =
    (case cp of
       None \<Rightarrow> Inl BadCheckpoint
     | Some cp \<Rightarrow>
         if cp_Height cp mod CheckpointInterval \<noteq> 0 then Inl BadCheckpoint
         else if length (cp_StateRoot cp) = 0 \<or> length (cp_UTXORoot cp) = 0 then Inl BadCheckpoint
         else Inr ())"

text \<open>
  The new slice is allocated with room for \<open>Height + 1\<close> blocks of 96 bytes, which panics beyond the
  \<open>2 ^ 48\<close> bytes of the address space.
\<close>

definition FastForwardToCheckpoint :: "Checkpoint option \<Rightarrow> 'd Blockchain \<Rightarrow> ('d Blockchain \<times> (chain_error + unit)) go" where
  "FastForwardToCheckpoint cp = with_lock bc_mu set_bc_mu (\<lambda>bc.
    case verifyCheckpoint cp of
      Inl e \<Rightarrow> Ret (bc, Inl e)
    | Inr _ \<Rightarrow>
        if 96 * uint (cp_Height (the cp) + 1) > 2 ^ 48 then Panic
        else let checkpointBlock = new_block (zero_header\<lparr>h_Version := 1, h_BlockNumber := cp_Height (the cp),
              h_PreviousHash := genesis_parent, h_Timestamp := cp_Timestamp (the cp), h_Difficulty := 0\<rparr>)
        in Ret (bc\<lparr>Chain := [checkpointBlock], bc_currentHash := cp_Hash (the cp)\<rparr>, Inr ()))"

section \<open>Hashes that are filled in\<close>

definition hash_value :: "Block \<Rightarrow> string" where
  "hash_value b = (if b_originalHash b \<noteq> [] then b_originalHash b else CalculateHash b)"

definition filled :: "Block \<Rightarrow> Block" where
  "filled b = (if b_originalHash b \<noteq> [] then b else b\<lparr>b_originalHash := CalculateHash b, b_hash := CalculateHash b\<rparr>)"

lemma Hash_unlocked: "b_mu b = Unlocked \<Longrightarrow> Hash b = Ret (filled b, hash_value b)"
  using Hash_cached [of b] Hash_fresh [of b] by (auto simp: filled_def hash_value_def)

lemma filled_simps [simp]:
  "b_Header (filled b) = b_Header b" "b_CumulativeDifficulty (filled b) = b_CumulativeDifficulty b"
  "b_mu (filled b) = b_mu b" "b_Transactions (filled b) = b_Transactions b" "b_Receipts (filled b) = b_Receipts b"
  by (auto simp: filled_def)

lemma hash_value_filled [simp]: "hash_value (filled b) = hash_value b"
  by (auto simp: filled_def hash_value_def CalculateHash_def)

text \<open>What the links of a chain depend on; filling in a hash does not change it.\<close>

definition view :: "Block \<Rightarrow> BlockHeader \<times> string \<times> u64 \<times> rwmutex" where
  "view b = (b_Header b, hash_value b, b_CumulativeDifficulty b, b_mu b)"

lemma view_filled [simp]: "view (filled b) = view b"
  by (simp add: view_def)

lemma view_update: "map view (chain[j := filled (chain ! j)]) = map view chain"
proof (cases "j < length chain")
  case True
  then have "map view (chain[j := filled (chain ! j)]) = (map view chain)[j := map view chain ! j]"
    by (simp add: List.map_update)
  then show ?thesis by simp
qed (simp add: list_update_beyond)

definition unlocked :: "Block list \<Rightarrow> bool" where
  "unlocked chain \<longleftrightarrow> (\<forall>b\<in>set chain. b_mu b = Unlocked)"

lemma unlocked_iff: "unlocked chain \<longleftrightarrow> (\<forall>x\<in>set (map view chain). snd (snd (snd x)) = Unlocked)"
  by (simp add: unlocked_def view_def)

lemma unlocked_view: "map view chain = map view chain' \<Longrightarrow> unlocked chain = unlocked chain'"
  by (simp only: unlocked_iff)

lemma unlocked_simps [simp]:
  "unlocked []" "unlocked (b # bs) \<longleftrightarrow> b_mu b = Unlocked \<and> unlocked bs"
  "unlocked (as @ bs) \<longleftrightarrow> unlocked as \<and> unlocked bs" "unlocked (rev bs) = unlocked bs"
  by (auto simp: unlocked_def)

lemma unlocked_take: "unlocked bs \<Longrightarrow> unlocked (take n bs)" and unlocked_drop: "unlocked bs \<Longrightarrow> unlocked (drop n bs)"
  by (auto simp: unlocked_def dest: in_set_takeD in_set_dropD)

lemma unlocked_nth: "unlocked bs \<Longrightarrow> i < length bs \<Longrightarrow> b_mu (bs ! i) = Unlocked"
  by (simp add: unlocked_def)

section \<open>A well-linked chain\<close>

text \<open>Block \<open>i\<close> carries the number \<open>i\<close>, and every block names the hash of the one before it.\<close>

definition chain_ok :: "Block list \<Rightarrow> bool" where
  "chain_ok chain \<longleftrightarrow> unlocked chain \<and>
     (\<forall>i < length chain. h_BlockNumber (b_Header (chain ! i)) = word_of_nat i) \<and>
     (\<forall>i. Suc i < length chain \<longrightarrow> h_PreviousHash (b_Header (chain ! Suc i)) = hash_value (chain ! i))"

lemma chain_ok_view:
  assumes "map view chain = map view chain'" "chain_ok chain"
  shows "chain_ok chain'"
proof -
  have len: "length chain = length chain'" using assms(1) map_eq_imp_length_eq by blast
  have v: "view (chain ! i) = view (chain' ! i)" if "i < length chain" for i
    using that assms(1) len by (metis nth_map)
  show ?thesis
    using assms(2) v len unlocked_view [OF assms(1)] by (auto simp: chain_ok_def view_def)
qed

lemma chain_ok_take: "chain_ok chain \<Longrightarrow> chain_ok (take n chain)"
  by (auto simp: chain_ok_def unlocked_take)

lemma chain_ok_snoc:
  assumes "chain_ok chain" "b_mu b = Unlocked" "h_BlockNumber (b_Header b) = word_of_nat (length chain)"
    and "chain \<noteq> [] \<Longrightarrow> h_PreviousHash (b_Header b) = hash_value (last chain)"
  shows "chain_ok (chain @ [b])"
proof -
  have "h_BlockNumber (b_Header ((chain @ [b]) ! i)) = word_of_nat i" if "i < length (chain @ [b])" for i
    using that assms(1,3) by (cases "i < length chain") (auto simp: nth_append chain_ok_def not_less le_less_Suc_eq)
  moreover have "h_PreviousHash (b_Header ((chain @ [b]) ! Suc i)) = hash_value ((chain @ [b]) ! i)"
    if "Suc i < length (chain @ [b])" for i
  proof (cases "Suc i < length chain")
    case True
    then show ?thesis using assms(1) by (simp add: nth_append chain_ok_def)
  next
    case False
    then have i: "length chain = Suc i" using that by simp
    then have ne: "chain \<noteq> []" by auto
    then have "chain ! i = last chain" using i by (simp add: last_conv_nth)
    then show ?thesis using i ne assms(4) by (simp add: nth_append)
  qed
  ultimately show ?thesis using assms(1,2) by (simp add: chain_ok_def)
qed

lemma chain_links_iff:
  "unlocked chain \<Longrightarrow> chain_links chain = Ret (\<forall>i. Suc i < length chain \<longrightarrow>
     h_BlockNumber (b_Header (chain ! Suc i)) = h_BlockNumber (b_Header (chain ! i)) + 1 \<and>
     h_PreviousHash (b_Header (chain ! Suc i)) = hash_value (chain ! i) \<and>
     b_CumulativeDifficulty (chain ! Suc i) = b_CumulativeDifficulty (chain ! i) + ucast (h_Difficulty (b_Header (chain ! Suc i))))"
proof (induction chain rule: chain_links.induct)
  case (1 a b rest)
  have split: "(\<forall>i. Suc i < length (a # b # rest) \<longrightarrow> P ((a # b # rest) ! Suc i) ((a # b # rest) ! i)) \<longleftrightarrow>
      P b a \<and> (\<forall>i. Suc i < length (b # rest) \<longrightarrow> P ((b # rest) ! Suc i) ((b # rest) ! i))" for P
    by (auto simp: nth_Cons split: nat.splits)
  have "chain_links (b # rest) = Ret (\<forall>i. Suc i < length (b # rest) \<longrightarrow>
     h_BlockNumber (b_Header ((b # rest) ! Suc i)) = h_BlockNumber (b_Header ((b # rest) ! i)) + 1 \<and>
     h_PreviousHash (b_Header ((b # rest) ! Suc i)) = hash_value ((b # rest) ! i) \<and>
     b_CumulativeDifficulty ((b # rest) ! Suc i) = b_CumulativeDifficulty ((b # rest) ! i) + ucast (h_Difficulty (b_Header ((b # rest) ! Suc i))))"
    if "h_BlockNumber (b_Header b) = h_BlockNumber (b_Header a) + 1" "h_PreviousHash (b_Header b) = hash_value a"
      "b_CumulativeDifficulty b = b_CumulativeDifficulty a + ucast (h_Difficulty (b_Header b))"
    using 1 that Hash_unlocked [of a] by auto
  then show ?case
    using 1(2) unfolding split [of "\<lambda>y x. h_BlockNumber (b_Header y) = h_BlockNumber (b_Header x) + 1 \<and> h_PreviousHash (b_Header y) = hash_value x \<and>
        b_CumulativeDifficulty y = b_CumulativeDifficulty x + ucast (h_Difficulty (b_Header y))"]
    by (auto simp: Hash_unlocked)
qed simp_all

lemma chain_ok_linked:
  assumes "unlocked chain" "chain_links chain = Ret True" "h_BlockNumber (b_Header (hd chain)) = 0"
  shows "chain_ok chain"
proof -
  note links = assms(2) [unfolded chain_links_iff [OF assms(1)], simplified]
  have "h_BlockNumber (b_Header (chain ! i)) = word_of_nat i" if "i < length chain" for i
    using that
  proof (induction i)
    case 0
    then show ?case using assms(3) by (cases chain) simp_all
  next
    case (Suc i)
    then show ?case using links by (simp add: of_nat_Suc add.commute)
  qed
  then show ?thesis using assms(1) links by (simp add: chain_ok_def)
qed


section \<open>Forks\<close>

lemma scan_chain_returns:
  assumes "unlocked chain" "b_mu c = Unlocked" "j \<le> length chain"
  shows "\<exists>chain' r. scan_chain j c chain = Ret (chain', r) \<and> map view chain' = map view chain \<and> (\<forall>i. r = Some i \<longrightarrow> i < length chain)"
  using assms
proof (induction j arbitrary: c chain)
  case (Suc j)
  let ?chain = "chain[j := filled (chain ! j)]"
  have v: "map view ?chain = map view chain" by (rule view_update)
  have "unlocked ?chain" using unlocked_view [OF v] Suc.prems(1) by simp
  then obtain chain' r where "scan_chain j (filled c) ?chain = Ret (chain', r)" "map view chain' = map view ?chain"
    "\<forall>i. r = Some i \<longrightarrow> i < length chain"
    using Suc.IH [of ?chain "filled c"] Suc.prems by auto
  then show ?case
    using v Suc.prems unlocked_nth [OF Suc.prems(1), of j] by (auto simp: Hash_unlocked)
qed simp

lemma scan_candidates_returns:
  assumes "unlocked chain" "unlocked cs"
  shows "\<exists>chain' r. scan_candidates cs chain = Ret (chain', r) \<and> map view chain' = map view chain \<and> (\<forall>i. r = Some i \<longrightarrow> i < length chain)"
  using assms
proof (induction cs arbitrary: chain)
  case (Cons c cs)
  obtain chain' r where 1: "scan_chain (length chain) c chain = Ret (chain', r)" "map view chain' = map view chain"
    "\<forall>i. r = Some i \<longrightarrow> i < length chain"
    using scan_chain_returns [of chain c "length chain"] Cons.prems by auto
  have len: "length chain' = length chain" using 1(2) map_eq_imp_length_eq by blast
  have "unlocked chain'" using unlocked_view [OF 1(2)] Cons.prems by simp
  then obtain chain2 r2 where 2: "scan_candidates cs chain' = Ret (chain2, r2)" "map view chain2 = map view chain'"
    "\<forall>i. r2 = Some i \<longrightarrow> i < length chain'"
    using Cons.IH [of chain'] Cons.prems by auto
  show ?case using 1 2 len by (cases r) simp_all
qed simp

lemma validateChainSegment_returns:
  "unlocked segment \<Longrightarrow> \<exists>segment' ok. validateChainSegment segment = Ret (segment', ok) \<and> map view segment' = map view segment"
proof (induction segment rule: validateChainSegment.induct)
  case (1 a b rest)
  have "\<exists>bs ok. validateChainSegment (b # rest) = Ret (bs, ok) \<and> map view bs = map view (b # rest)"
    if "h_PreviousHash (b_Header b) = hash_value a" "h_BlockNumber (b_Header b) = h_BlockNumber (b_Header a) + 1"
      "b_CumulativeDifficulty b = b_CumulativeDifficulty a + ucast (h_Difficulty (b_Header b))"
    using 1 that Hash_unlocked [of a] by auto
  then show ?case using 1(2) Hash_unlocked [of a] by fastforce
qed (simp, blast)+

lemma ValidateCandidateChain_returns: "unlocked chain \<Longrightarrow> \<exists>v. ValidateCandidateChain chain = Ret v"
  by (cases chain) (auto simp: ValidateCandidateChain_def chain_links_iff simp del: chain_links.simps intro: exI [of _ False])

lemma last_view: "map view xs = map view ys \<Longrightarrow> xs \<noteq> [] \<Longrightarrow> view (last xs) = view (last ys)"
  by (metis last_map map_is_Nil_conv)

text \<open>What a call of \<open>ResolveFork\<close> does, for blocks whose locks are free.\<close>

lemma ResolveFork_returns:
  assumes "unlocked (Chain bc)" "unlocked cand"
  shows "\<exists>bc' ok. ResolveFork cand bc = Ret (bc', ok) \<and>
    (\<not> ok \<longrightarrow> map view (Chain bc') = map view (Chain bc)) \<and>
    (ok \<longrightarrow> (\<exists>j < length (Chain bc). map view (Chain bc') = map view (take (j + 1) (Chain bc) @ drop (j + 1) cand)) \<and>
       unlocked (Chain bc') \<and> ValidateCandidateChain (Chain bc') = Ret True \<and>
       b_CumulativeDifficulty (last (Chain bc)) < b_CumulativeDifficulty (last (Chain bc')))"
proof (cases "length cand \<le> length (Chain bc)")
  case True
  then show ?thesis by (intro exI [of _ bc] exI [of _ False]) (simp add: ResolveFork_def)
next
  case longer: False
  obtain chain r where f: "findCommonAncestor cand (Chain bc) = Ret (chain, r)" "map view chain = map view (Chain bc)"
    "\<And>i. r = Some i \<Longrightarrow> i < length (Chain bc)"
    using scan_candidates_returns [of "Chain bc" "rev cand"] assms by (auto simp: findCommonAncestor_def)
  show ?thesis
  proof (cases r)
    case None
    then show ?thesis
      using longer f(1,2) by (intro exI [of _ "bc\<lparr>Chain := chain\<rparr>"] exI [of _ False]) (simp add: ResolveFork_def Let_def)
  next
    case (Some j)
    then have j: "j < length (Chain bc)" using f(3) by simp
    obtain seg ok where s: "validateChainSegment (drop j cand) = Ret (seg, ok)" "map view seg = map view (drop j cand)"
      using validateChainSegment_returns [OF unlocked_drop [OF assms(2), of j]] by blast
    let ?cand = "take j cand @ seg"
    let ?new = "take (j + 1) chain @ drop (j + 1) ?cand"
    have vc: "map view ?cand = map view cand"
      using s(2) by (metis append_take_drop_id map_append)
    have vn: "map view ?new = map view (take (j + 1) (Chain bc) @ drop (j + 1) cand)"
      using arg_cong [OF vc, of "drop (j + 1)"] arg_cong [OF f(2), of "take (j + 1)"]
      unfolding drop_map take_map map_append [of view "take (j + 1) _"] by simp
    have un: "unlocked ?new"
      using unlocked_view [OF vn] assms by (simp add: unlocked_take unlocked_drop)
    have len: "length ?cand = length cand" "length chain = length (Chain bc)"
      using vc f(2) map_eq_imp_length_eq by blast+
    have lastn: "last ?new = last ?cand" using longer j len by (simp only: last_append last_drop) simp
    have lastc: "b_CumulativeDifficulty (last chain) = b_CumulativeDifficulty (last (Chain bc))"
      using last_view [OF f(2)] j len(2) by (cases chain) (auto simp: view_def)
    obtain v where v: "ValidateCandidateChain ?new = Ret v" using ValidateCandidateChain_returns [OF un] by blast
    have r: "ResolveFork cand bc =
      (if \<not> ok \<or> b_CumulativeDifficulty (last ?cand) \<le> b_CumulativeDifficulty (last chain) then Ret (bc\<lparr>Chain := chain\<rparr>, False)
       else reorganizeChain ?cand j (bc\<lparr>Chain := chain\<rparr>))"
      using longer f(1) Some s(1) by (simp add: ResolveFork_def Let_def)
    have "reorganizeChain ?cand j (bc\<lparr>Chain := chain\<rparr>) = (if v then Ret (bc\<lparr>Chain := ?new\<rparr>, True) else Ret (bc\<lparr>Chain := chain\<rparr>, False))"
      using v by (simp add: reorganizeChain_def Let_def)
    then show ?thesis
      using f(2) j v vn un lastn lastc unfolding r by (cases v) (auto simp: not_le)
  qed
qed


text \<open>
  C11. A node whose chain starts at the genesis block that the program creates never leaves its fork: the
  block has difficulty 1 and cumulative difficulty 0, which the validation of a candidate chain
  rejects. Whatever chain is offered, \<open>ResolveFork\<close> answers no and keeps every block.
\<close>

theorem ResolveFork_never_reorganises:
  assumes "unlocked (Chain bc)" "unlocked cand" "Chain bc \<noteq> []" "b_Header (hd (Chain bc)) = b_Header (GenesisBlock now)"
    and "b_CumulativeDifficulty (hd (Chain bc)) = 0"
  shows "\<exists>bc'. ResolveFork cand bc = Ret (bc', False) \<and> map view (Chain bc') = map view (Chain bc)"
proof -
  obtain bc' ok where r: "ResolveFork cand bc = Ret (bc', ok)" "\<not> ok \<Longrightarrow> map view (Chain bc') = map view (Chain bc)"
    "ok \<Longrightarrow> \<exists>j < length (Chain bc). map view (Chain bc') = map view (take (j + 1) (Chain bc) @ drop (j + 1) cand)"
    "ok \<Longrightarrow> ValidateCandidateChain (Chain bc') = Ret True"
    using ResolveFork_returns [OF assms(1,2)] by blast
  have "\<not> ok"
  proof
    assume ok: ok
    obtain j where j: "map view (Chain bc') = map view (take (j + 1) (Chain bc) @ drop (j + 1) cand)" using r(3) ok by blast
    obtain g rest where g: "Chain bc = g # rest" using assms(3) by (cases "Chain bc") auto
    then obtain g' rest' where "Chain bc' = g' # rest'" "view g' = view g" using j by (cases "Chain bc'") auto
    then show False
      using r(4) ok g assms(4,5)
      by (simp add: ValidateCandidateChain_def view_def GenesisBlock_def new_block_def)
  qed
  then show ?thesis using r(1,2) by simp
qed

theorem ResolveFork_never_reorganises_witness:
  "\<exists>bc'. ResolveFork [GenesisBlock 0, (GenesisBlock 1)\<lparr>b_CumulativeDifficulty := 100\<rparr>]
      (InitialiseBlockchainWithStore 0 \<lparr>ldb_db = [] :: (string, json) gomap, ldb_closed = False\<rparr>) = Ret (bc', False) \<and>
    map view (Chain bc') = [view (GenesisBlock 0)]"
  using ResolveFork_never_reorganises [of "InitialiseBlockchainWithStore 0 \<lparr>ldb_db = [] :: (string, json) gomap, ldb_closed = False\<rparr>"
      "[GenesisBlock 0, (GenesisBlock 1)\<lparr>b_CumulativeDifficulty := 100\<rparr>]" 0]
  by (simp add: InitialiseBlockchainWithStore_def GenesisBlock_def new_block_def)

lemma ResolveFork_chain_ok:
  assumes "chain_ok (Chain bc)" "unlocked cand" "ResolveFork cand bc = Ret (bc', ok)"
  shows "chain_ok (Chain bc')"
proof -
  have u: "unlocked (Chain bc)" using assms(1) by (simp add: chain_ok_def)
  note r = ResolveFork_returns [OF u assms(2)]
  show ?thesis
  proof (cases ok)
    case False
    then have "map view (Chain bc') = map view (Chain bc)" using r assms(3) by auto
    then show ?thesis using chain_ok_view assms(1) by metis
  next
    case True
    then obtain j where j: "j < length (Chain bc)" "map view (Chain bc') = map view (take (j + 1) (Chain bc) @ drop (j + 1) cand)"
      and v: "unlocked (Chain bc')" "ValidateCandidateChain (Chain bc') = Ret True"
      using r assms(3) by auto
    obtain g rest where g: "Chain bc = g # rest" using j(1) by (cases "Chain bc") auto
    then obtain g' rest' where g': "Chain bc' = g' # rest'" "view g' = view g" using j(2) by (cases "Chain bc'") auto
    have "h_BlockNumber (b_Header g) = 0" using assms(1) g by (auto simp: chain_ok_def)
    then have "h_BlockNumber (b_Header (hd (Chain bc'))) = 0" using g' by (simp add: view_def)
    moreover have "chain_links (Chain bc') = Ret True"
      using v(2) g' by (auto simp: ValidateCandidateChain_def split: if_splits)
    ultimately show ?thesis using chain_ok_linked v(1) by blast
  qed
qed

section \<open>The chain over its life\<close>

lemma put_block_chain: "append_block L block h bc = (bc', r) \<Longrightarrow> Chain bc' = Chain bc @ [block]"
  by (auto simp: append_block_def Let_def split: option.splits prod.splits if_splits)

lemma hash_last_unlocked:
  assumes "unlocked chain" "chain \<noteq> []"
  shows "\<exists>chain'. hash_last chain = Ret (chain', hash_value (last chain)) \<and> map view chain' = map view chain"
proof -
  have "b_mu (last chain) = Unlocked" using assms by (simp add: unlocked_def)
  moreover have "map view (butlast chain @ [filled (last chain)]) = map view chain"
    using append_butlast_last_id [OF assms(2)] by (metis map_append list.map view_filled)
  ultimately show ?thesis by (simp add: hash_last_def Hash_unlocked)
qed

text \<open>The ways a call of \<open>addBlockWithoutValidation\<close> leaves the blocks in memory.\<close>

lemma addBlock_cases:
  assumes "unlocked (Chain bc)" "b_mu block = Unlocked" "addBlockWithoutValidation L block bc = Ret (bc', (block', r))"
  obtains "map view (Chain bc') = map view (Chain bc)"
    | chain where "map view chain = map view (Chain bc)" "h_BlockNumber (b_Header block) = word_of_nat (length (Chain bc))"
        "Chain bc \<noteq> [] \<Longrightarrow> h_PreviousHash (b_Header block) = hash_value (last (Chain bc))" "Chain bc' = chain @ [filled block]"
proof -
  have mu: "bc_mu bc = Unlocked"
    using chain_mu.lock_body [OF assms(3) [unfolded addBlockWithoutValidation_def]] by blast
  note eq = assms(3) [unfolded addBlockWithoutValidation_def chain_mu.lock_enters [OF mu]]
  show ?thesis
  proof (cases "hash_value block \<noteq> b_hash (filled block) \<or> h_BlockNumber (b_Header block) \<noteq> word_of_nat (length (Chain bc))")
    case True
    then have "Chain bc' = Chain bc" using eq assms(2) by (auto simp: Hash_unlocked split: if_splits)
    then show ?thesis using that(1) by simp
  next
    case fits: False
    show ?thesis
    proof (cases "Chain bc = []")
      case True
      then have "Chain bc' = [filled block]"
        using eq assms(2) fits by (auto simp: Hash_unlocked dest: put_block_chain split: prod.splits)
      then show ?thesis using that(2) [of "[]"] True fits by simp
    next
      case False
      obtain chain where c: "hash_last (Chain bc) = Ret (chain, hash_value (last (Chain bc)))" "map view chain = map view (Chain bc)"
        using hash_last_unlocked [OF assms(1) False] by blast
      show ?thesis
      proof (cases "h_PreviousHash (b_Header block) = hash_value (last (Chain bc))")
        case True
        then have "Chain bc' = chain @ [filled block]"
          using eq assms(2) fits False c(1) by (auto simp: Hash_unlocked dest: put_block_chain split: prod.splits)
        then show ?thesis using that(2) c(2) True fits by blast
      next
        case wrong: False
        then have "Chain bc' = chain" using eq assms(2) fits False c(1) by (auto simp: Hash_unlocked)
        then show ?thesis using that(1) c(2) by simp
      qed
    qed
  qed
qed

lemma addBlock_chain_ok:
  assumes "chain_ok (Chain bc)" "b_mu block = Unlocked" "addBlockWithoutValidation L block bc = Ret (bc', (block', r))"
  shows "chain_ok (Chain bc')"
proof -
  have u: "unlocked (Chain bc)" using assms(1) by (simp add: chain_ok_def)
  show ?thesis
  proof (cases rule: addBlock_cases [OF u assms(2,3)])
    case 1
    then show ?thesis using chain_ok_view [OF _ assms(1)] by simp
  next
    case (2 chain)
    have ok: "chain_ok chain" using chain_ok_view [OF _ assms(1)] 2(1) by simp
    have len: "length chain = length (Chain bc)" using 2(1) map_eq_imp_length_eq by blast
    have "hash_value (last chain) = hash_value (last (Chain bc))" if "chain \<noteq> []"
      using last_view [OF 2(1) that] by (simp add: view_def)
    moreover have "Chain bc \<noteq> []" if "chain \<noteq> []" using that len by auto
    ultimately show ?thesis using 2 ok len assms(2) by (auto intro!: chain_ok_snoc)
  qed
qed

lemma RollbackToHeight_chain_ok:
  assumes "chain_ok (Chain bc)" "RollbackToHeight h bc = Ret (bc', r)"
  shows "chain_ok (Chain bc')"
proof -
  have mu: "bc_mu bc = Unlocked" using chain_mu.lock_body [OF assms(2) [unfolded RollbackToHeight_def]] by blast
  show ?thesis
    using assms chain_ok_take [OF assms(1)] mu
    by (auto simp: RollbackToHeight_def chain_mu.lock_enters split: if_splits)
qed

lemma position_of_SomeD: "position_of h chain = Some i \<Longrightarrow> i < length chain"
  by (auto simp: position_of_def find_Some_iff)

lemma view_b_hash: "view (b\<lparr>b_hash := h\<rparr>) = view b"
  by (simp add: view_def hash_value_def CalculateHash_def)

lemma block_by_height_view:
  assumes "unlocked (Chain bc)" "block_by_height L h bc = Ret (bc', r)"
  shows "map view (Chain bc') = map view (Chain bc)"
proof (cases "position_of h (Chain bc)")
  case (Some i)
  then have i: "i < length (Chain bc)" by (rule position_of_SomeD)
  then have "Chain bc' = (Chain bc)[i := (filled (Chain bc ! i))\<lparr>b_hash := hash_value (Chain bc ! i)\<rparr>]"
    using assms Some by (auto simp: block_by_height_def Hash_unlocked unlocked_nth Let_def)
  then show ?thesis
    using i by (simp add: List.map_update view_b_hash) (metis list_update_id nth_map)
next
  case None
  then show ?thesis using assms(2)
    by (auto simp: block_by_height_def go_simps split: option.splits sum.splits)
qed

lemma GetBlockByHeight_chain_ok:
  assumes "chain_ok (Chain bc)" "GetBlockByHeight L h bc = Ret (bc', r)"
  shows "chain_ok (Chain bc')"
proof -
  obtain l bc1 where b: "block_by_height L h (bc\<lparr>bc_mu := l\<rparr>) = Ret (bc1, r)" "Chain bc' = Chain bc1"
    using assms(2) by (auto simp: GetBlockByHeight_def with_rlock_def go_simps split: rwmutex.splits prod.splits)
  have "unlocked (Chain (bc\<lparr>bc_mu := l\<rparr>))" using assms(1) by (simp add: chain_ok_def)
  from block_by_height_view [OF this b(1)] show ?thesis
    using chain_ok_view [OF _ assms(1)] b(2) by simp
qed

lemma on_pool_chain: "on_pool f pool bc = Ret (bc', r) \<Longrightarrow> Chain bc' = Chain bc"
  by (auto simp: on_pool_def go_simps split: prod.splits)

lemma process_utxos_chain: "process_utxos L now block bc = Ret (bc', r) \<Longrightarrow> Chain bc' = Chain bc"
  by (auto simp: process_utxos_def dest: on_pool_chain split: option.splits)

lemma GetLatestBlock_chain: "GetLatestBlock L bc = Ret (bc', r) \<Longrightarrow> Chain bc' = Chain bc"
  by (auto simp: GetLatestBlock_def with_rlock_def go_simps
      split: rwmutex.splits prod.splits option.splits sum.splits if_splits json.splits)

lemma ValidateBlockHash_unlocked:
  "b_mu block = Unlocked \<Longrightarrow> ValidateBlockHash block = Ret (filled block, calculateHash block = hash_value block)"
  by (simp add: ValidateBlockHash_def Hash_unlocked)

lemma chain_ValidateBlock_frame:
  assumes "b_mu block = Unlocked" "chain_ValidateBlock L block bc = Ret (bc', (block', r))"
  shows "Chain bc' = Chain bc" "block' = filled block"
  using assms(2) ValidateBlockHash_unlocked [OF assms(1)]
  by (auto simp: chain_ValidateBlock_def go_simps dest: GetLatestBlock_chain split: prod.splits option.splits if_splits)

lemma AddBlockWithUTXOProcessing_chain_ok:
  assumes "chain_ok (Chain bc)" "b_mu block = Unlocked" "AddBlockWithUTXOProcessing L now block bc = Ret (bc', r)"
  shows "chain_ok (Chain bc')"
proof -
  obtain bc1 b1 r1 where v: "chain_ValidateBlock L block bc = Ret (bc1, (b1, r1))"
    using assms(3) unfolding AddBlockWithUTXOProcessing_def go_bind_Ret_iff by force
  note c1 = chain_ValidateBlock_frame [OF assms(2) v]
  show ?thesis
  proof (cases r1)
    case (Inl e)
    then show ?thesis using assms(1,3) v c1 by (auto simp: AddBlockWithUTXOProcessing_def)
  next
    case (Inr u)
    then obtain bc2 b2 r2 where a: "addBlockWithoutValidation L b1 bc1 = Ret (bc2, (b2, r2))"
      and rest: "(case r2 of Inl e \<Rightarrow> Ret (bc2, Inl e)
        | Inr _ \<Rightarrow> go_bind (process_utxos L now b2 bc2) (\<lambda>(bc, _). Ret (bc, Inr ()))) = Ret (bc', r)"
      using assms(3) unfolding AddBlockWithUTXOProcessing_def v by (auto simp: go_bind_Ret_iff)
    have "chain_ok (Chain bc2)" using addBlock_chain_ok [OF _ _ a] assms(1,2) c1 by simp
    moreover have "Chain bc' = Chain bc2"
      using rest by (cases r2) (auto simp: go_bind_Ret_iff dest: process_utxos_chain)
    ultimately show ?thesis by simp
  qed
qed

lemma saveBlock_chain:
  assumes "saveBlock L g bc = Ret (bc', r)"
  shows "Chain bc' = Chain bc"
proof (cases "bc_db bc")
  case (Some db)
  show ?thesis
  proof (cases "Serialize g")
    case (Some j)
    then obtain g' h where "Hash g = Ret (g', h)"
      using assms \<open>bc_db bc = Some db\<close> by (auto simp: saveBlock_def go_bind_Ret_iff)
    moreover obtain db' res where "put_block L g h db = (db', res)" by (rule prod.exhaust)
    ultimately show ?thesis
      using assms Some \<open>bc_db bc = Some db\<close> by (cases res) (auto simp: saveBlock_def go_simps Let_def)
  qed (use assms Some in \<open>simp add: saveBlock_def\<close>)
qed (use assms in \<open>simp add: saveBlock_def\<close>)

lemma InitializeChain_chain_ok:
  assumes "chain_ok (Chain bc)" "InitializeChain L now validator bc = Ret (bc', r)"
  shows "chain_ok (Chain bc')"
proof -
  have mu: "bc_mu bc = Unlocked" using chain_mu.lock_body [OF assms(2) [unfolded InitializeChain_def]] by blast
  show ?thesis
  proof (cases "GetHeight (bc\<lparr>bc_mu := Locked\<rparr>) > 0")
    case True
    then show ?thesis using assms unfolding InitializeChain_def chain_mu.lock_enters [OF mu] by auto
  next
    case False
    define g where "g sr = (let genesis = (case validator of None \<Rightarrow> GenesisBlock now
        | Some a \<Rightarrow> (GenesisBlock now)\<lparr>b_Header := (b_Header (GenesisBlock now))\<lparr>h_ValidatedBy := a, h_ValidatorAddress := a\<rparr>\<rparr>)
      in genesis\<lparr>b_Header := (b_Header genesis)\<lparr>h_StateRoot := sr\<rparr>\<rparr>)" for sr
    have g: "b_mu (g sr) = Unlocked" "h_BlockNumber (b_Header (g sr)) = 0" for sr
      by (auto simp: g_def GenesisBlock_def new_block_def Let_def split: option.splits)
    let ?b = "\<lambda>sr. (filled (g sr))\<lparr>b_hash := hash_value (g sr)\<rparr>"
    obtain sr bc1 r1 a where s: "saveBlock L (?b sr) (bc\<lparr>bc_mu := Locked\<rparr>) = Ret (bc1, r1)"
      and bc': "bc' = a\<lparr>bc_mu := Unlocked\<rparr>" and rest: "(case r1 of Inl e \<Rightarrow> Ret (bc1, Inl e)
        | Inr _ \<Rightarrow> (case bc_db bc1 of None \<Rightarrow> Panic
            | Some db \<Rightarrow> (case db_Put L ''latest_block'' (JStr (b_hash (?b sr))) db of
                 (db, Inl e) \<Rightarrow> Ret (bc1\<lparr>Chain := [?b sr], bc_currentHash := b_hash (?b sr), bc_db := Some db\<rparr>, Inl (StoreFailed e))
               | (db, Inr _) \<Rightarrow> Ret (bc1\<lparr>Chain := [?b sr], bc_currentHash := b_hash (?b sr), bc_db := Some db\<rparr>, Inr ())))) = Ret (a, r)"
      using assms(2) False g(1) unfolding InitializeChain_def chain_mu.lock_enters [OF mu] Let_def g_def [unfolded Let_def, symmetric]
      by (auto simp: go_bind_Ret_iff Hash_unlocked)
    have "chain_ok [?b sr]" using g by (simp add: chain_ok_def)
    moreover have "Chain bc1 = Chain bc" using saveBlock_chain [OF s] by simp
    ultimately show ?thesis
      using rest bc' assms(1) by (auto split: sum.split_asm option.split_asm prod.split_asm)
  qed
qed

text \<open>The operations of the chain that take blocks from outside, and those that drop or renew them.\<close>

inductive chain_step :: "'d goleveldb \<Rightarrow> 'd Blockchain \<Rightarrow> 'd Blockchain \<Rightarrow> bool" for L where
  step_process: "b_mu block = Unlocked \<Longrightarrow> AddBlockWithUTXOProcessing L now block bc = Ret (bc', r) \<Longrightarrow> chain_step L bc bc'"
| step_add: "b_mu block = Unlocked \<Longrightarrow> addBlockWithoutValidation L block bc = Ret (bc', r) \<Longrightarrow> chain_step L bc bc'"
| step_rollback: "RollbackToHeight h bc = Ret (bc', r) \<Longrightarrow> chain_step L bc bc'"
| step_fork: "unlocked cand \<Longrightarrow> ResolveFork cand bc = Ret (bc', ok) \<Longrightarrow> chain_step L bc bc'"
| step_lookup: "GetBlockByHeight L h bc = Ret (bc', found) \<Longrightarrow> chain_step L bc bc'"
| step_init: "InitializeChain L now validator bc = Ret (bc', r) \<Longrightarrow> chain_step L bc bc'"

lemma chain_step_ok: "chain_step L bc bc' \<Longrightarrow> chain_ok (Chain bc) \<Longrightarrow> chain_ok (Chain bc')"
proof (induction rule: chain_step.induct)
  case (step_add block bc bc' r)
  then show ?case using addBlock_chain_ok by (cases r) blast
qed (blast intro: AddBlockWithUTXOProcessing_chain_ok RollbackToHeight_chain_ok ResolveFork_chain_ok
    GetBlockByHeight_chain_ok InitializeChain_chain_ok)+


definition empty_db :: "(string, json) gomap levelDB" where
  "empty_db = \<lparr>ldb_db = [], ldb_closed = False\<rparr>"


section \<open>What is left of a stored block\<close>

lemma fold_keys:
  "fold_key ''Header'' = ''header''" "fold_key ''Body'' = ''body''" "fold_key ''CumulativeDifficulty'' = ''cumulativedifficulty''"
  "fold_key ''Transactions'' = ''transactions''" "fold_key ''Receipts'' = ''receipts''" "fold_key ''Root'' = ''root''"
  "fold_key ''header'' = ''header''" "fold_key ''body'' = ''body''" "fold_key ''cumulativeDifficulty'' = ''cumulativedifficulty''"
  "fold_key ''transactions'' = ''transactions''" "fold_key ''receipts'' = ''receipts''" "fold_key ''txList'' = ''txlist''"
  "fold_key ''hash'' = ''hash''" "fold_key ''originalHash'' = ''originalhash''"
  by code_simp+

lemma load_Serialize:
  assumes "Serialize b = Some j" "header_ok (b_Header b)"
  shows "\<exists>b'. load_block j = Ret (Some b') \<and> b_Header b' = b_Header b \<and> b_CumulativeDifficulty b' = b_CumulativeDifficulty b \<and>
    b_Receipts b' = b_Receipts b \<and> GetAllTransactions (b_Transactions b') = [] \<and> b_originalHash b' = [] \<and> b_mu b' = Unlocked"
proof -
  obtain h t rs where e: "enc_header (b_Header b) = Some h" "enc_trie (b_Transactions b) = Some t"
    "enc_list enc_receipt (b_Receipts b) = Some rs"
    using assms(1) by (auto simp: Serialize_def split: option.splits)
  have "h \<noteq> JNull" using e(1) by (auto simp: enc_header_def split: option.splits)
  then have d: "dec_ptr dec_header h = Some (Some (b_Header b))" "dec_list dec_receipt rs = Some (b_Receipts b)"
    using dec_enc_header [OF assms(2) e(1)] dec_enc_list [OF e(3)] by (auto simp: dec_ptr_def dec_enc_receipt)
  have j: "j = JObj [(''Header'', h), (''Body'', JObj [(''Transactions'', JObj [(''Root'', t)]), (''Receipts'', rs)]),
           (''CumulativeDifficulty'', JInt (uint (b_CumulativeDifficulty b)))]"
    using assms(1) e by (simp add: Serialize_def)
  obtain trie rt where t: "GenerateRootHash NewPatriciaTrie = (trie, rt)" by fastforce
  have "GetAllTransactions trie = GetAllTransactions NewPatriciaTrie" using GetAllTransactions_root_hash t by (metis fst_conv)
  moreover have "GetAllTransactions NewPatriciaTrie = []" by code_simp
  ultimately show ?thesis
    using d t by (simp add: j load_block_def UnmarshalJSON_def field_def fold_keys new_block_def dec_list_def)
qed

lemma block_key_not_latest: "block_key h \<noteq> ''latest_block''"
proof -
  have "char_of (1 :: nat) \<noteq> CHR ''l''" by code_simp
  then show ?thesis by (simp add: block_key_def prefixed_def CreateKey_def BlockPrefix_def)
qed

lemma saved_block_found:
  assumes "leveldb_laws L" "b_mu b = Unlocked" "saveBlock L b bc = Ret (bc', Inr ())"
  shows "\<exists>j db. Serialize b = Some j \<and> bc' = bc\<lparr>bc_db := Some db\<rparr> \<and> db_Get L (block_key (hash_value b)) db = Inr j"
proof -
  obtain db0 j where s: "bc_db bc = Some db0" "Serialize b = Some j"
    using assms(3) by (auto simp: saveBlock_def split: option.splits)
  obtain db1 r1 where p1: "db_Put L (block_key (hash_value b)) j db0 = (db1, r1)" by (rule prod.exhaust)
  obtain db2 r2 where p2: "db_Put L ''latest_block'' (JStr (hash_value b)) db1 = (db2, r2)" by (rule prod.exhaust)
  have r: "r1 = Inr ()" "r2 = Inr ()" "bc' = bc\<lparr>bc_db := Some db2\<rparr>"
    using assms(2,3) s p1 p2
    by (auto simp: saveBlock_def Hash_unlocked put_block_def go_bind_Ret_iff Let_def split: sum.splits)
  then show ?thesis
    using s db_Get_Put [OF assms(1)] p1 p2 block_key_not_latest by metis
qed


lemma saveBlock_memory:
  assumes "b_mu b = Unlocked" "header_ok (b_Header b)" "Serialize b = Some j" "bc_db bc = Some db" "\<not> ldb_closed db"
  shows "\<exists>bc'. saveBlock memory_leveldb b bc = Ret (bc', Inr ())"
proof -
  obtain db1 where p1: "db_Put memory_leveldb (block_key (hash_value b)) j db = (db1, Inr ())" "\<not> ldb_closed db1"
    using assms(5) by (simp add: db_Put_def memory_leveldb_def block_key_def prefixed_def CreateKey_def)
  obtain db2 where p2: "db_Put memory_leveldb ''latest_block'' (JStr (hash_value b)) db1 = (db2, Inr ())"
    using p1(2) by (simp add: db_Put_def memory_leveldb_def)
  have "db_Get memory_leveldb (block_key (hash_value b)) db2 = Inr j"
    using db_Get_Put [OF memory_leveldb_laws] p1(1) p2 block_key_not_latest by metis
  moreover obtain b' where "load_block j = Ret (Some b')" "b_mu b' = Unlocked" using load_Serialize [OF assms(3,2)] by blast
  ultimately have "\<exists>v. verifyBlockInDB memory_leveldb (hash_value b) (filled b) (bc\<lparr>bc_db := Some db2\<rparr>) = Ret v"
    using assms(1) by (simp add: verifyBlockInDB_def Hash_unlocked)
  then show ?thesis
    using assms(1,3,4) p1(1) p2 by (auto simp: saveBlock_def Hash_unlocked put_block_def)
qed




end
