(* ===== verification/Queries.thy ===== *)
theory Queries
  imports Chain
begin

text \<open>
  What the rest of the node asks the chain (\<open>src/blockchain/blockchain.go\<close>): balances and nonces,
  the eligibility of validators, roots of the pool of outputs, and transactions by their id.

  The lemmas show that a transaction of a block in memory is found, the newest first, and that the
  root the chain reports as its state depends on the order in which Go visits a map.
\<close>

section \<open>Balances and nonces\<close>

definition chain_GetBalance :: "string \<Rightarrow> 'd Blockchain \<Rightarrow> ('d Blockchain \<times> float64) go" where
  "chain_GetBalance address = with_rlock bc_mu set_bc_mu (\<lambda>bc. Ret (bc, gomap_get_or (Fin 0) (bc_balances bc) address))"

definition VerifyBalance :: "string \<Rightarrow> float64 \<Rightarrow> 'd Blockchain \<Rightarrow> ('d Blockchain \<times> bool) go" where
  "VerifyBalance address amount bc = go_bind (chain_GetBalance address bc) (\<lambda>(bc, balance). Ret (bc, fle amount balance))"

definition AddBalance :: "string \<Rightarrow> float64 \<Rightarrow> 'd Blockchain \<Rightarrow> ('d Blockchain \<times> (chain_error + unit)) go" where
  "AddBalance address amount = with_lock bc_mu set_bc_mu (\<lambda>bc.
    Ret (bc\<lparr>bc_balances := gomap_put address (fadd (gomap_get_or (Fin 0) (bc_balances bc) address) amount) (bc_balances bc)\<rparr>, Inr ()))"

definition GetNonce :: "string \<Rightarrow> 'd Blockchain \<Rightarrow> ('d Blockchain \<times> u64) go" where
  "GetNonce address = with_rlock bc_mu set_bc_mu (\<lambda>bc.
    case bc_utxoPool bc of
      None \<Rightarrow> Panic
    | Some pool \<Rightarrow> go_bind (GetUTXOsForAddress address pool) (\<lambda>(_, utxos). Ret (bc, word_of_nat (length utxos))))"

section \<open>Validators\<close>

definition GetGenesisValidator :: "'d Blockchain \<Rightarrow> Validator option" where
  "GetGenesisValidator bc = map_option snd (find (\<lambda>(_, v). va_Status v = ValidatorStatusActive) (bc_Validators bc))"

definition VerifyStake :: "int \<Rightarrow> string \<Rightarrow> 'd Blockchain \<Rightarrow> chain_error + unit" where
  "VerifyStake now address bc =
    (case gomap_get (Stakes (bc_StakePool bc)) address of
       None \<Rightarrow> Inl NoStakeFor
     | Some stake \<Rightarrow> if elapsed now (si_StartTime stake) < MinStakeAge then Inl StakeNotMature else Inr ())"

definition ValidateValidator :: "int \<Rightarrow> Validator \<Rightarrow> 'd Blockchain \<Rightarrow> chain_error + unit" where
  "ValidateValidator now validator bc =
    (case VerifyStake now (va_Address validator) bc of
       Inl e \<Rightarrow> Inl e
     | Inr _ \<Rightarrow>
         if va_Status validator = ValidatorStatusSlashed then Inl ValidatorSlashed
         else if va_Status validator = ValidatorStatusActive \<and> va_Score validator < 100 then Inl ValidatorScoreLow
         else Inr ())"

definition UpdateValidatorSet :: "int \<Rightarrow> 'd Blockchain \<Rightarrow> ('d Blockchain \<times> (chain_error + unit)) go" where
  "UpdateValidatorSet now = with_lock bc_mu set_bc_mu (\<lambda>bc.
    Ret (bc\<lparr>bc_Validators := map (\<lambda>(address, v).
        (address, case ValidateValidator now v bc of Inl _ \<Rightarrow> v\<lparr>va_Status := ValidatorStatusProbation\<rparr> | Inr _ \<Rightarrow> v)) (bc_Validators bc)\<rparr>, Inr ()))"

section \<open>Roots\<close>

text \<open>
  The bits of a \<open>float64\<close>: sign, biased exponent and fraction. A subnormal number has the exponent
  field 0; the NaN is the one that arithmetic produces.
\<close>

definition mantissa_bits :: "rat \<Rightarrow> nat" where
  "mantissa_bits a =
    (let e = exponent a in
     if e < - 1022 then nat \<lfloor>a / 2 powi (- 1074)\<rfloor>
     else nat (e + 1022) * 2 ^ 52 + nat \<lfloor>a / 2 powi (e - 52)\<rfloor>)"

fun Float64bits :: "float64 \<Rightarrow> u64" where
  "Float64bits (Fin x) =
    (if x = 0 then 0 else word_of_nat ((if x < 0 then 2 ^ 63 else 0) + mantissa_bits \<bar>x\<bar>))"
| "Float64bits NegZero = word_of_nat (2 ^ 63)"
| "Float64bits PInf = word_of_nat (2047 * 2 ^ 52)"
| "Float64bits NInf = word_of_nat (4095 * 2 ^ 52)"
| "Float64bits NaN = word_of_nat (2047 * 2 ^ 52 + 2 ^ 51 + 1)"

definition big_endian :: "u64 \<Rightarrow> bytes" where
  "big_endian w = map (\<lambda>i. ucast (drop_bit (8 * i) w)) (rev [0..<8])"

definition root_data :: "utxo_map \<Rightarrow> bytes" where
  "root_data m = concat (map (\<lambda>(txID, u). bytes_of_string txID @ bytes_of_string (u_Owner u) @ big_endian (Float64bits (u_Amount u))) m)"

definition GetRootHash :: "'d UTXOPool \<Rightarrow> ('d UTXOPool \<times> string) go" where
  "GetRootHash = with_rlock pl_mu set_pl_mu (\<lambda>up. Ret (up, EncodeToString (Sum256 (root_data (pl_utxos up)))))"

record ChainState =
  cs_Height :: u64
  cs_RootHash :: string
  cs_UTXOSetRoot :: string
  cs_StateRoot :: string
  cs_Timestamp :: int

definition cs_Hash :: "ChainState \<Rightarrow> string" where
  "cs_Hash s = cs_RootHash s"

text \<open>\<open>order\<close> gives the pool as the second traversal of the map visits it.\<close>

definition GetState :: "int \<Rightarrow> (utxo_map \<Rightarrow> utxo_map) \<Rightarrow> 'd Blockchain \<Rightarrow> ('d Blockchain \<times> ChainState) go" where
  "GetState now order = with_rlock bc_mu set_bc_mu (\<lambda>bc.
    case bc_utxoPool bc of
      None \<Rightarrow> Panic
    | Some pool \<Rightarrow>
        go_bind (GetRootHash pool) (\<lambda>(pool, r1).
          go_bind (GetRootHash (pool\<lparr>pl_utxos := order (pl_utxos pool)\<rparr>)) (\<lambda>(_, r2).
            Ret (bc, \<lparr>cs_Height = GetHeight bc, cs_RootHash = bc_currentHash bc, cs_UTXOSetRoot = r1, cs_StateRoot = r2, cs_Timestamp = now\<rparr>))))"

definition GetUTXOState :: "int \<Rightarrow> 'd Blockchain \<Rightarrow> ('d Blockchain \<times> ChainState) go" where
  "GetUTXOState now = with_rlock bc_mu set_bc_mu (\<lambda>bc.
    case bc_utxoPool bc of
      None \<Rightarrow> Ret (bc, \<lparr>cs_Height = GetHeight bc, cs_RootHash = [], cs_UTXOSetRoot = [], cs_StateRoot = [], cs_Timestamp = now\<rparr>)
    | Some pool \<Rightarrow>
        go_bind (GetRootHash pool) (\<lambda>(_, r).
          Ret (bc, \<lparr>cs_Height = GetHeight bc, cs_RootHash = r, cs_UTXOSetRoot = r, cs_StateRoot = r, cs_Timestamp = now\<rparr>)))"

definition GetUTXOSet :: "'d Blockchain \<Rightarrow> ('d Blockchain \<times> utxo_map) go" where
  "GetUTXOSet = with_rlock bc_mu set_bc_mu (\<lambda>bc. Ret (bc, bc_utxoSet bc))"

definition SetStakePool :: "StakePool \<Rightarrow> 'd Blockchain \<Rightarrow> 'd Blockchain" where
  "SetStakePool pool bc = bc\<lparr>bc_StakePool := pool\<rparr>"

definition GetStakePool :: "'d Blockchain \<Rightarrow> ('d Blockchain \<times> StakePool) go" where
  "GetStakePool = with_rlock bc_mu set_bc_mu (\<lambda>bc. Ret (bc, bc_StakePool bc))"

section \<open>Transactions by id\<close>

text \<open>The blocks from the height down to 1; the genesis block is not searched.\<close>

fun search_blocks :: "'d goleveldb \<Rightarrow> string \<Rightarrow> nat \<Rightarrow> 'd Blockchain \<Rightarrow> ('d Blockchain \<times> Transaction option) go" where
  "search_blocks L txID 0 bc = Ret (bc, None)"
| "search_blocks L txID (Suc i) bc =
    go_bind (GetBlockByHeight L (word_of_nat (Suc i)) bc) (\<lambda>(bc, block).
      case block of
        None \<Rightarrow> search_blocks L txID i bc
      | Some b \<Rightarrow>
          (case Search txID (b_Transactions b) of
             (tx, True) \<Rightarrow> Ret (bc, tx)
           | (_, False) \<Rightarrow> search_blocks L txID i bc))"

definition FindTransaction :: "'d goleveldb \<Rightarrow> string \<Rightarrow> 'd Blockchain \<Rightarrow> ('d Blockchain \<times> (chain_error + Transaction)) go" where
  "FindTransaction L txID bc =
    (if txID = [] then Ret (bc, Inl EmptyTxID)
     else go_bind (case bc_mempool bc of
         None \<Rightarrow> Ret (bc, None)
       | Some mempool \<Rightarrow>
           go_bind (GetTransactions mempool) (\<lambda>(mempool, txs).
             Ret (bc\<lparr>bc_mempool := Some mempool\<rparr>, find (\<lambda>tx. tx_TransactionID tx = txID) txs)))
       (\<lambda>(bc, pending).
         case pending of
           Some tx \<Rightarrow> Ret (bc, Inr tx)
         | None \<Rightarrow>
             go_bind (search_blocks L txID (unat (GetHeight bc)) bc) (\<lambda>(bc, r).
               Ret (bc, case r of None \<Rightarrow> Inl TxNotFound | Some tx \<Rightarrow> Inr tx))))"

section \<open>Finding transactions\<close>

lemma position_of_ok:
  assumes "chain_ok chain" "i < length chain" "length chain < 2 ^ 64"
  shows "position_of (word_of_nat i) chain = Some i"
proof -
  have num: "h_BlockNumber (b_Header (chain ! k)) = word_of_nat i \<longleftrightarrow> k = i" if "k < length chain" for k
  proof -
    have "k < 2 ^ 64" "i < 2 ^ 64" using that assms by simp_all
    then show ?thesis using that assms(1) by (auto simp: chain_ok_def word_unat_eq_iff unat_of_nat)
  qed
  show ?thesis
    unfolding position_of_def find_Some_iff
    using num assms(2) by (intro exI [of _ i]) auto
qed

text \<open>Looking a block up fills in its hash; its transactions stay.\<close>

lemma GetBlockByHeight_ok:
  assumes "chain_ok (Chain bc)" "i < length (Chain bc)" "length (Chain bc) < 2 ^ 64" "bc_mu bc \<noteq> Locked"
  shows "\<exists>bc' b. GetBlockByHeight L (word_of_nat i) bc = Ret (bc', Some b) \<and> b_Transactions b = b_Transactions (Chain bc ! i) \<and>
    chain_ok (Chain bc') \<and> map b_Transactions (Chain bc') = map b_Transactions (Chain bc) \<and> bc_mu bc' = bc_mu bc"
proof -
  let ?b = "(filled (Chain bc ! i))\<lparr>b_hash := hash_value (Chain bc ! i)\<rparr>"
  have mu: "b_mu (Chain bc ! i) = Unlocked" using assms(1,2) by (simp add: chain_ok_def unlocked_nth)
  let ?bc = "bc\<lparr>Chain := (Chain bc)[i := ?b]\<rparr>"
  have eq: "GetBlockByHeight L (word_of_nat i) bc = Ret (?bc, Some ?b)"
    using position_of_ok [OF assms(1-3)] mu assms(4) chain_mu.set_mu_same [of ?bc]
    by (cases "bc_mu bc") (simp_all add: GetBlockByHeight_def with_rlock_def block_by_height_def Hash_unlocked Let_def)
  moreover have "chain_ok (Chain ?bc)" using GetBlockByHeight_chain_ok [OF assms(1) eq] .
  moreover have "map b_Transactions (Chain ?bc) = map b_Transactions (Chain bc)"
    using assms(2) by (simp add: List.map_update) (metis list_update_id nth_map)
  ultimately show ?thesis by simp
qed

definition found_in :: "string \<Rightarrow> PatriciaNode list \<Rightarrow> Transaction option" where
  "found_in txID tries = (case find (\<lambda>t. snd (Search txID t)) tries of None \<Rightarrow> None | Some t \<Rightarrow> fst (Search txID t))"

lemma found_in_Cons: "found_in txID (t # ts) = (if snd (Search txID t) then fst (Search txID t) else found_in txID ts)"
  by (simp add: found_in_def)

lemma search_blocks_ok:
  assumes "chain_ok (Chain bc)" "i < length (Chain bc)" "length (Chain bc) < 2 ^ 64" "bc_mu bc \<noteq> Locked"
  shows "\<exists>bc'. search_blocks L txID i bc = Ret (bc', found_in txID (rev (map b_Transactions (take i (tl (Chain bc))))))"
  using assms
proof (induction i arbitrary: bc)
  case 0
  then show ?case by (simp add: found_in_def)
next
  case (Suc i)
  obtain bc' b where b: "GetBlockByHeight L (word_of_nat (Suc i)) bc = Ret (bc', Some b)" "b_Transactions b = b_Transactions (Chain bc ! Suc i)"
    "chain_ok (Chain bc')" "map b_Transactions (Chain bc') = map b_Transactions (Chain bc)" "bc_mu bc' = bc_mu bc"
    using GetBlockByHeight_ok [OF Suc.prems] by blast
  have len: "length (Chain bc') = length (Chain bc)" using b(4) map_eq_imp_length_eq by blast
  have tl: "map b_Transactions (take i (tl (Chain bc'))) = map b_Transactions (take i (tl (Chain bc)))"
    using arg_cong [OF b(4), of "\<lambda>ts. take i (tl ts)"] by (simp add: take_map [symmetric] map_tl)
  have last: "take (Suc i) (tl (Chain bc)) = take i (tl (Chain bc)) @ [Chain bc ! Suc i]"
    using Suc.prems(2) by (cases "Chain bc") (simp_all add: take_Suc_conv_app_nth)
  have IH: "\<exists>bc''. search_blocks L txID i bc' = Ret (bc'', found_in txID (rev (map b_Transactions (take i (tl (Chain bc'))))))"
    using Suc.IH [OF b(3)] Suc.prems len b(5) by simp
  have "snd (Search txID t) \<Longrightarrow> Search txID t = (fst (Search txID t), True)"
    "\<not> snd (Search txID t) \<Longrightarrow> Search txID t = (fst (Search txID t), False)" for t by (metis prod.collapse)+
  then show ?case
    using IH b(1,2) by (cases "snd (Search txID (b_Transactions b))") (auto simp: tl last found_in_Cons split: prod.split bool.split)
qed



section \<open>Roots that depend on the order of a map\<close>

lemma GetRootHash_eq: "pl_mu p = Unlocked \<Longrightarrow> GetRootHash p = Ret (p, EncodeToString (Sum256 (root_data (pl_utxos p))))"
  by (simp add: GetRootHash_def pool_mu.rlock_readonly)

text \<open>
  The root of a pool with two outputs digests two different byte sequences in the two orders in which Go
  may visit the map, so a pool has no well-defined root.
\<close>

lemma root_data_depends_on_order:
  "root_data [(''t1-0'', u), (''t2-0'', v)] \<noteq> root_data [(''t2-0'', v), (''t1-0'', u)]"
  by (simp add: root_data_def bytes_of_string_def)

end
