(* ===== verification/Incentives.thy ===== *)
theory Incentives
  imports Queries
begin

text \<open>
  Rewards and penalties: the reward of a block (\<open>src/blockchain/blockchain.go\<close>), the reward
  calculator (\<open>src/blockchain/rewards.go\<close>) and the slashing manager
  (\<open>src/blockchain/slashing.go\<close>). Both managers hold pointers to the chain and to the pool of stakes; a
  record of theirs holds the objects themselves. Times are in nanoseconds.

  The lemmas give the block rewards in closed form and bound their sum, show where the two schedules
  of the program part, and follow the money: what a validator and a staker are paid, and what slashing
  takes and credits.
\<close>

section \<open>Block rewards\<close>

definition InitialBlockReward :: float64 where "InitialBlockReward = Fin 50"
definition RewardHalvingBlocks :: u64 where "RewardHalvingBlocks = 210000"
definition MinerRewardPercentage :: float64 where "MinerRewardPercentage = round64 (7 / 10)"
definition ValidatorRewardPercentage :: float64 where "ValidatorRewardPercentage = round64 (3 / 10)"

definition min_reward :: float64 where "min_reward = round64 (1 / 10 ^ 8)"

definition at_least_min :: "float64 \<Rightarrow> float64" where
  "at_least_min reward = (if flt reward min_reward then min_reward else reward)"

definition sum_fees :: "Transaction list \<Rightarrow> float64" where
  "sum_fees txs = fold (\<lambda>tx fees. if tx_TxType tx \<noteq> TX_COINBASE then fadd fees (tx_GasFee tx) else fees) txs (Fin 0)"

definition calculateBlockReward :: "Block \<Rightarrow> float64" where
  "calculateBlockReward block =
    (if h_BlockNumber (b_Header block) = 0 then InitialBlockReward
     else
       let halvings = h_BlockNumber (b_Header block) div RewardHalvingBlocks;
           reward = ((\<lambda>r. fdiv r (Fin 2)) ^^ unat halvings) InitialBlockReward;
           fees = sum_fees (GetAllTransactions (b_Transactions block))
       in at_least_min (fadd reward fees))"

definition calculateValidatorReward :: "float64 \<Rightarrow> float64" where
  "calculateValidatorReward blockReward = at_least_min (fmul blockReward ValidatorRewardPercentage)"

definition calculateMinerReward :: "float64 \<Rightarrow> float64" where
  "calculateMinerReward blockReward = at_least_min (fmul blockReward MinerRewardPercentage)"

definition distributeRewards :: "Block \<Rightarrow> Validator \<Rightarrow> Validator go" where
  "distributeRewards block v =
    (case va_config v of
       None \<Rightarrow> Panic
     | Some config \<Rightarrow>
         let reward = calculateBlockReward block
         in Ret (v\<lparr>va_rewards := fadd (va_rewards v) reward, va_config := Some (config\<lparr>cfg_Stake := fadd (cfg_Stake config) reward\<rparr>)\<rparr>))"

section \<open>The reward calculator\<close>

definition BaseBlockReward :: float64 where "BaseBlockReward = Fin 50"
definition StakeRewardRate :: float64 where "StakeRewardRate = round64 (5 / 100)"
definition ValidatorRewardShare :: float64 where "ValidatorRewardShare = round64 (70 / 100)"
definition StakerRewardShare :: float64 where "StakerRewardShare = round64 (30 / 100)"
definition RewardHalvingPeriod :: u64 where "RewardHalvingPeriod = 210000"
definition MinStakeTime :: int where "MinStakeTime = 24 * hour"
definition MaxRewardMultiplier :: float64 where "MaxRewardMultiplier = Fin 2"

record RewardEvent =
  re_Address :: string
  re_Amount :: float64
  re_Type :: string
  re_BlockHeight :: u64
  re_Timestamp :: int

record 'd RewardCalculator =
  rc_blockchain :: "'d Blockchain"
  rc_stakePool :: StakePool
  rc_mu :: rwmutex
  rc_lastUpdate :: int
  rc_rewardHistory :: "(string, RewardEvent list) gomap"

abbreviation set_rc_mu :: "rwmutex \<Rightarrow> 'd RewardCalculator \<Rightarrow> 'd RewardCalculator" where
  "set_rc_mu l rc \<equiv> rc\<lparr>rc_mu := l\<rparr>"

interpretation reward_mu: mutexed rc_mu set_rc_mu
  by unfold_locales auto

definition NewRewardCalculator :: "int \<Rightarrow> 'd Blockchain \<Rightarrow> StakePool \<Rightarrow> 'd RewardCalculator" where
  "NewRewardCalculator now bc sp =
    \<lparr>rc_blockchain = bc, rc_stakePool = sp, rc_mu = Unlocked, rc_lastUpdate = now, rc_rewardHistory = []\<rparr>"

text \<open>\<open>math.Pow(2, n)\<close> of a whole number is exact, and infinite from \<open>n = 1024\<close> on.\<close>

definition Pow2 :: "nat \<Rightarrow> float64" where
  "Pow2 n = (if n < 1024 then Fin (2 ^ n) else PInf)"

definition CalculateBlockReward :: "u64 \<Rightarrow> float64" where
  "CalculateBlockReward blockHeight =
    (let halvings = blockHeight div RewardHalvingPeriod;
         reward = fdiv BaseBlockReward (Pow2 (unat halvings))
     in fmax reward (Fin 0))"

definition calculatePerformanceMultiplier :: "Validator \<Rightarrow> float64" where
  "calculatePerformanceMultiplier v =
    (if va_Score v < 50 then Fin (1 / 2) else fmin (fdiv (of_u64 (va_Score v)) (Fin 100)) MaxRewardMultiplier)"

definition CalculateValidatorReward :: "Validator option \<Rightarrow> float64 \<Rightarrow> float64" where
  "CalculateValidatorReward validator blockReward =
    (case validator of
       None \<Rightarrow> Fin 0
     | Some v \<Rightarrow> fmul (fmul blockReward ValidatorRewardShare) (calculatePerformanceMultiplier v))"

definition CalculateStakeReward :: "int \<Rightarrow> StakeInfo \<Rightarrow> float64 \<Rightarrow> StakePool \<Rightarrow> (StakePool \<times> float64) go" where
  "CalculateStakeReward now stake blockReward sp =
    (if si_Amount stake = 0 then Ret (sp, Fin 0)
     else if elapsed now (si_StartTime stake) < MinStakeTime then Ret (sp, Fin 0)
     else
       let annualReward = fmul (of_u64 (si_Amount stake)) StakeRewardRate;
           timeBasedReward = fdiv (fmul annualReward (duration_in hour (elapsed now (si_LastRewardTime stake)))) (Fin (24 * 365))
       in go_bind (GetTotalStake sp) (\<lambda>(sp, totalStake).
         if feq totalStake (Fin 0) then Ret (sp, timeBasedReward)
         else
           let blockStakeReward = fmul (fmul blockReward StakerRewardShare) (fdiv (of_u64 (si_Amount stake)) totalStake)
           in Ret (sp, fadd timeBasedReward blockStakeReward)))"

definition recordRewardEvent :: "int \<Rightarrow> string \<Rightarrow> float64 \<Rightarrow> string \<Rightarrow> u64 \<Rightarrow> 'd RewardCalculator \<Rightarrow> 'd RewardCalculator" where
  "recordRewardEvent now address amount rewardType blockHeight rc =
    rc\<lparr>rc_rewardHistory := gomap_put address (gomap_get_or [] (rc_rewardHistory rc) address @
        [\<lparr>re_Address = address, re_Amount = amount, re_Type = rewardType, re_BlockHeight = blockHeight, re_Timestamp = now\<rparr>])
      (rc_rewardHistory rc)\<rparr>"

text \<open>One payment: credit the balance and record the event. \<open>AddBalance\<close> returns no error.\<close>

definition pay :: "int \<Rightarrow> string \<Rightarrow> float64 \<Rightarrow> string \<Rightarrow> u64 \<Rightarrow> 'd RewardCalculator \<Rightarrow> 'd RewardCalculator go" where
  "pay now address amount rewardType blockHeight rc =
    go_bind (AddBalance address amount (rc_blockchain rc)) (\<lambda>(bc, _).
      Ret (recordRewardEvent now address amount rewardType blockHeight (rc\<lparr>rc_blockchain := bc\<rparr>)))"

text \<open>The stakes in the order in which the map is visited.\<close>

fun pay_stakes :: "int \<Rightarrow> float64 \<Rightarrow> u64 \<Rightarrow> string list \<Rightarrow> 'd RewardCalculator \<Rightarrow> 'd RewardCalculator go" where
  "pay_stakes now blockReward blockHeight [] rc = Ret rc"
| "pay_stakes now blockReward blockHeight (addr # addrs) rc =
    (case gomap_get (Stakes (rc_stakePool rc)) addr of
       None \<Rightarrow> pay_stakes now blockReward blockHeight addrs rc
     | Some stake \<Rightarrow>
         go_bind (CalculateStakeReward now stake blockReward (rc_stakePool rc)) (\<lambda>(sp, stakeReward).
           let rc = rc\<lparr>rc_stakePool := sp\<rparr> in
           if flt (Fin 0) stakeReward then
             go_bind (pay now addr stakeReward ''stake'' blockHeight rc) (\<lambda>rc.
               let sp = rc_stakePool rc
               in pay_stakes now blockReward blockHeight addrs
                    (rc\<lparr>rc_stakePool := sp\<lparr>Stakes := gomap_put addr (stake\<lparr>si_LastRewardTime := now\<rparr>) (Stakes sp)\<rparr>\<rparr>))
           else pay_stakes now blockReward blockHeight addrs rc))"

definition DistributeRewards :: "int \<Rightarrow> Block \<Rightarrow> Validator option \<Rightarrow> 'd RewardCalculator \<Rightarrow> ('d RewardCalculator \<times> (chain_error + unit)) go" where
  "DistributeRewards now block validator = with_lock rc_mu set_rc_mu (\<lambda>rc.
    let height = h_BlockNumber (b_Header block);
        blockReward = CalculateBlockReward height;
        validatorReward = CalculateValidatorReward validator blockReward
    in go_bind (case validator of
           Some v \<Rightarrow> if flt (Fin 0) validatorReward then pay now (va_Address v) validatorReward ''validator'' height rc else Ret rc
         | None \<Rightarrow> Ret rc)
       (\<lambda>rc. go_bind (pay_stakes now blockReward height (map fst (Stakes (rc_stakePool rc))) rc) (\<lambda>rc. Ret (rc, Inr ()))))"

definition GetRewardHistory :: "string \<Rightarrow> 'd RewardCalculator \<Rightarrow> ('d RewardCalculator \<times> RewardEvent list) go" where
  "GetRewardHistory address = with_rlock rc_mu set_rc_mu (\<lambda>rc. Ret (rc, gomap_get_or [] (rc_rewardHistory rc) address))"

section \<open>The slashing manager\<close>

definition SlashingPenaltyRate :: float64 where "SlashingPenaltyRate = Fin (1 / 2)"
definition ProbationPeriod :: int where "ProbationPeriod = 24 * hour"
definition MaxTimeoutViolations :: int where "MaxTimeoutViolations = 5"
definition MaxConsensusFailures :: int where "MaxConsensusFailures = 3"

record SlashingEvidence =
  se_ValidatorAddress :: string
  se_ViolationType :: string
  se_BlockHeight :: u64
  se_Timestamp :: int
  se_Proof :: bytes
  se_Description :: string

record 'd SlashingManager =
  sm_blockchain :: "'d Blockchain"
  sm_stakePool :: StakePool
  sm_mu :: rwmutex
  sm_evidence :: "(string, SlashingEvidence list) gomap"

abbreviation set_sm_mu :: "rwmutex \<Rightarrow> 'd SlashingManager \<Rightarrow> 'd SlashingManager" where
  "set_sm_mu l sm \<equiv> sm\<lparr>sm_mu := l\<rparr>"

interpretation slashing_mu: mutexed sm_mu set_sm_mu
  by unfold_locales auto

definition NewSlashingManager :: "'d Blockchain \<Rightarrow> StakePool \<Rightarrow> 'd SlashingManager" where
  "NewSlashingManager bc sp = \<lparr>sm_blockchain = bc, sm_stakePool = sp, sm_mu = Unlocked, sm_evidence = []\<rparr>"

datatype slashing_error = InvalidValidator | NoStakeForValidator | RecordFailed

definition enc_evidence :: "SlashingEvidence \<Rightarrow> json option" where
  "enc_evidence e = Some (JObj [(''ValidatorAddress'', JStr (se_ValidatorAddress e)), (''ViolationType'', JStr (se_ViolationType e)),
     (''BlockHeight'', JInt (uint (se_BlockHeight e))), (''Timestamp'', JInt (se_Timestamp e)), (''Proof'', JNull),
     (''Description'', JStr (se_Description e))])"

text \<open>The stored event; a penalty that is not a number cannot be encoded. The key has the time in seconds.\<close>

definition recordSlashingEvent :: "'d goleveldb \<Rightarrow> int \<Rightarrow> Validator \<Rightarrow> float64 \<Rightarrow> 'd SlashingManager \<Rightarrow> ('d SlashingManager \<times> (slashing_error + unit)) go" where
  "recordSlashingEvent L now v amount sm =
    (case (enc_float amount, enc_list enc_evidence (gomap_get_or [] (sm_evidence sm) (va_Address v))) of
       (Some a, Some evidence) \<Rightarrow>
         let bc = sm_blockchain sm;
             key = ''slash:'' @ va_Address v @ '':'' @ show_int (now div second);
             data = JObj [(''Timestamp'', JInt now), (''Address'', JStr (va_Address v)), (''Amount'', a),
               (''Violations'', JInt (va_Violations v)), (''Evidence'', evidence)]
         in (case bc_db bc of
               None \<Rightarrow> Panic
             | Some db \<Rightarrow>
                 (case db_Put L key data db of
                    (db, Inl _) \<Rightarrow> Ret (sm\<lparr>sm_blockchain := bc\<lparr>bc_db := Some db\<rparr>\<rparr>, Inl RecordFailed)
                  | (db, Inr _) \<Rightarrow> Ret (sm\<lparr>sm_blockchain := bc\<lparr>bc_db := Some db\<rparr>\<rparr>, Inr ())))
     | _ \<Rightarrow> Ret (sm, Inl RecordFailed))"

definition SlashValidator :: "'d goleveldb \<Rightarrow> int \<Rightarrow> Validator \<Rightarrow> 'd SlashingManager \<Rightarrow> ('d SlashingManager \<times> (Validator \<times> (slashing_error + unit))) go" where
  "SlashValidator L now v sm =
    (case gomap_get (Stakes (sm_stakePool sm)) (va_Address v) of
       None \<Rightarrow> Ret (sm, (v, Inl NoStakeForValidator))
     | Some stake \<Rightarrow>
         let penaltyAmount = fmul (of_u64 (si_Amount stake)) SlashingPenaltyRate;
             stake = stake\<lparr>si_Amount := si_Amount stake - to_u64 penaltyAmount\<rparr>;
             sp = sm_stakePool sm; bc = sm_blockchain sm;
             v = v\<lparr>va_Status := ValidatorStatusSlashed, va_Score := 0\<rparr>;
             sm = sm\<lparr>sm_stakePool := sp\<lparr>Stakes := gomap_put (va_Address v) stake (Stakes sp)\<rparr>,
                     sm_blockchain := bc\<lparr>bc_communityPool := fadd (bc_communityPool bc) penaltyAmount\<rparr>\<rparr>
         in go_bind (recordSlashingEvent L now v penaltyAmount sm) (\<lambda>(sm, r). Ret (sm, (v, r))))"

definition HandleViolation :: "'d goleveldb \<Rightarrow> int \<Rightarrow> Validator option \<Rightarrow> string \<Rightarrow> 'd SlashingManager \<Rightarrow>
    ('d SlashingManager \<times> (Validator option \<times> (slashing_error + unit))) go" where
  "HandleViolation L now validator violationType = with_lock sm_mu set_sm_mu (\<lambda>sm.
    case validator of
      None \<Rightarrow> Ret (sm, (None, Inl InvalidValidator))
    | Some v \<Rightarrow>
        let v = v\<lparr>va_Violations := va_Violations v + 1\<rparr> in
        go_bind (GetLatestBlock L (sm_blockchain sm)) (\<lambda>(bc, latest).
          case latest of
            None \<Rightarrow> Panic
          | Some b \<Rightarrow>
              let evidence = \<lparr>se_ValidatorAddress = va_Address v, se_ViolationType = violationType,
                    se_BlockHeight = h_BlockNumber (b_Header b), se_Timestamp = now, se_Proof = [],
                    se_Description = ''Violation '' @ show_int (va_Violations v) @ '' of type '' @ violationType\<rparr>;
                  sm = sm\<lparr>sm_blockchain := bc, sm_evidence := gomap_put (va_Address v)
                    (gomap_get_or [] (sm_evidence sm) (va_Address v) @ [evidence]) (sm_evidence sm)\<rparr>
              in if va_Violations v \<ge> SlashingThreshold then
                   go_bind (SlashValidator L now v sm) (\<lambda>(sm, v, r). Ret (sm, (Some v, r)))
                 else Ret (sm, (Some (v\<lparr>va_Status := ValidatorStatusProbation, va_ProbationEndTime := now + ProbationPeriod\<rparr>), Inr ()))))"

definition CheckTimeoutViolations :: "'d goleveldb \<Rightarrow> int \<Rightarrow> Validator \<Rightarrow> 'd SlashingManager \<Rightarrow>
    ('d SlashingManager \<times> (Validator option \<times> (slashing_error + unit))) go" where
  "CheckTimeoutViolations L now v sm =
    (if va_Timeouts v \<ge> MaxTimeoutViolations then HandleViolation L now (Some v) ''timeout'' sm else Ret (sm, (Some v, Inr ())))"

definition CheckConsensusViolations :: "'d goleveldb \<Rightarrow> int \<Rightarrow> Validator \<Rightarrow> 'd SlashingManager \<Rightarrow>
    ('d SlashingManager \<times> (Validator option \<times> (slashing_error + unit))) go" where
  "CheckConsensusViolations L now v sm =
    (if va_ConsensusFailures v \<ge> MaxConsensusFailures then HandleViolation L now (Some v) ''consensus'' sm else Ret (sm, (Some v, Inr ())))"

definition GetValidatorEvidence :: "string \<Rightarrow> 'd SlashingManager \<Rightarrow> ('d SlashingManager \<times> SlashingEvidence list) go" where
  "GetValidatorEvidence address = with_rlock sm_mu set_sm_mu (\<lambda>sm. Ret (sm, gomap_get_or [] (sm_evidence sm) address))"

definition ClearExpiredProbation :: "int \<Rightarrow> Validator \<Rightarrow> Validator" where
  "ClearExpiredProbation now v =
    (if va_Status v = ValidatorStatusProbation \<and> now > va_ProbationEndTime v
     then v\<lparr>va_Status := ValidatorStatusActive, va_Violations := 0\<rparr> else v)"

text \<open>
  \<open>finalizeBlock\<close> of the chain: both managers are pointers that no constructor of the chain sets. Violations are
  only logged.
\<close>

definition finalizeBlock :: "'d goleveldb \<Rightarrow> int \<Rightarrow> Block \<Rightarrow> Validator \<Rightarrow> 'd RewardCalculator option \<Rightarrow> 'd SlashingManager option \<Rightarrow>
    (('d RewardCalculator option \<times> 'd SlashingManager option) \<times> (Validator \<times> (chain_error + unit))) go" where
  "finalizeBlock L now block v rewardCalculator slashingManager =
    (case rewardCalculator of
       None \<Rightarrow> Panic
     | Some rc \<Rightarrow>
         go_bind (DistributeRewards now block (Some v) rc) (\<lambda>(rc, r).
           case r of
             Inl e \<Rightarrow> Ret ((Some rc, slashingManager), (v, Inl e))
           | Inr _ \<Rightarrow>
               (case slashingManager of
                  None \<Rightarrow> if va_Timeouts v \<ge> MaxTimeoutViolations \<or> va_ConsensusFailures v \<ge> MaxConsensusFailures
                    then Panic else Ret ((Some rc, None), (v, Inr ()))
                | Some sm \<Rightarrow>
                    go_bind (CheckTimeoutViolations L now v sm) (\<lambda>(sm, v1, _).
                      go_bind (CheckConsensusViolations L now (case v1 of Some v \<Rightarrow> v | None \<Rightarrow> v) sm) (\<lambda>(sm, v2, _).
                        Ret ((Some rc, Some sm), ((case v2 of Some v \<Rightarrow> v | None \<Rightarrow> v), Inr ())))))))"

section \<open>The schedule of block rewards\<close>

lemma representable_share: "m \<le> 2 ^ 53 \<Longrightarrow> k \<le> 1074 \<Longrightarrow> representable (of_nat m / 2 ^ k)"
  using representable_dyadic [of "int m" k] by simp

lemma representable_50: "k \<le> 1074 \<Longrightarrow> representable (50 / 2 ^ k)"
  using representable_share [of 50 k] by simp

lemma halvings_div: "unat (h div 210000 :: u64) = unat h div 210000"
  by (simp add: unat_div)

lemma CalculateBlockReward_closed:
  "CalculateBlockReward h = Fin (if unat h div 210000 < 1024 then 50 / 2 ^ (unat h div 210000) else 0)"
proof (cases "unat h div 210000 < 1024")
  case True
  then have "fdiv (Fin 50) (Pow2 (unat h div 210000)) = Fin (50 / 2 ^ (unat h div 210000))"
    by (simp add: Pow2_def fdiv_Fin_round round64_representable representable_50)
  then show ?thesis
    using True by (simp add: CalculateBlockReward_def BaseBlockReward_def RewardHalvingPeriod_def halvings_div max_absorb1)
next
  case False
  then show ?thesis
    by (simp add: CalculateBlockReward_def BaseBlockReward_def RewardHalvingPeriod_def halvings_div Pow2_def fdiv_def signed_zero_def)
qed

lemma halving_sum: "(\<Sum>k<m. 50 / 2 ^ k :: rat) < 100"
proof -
  have "(\<Sum>k<m. 50 / 2 ^ k :: rat) = 100 - 100 / 2 ^ m" by (induction m) (simp_all add: field_simps)
  then show ?thesis by simp
qed

text \<open>
  C39. The reward calculator pays \<open>50 / 2 ^ k\<close> for a block of the \<open>k\<close>-th period of 210000 blocks, exactly and
  not up to rounding, and nothing after 1024 periods; so however long the chain, the sum of its block rewards stays below 21 million.
\<close>

theorem emission_below_21_million:
  assumes "n \<le> 2 ^ 64"
  shows "(\<forall>h < n. CalculateBlockReward (word_of_nat h) = Fin (if h div 210000 < 1024 then 50 / 2 ^ (h div 210000) else 0)) \<and>
    (\<Sum>h<n. f64_rat (CalculateBlockReward (word_of_nat h))) < 21000000"
proof -
  have eq: "CalculateBlockReward (word_of_nat h) = Fin (if h div 210000 < 1024 then 50 / 2 ^ (h div 210000) else 0)" if "h < n" for h
    using that assms by (simp add: CalculateBlockReward_closed unat_of_nat)
  let ?f = "\<lambda>h. 50 / 2 ^ (h div 210000) :: rat"
  have period: "sum ?f {k * 210000..<k * 210000 + 210000} = 210000 * (50 / 2 ^ k)" for k
  proof -
    have "h div 210000 = k" if "h \<in> {k * 210000..<k * 210000 + 210000}" for h :: nat
      using that by (intro div_nat_eqI) auto
    then have "sum ?f {k * 210000..<k * 210000 + 210000} = (\<Sum>h = k * 210000..<k * 210000 + 210000. 50 / 2 ^ k)"
      by (intro sum.cong) auto
    then show ?thesis by simp
  qed
  have "(\<Sum>h<n. f64_rat (CalculateBlockReward (word_of_nat h))) \<le> (\<Sum>h<n. ?f h)"
    using eq by (intro sum_mono) auto
  also have "\<dots> \<le> (\<Sum>h<n * 210000. ?f h)"
    by (intro sum_mono2) auto
  also have "\<dots> = (\<Sum>k<n. sum ?f {k * 210000..<k * 210000 + 210000})"
    by (rule sum.nat_group [symmetric])
  also have "\<dots> = 210000 * (\<Sum>k<n. 50 / 2 ^ k)"
    unfolding period by (simp add: sum_distrib_left)
  also have "\<dots> < 21000000" using halving_sum [of n] by simp
  finally show ?thesis using eq by simp
qed

theorem emission_below_21_million_witness:
  "CalculateBlockReward 420000 = Fin (25 / 2) \<and> (\<Sum>h<(420001 :: nat). f64_rat (CalculateBlockReward (word_of_nat h))) < 21000000"
proof -
  have n: "(420001 :: nat) \<le> 2 ^ 64" by simp
  note e = emission_below_21_million [OF n]
  show ?thesis using conjunct1 [OF e, rule_format, of 420000] conjunct2 [OF e] by simp
qed

lemma min_reward_bounds: "fle (Fin (51 / 2 ^ 33)) min_reward" "fle min_reward (Fin (50 / 2 ^ 32))"
proof -
  have "representable (51 / 2 ^ 33)" "representable (50 / 2 ^ 32)" using representable_share [of 51 33] representable_50 [of 32] by simp_all
  then show "fle (Fin (51 / 2 ^ 33)) min_reward" "fle min_reward (Fin (50 / 2 ^ 32))"
    unfolding min_reward_def by (auto intro: round64_ge round64_le)
qed

lemma min_reward_not_NaN: "min_reward \<noteq> NaN"
  by (simp add: min_reward_def)

lemma halve_exact: "k \<le> 1074 \<Longrightarrow> ((\<lambda>r. fdiv r (Fin 2)) ^^ k) (Fin 50) = Fin (50 / 2 ^ k)"
proof (induction k)
  case (Suc k)
  then show ?case
    using representable_50 [of "Suc k"] by (simp add: fdiv_Fin_round round64_representable mult.commute)
qed simp

lemma halve_shrinks:
  assumes "0 \<le> x" "representable x"
  shows "\<exists>y. fdiv (Fin x) (Fin 2) = Fin y \<and> 0 \<le> y \<and> y \<le> x \<and> representable y"
proof -
  obtain y where "round64 (x / 2) = Fin y" "0 \<le> y" "y \<le> x"
    using round64_between [of 0 x "x / 2"] assms by auto
  then show ?thesis using assms(1) round64_Fin_representable by (auto simp: fdiv_Fin_round)
qed

lemma halve_small: "33 \<le> k \<Longrightarrow> \<exists>y. ((\<lambda>r. fdiv r (Fin 2)) ^^ k) (Fin 50) = Fin y \<and> 0 \<le> y \<and> y \<le> 50 / 2 ^ 33 \<and> representable y"
proof (induction k rule: dec_induct)
  case base
  then show ?case using representable_50 [of 33] by (intro exI [of _ "50 / 2 ^ 33"]) (simp add: halve_exact)
next
  case (step k)
  then obtain y where "((\<lambda>r. fdiv r (Fin 2)) ^^ k) (Fin 50) = Fin y" "0 \<le> y" "y \<le> 50 / 2 ^ 33" "representable y" by blast
  then show ?case using halve_shrinks [of y] by auto
qed

lemma floor_early: "k \<le> 32 \<Longrightarrow> at_least_min (Fin (50 / 2 ^ k)) = Fin (50 / 2 ^ k)"
proof -
  assume "k \<le> 32"
  then have "(2 :: rat) ^ k \<le> 2 ^ 32" by (intro power_increasing) simp_all
  then have "(50 :: rat) / 2 ^ 32 \<le> 50 / 2 ^ k" by (intro divide_left_mono) simp_all
  then have "fle (Fin (50 / 2 ^ 32)) (Fin (50 / 2 ^ k))" by (simp only: fle_Fin)
  then have "fle min_reward (Fin (50 / 2 ^ k))" by (rule fle_trans [OF min_reward_bounds(2)])
  then show ?thesis using min_reward_not_NaN by (simp add: flt_not_fle at_least_min_def)
qed

lemma floor_late: "y \<le> 50 / 2 ^ 33 \<Longrightarrow> at_least_min (Fin y) = min_reward"
proof -
  assume "y \<le> 50 / 2 ^ 33"
  then have "flt (Fin y) (Fin (51 / 2 ^ 33))" by simp
  then have "flt (Fin y) min_reward" by (rule fle_less_trans [OF _ min_reward_bounds(1)])
  then show ?thesis by (simp add: at_least_min_def)
qed

lemma calculateBlockReward_no_fees:
  assumes "h_BlockNumber (b_Header b) \<noteq> 0" "sum_fees (GetAllTransactions (b_Transactions b)) = Fin 0"
  shows "calculateBlockReward b =
    at_least_min (fadd (((\<lambda>r. fdiv r (Fin 2)) ^^ (unat (h_BlockNumber (b_Header b)) div 210000)) (Fin 50)) (Fin 0))"
  using assms by (simp only: calculateBlockReward_def RewardHalvingBlocks_def halvings_div InitialBlockReward_def Let_def if_False)

text \<open>
  C22. The miners' schedule and the reward calculator's agree for 33 periods of 210000 blocks. From then on
  the miners' reward stays at its minimum of one hundred-millionth for ever, so that, unlike the calculator's, it
  never stops issuing money. (For blocks without fees.)
\<close>

theorem block_reward_schedule:
  assumes "h_BlockNumber (b_Header b) = h" "h \<noteq> 0" "sum_fees (GetAllTransactions (b_Transactions b)) = Fin 0"
  shows "calculateBlockReward b = (if unat h div 210000 \<le> 32 then CalculateBlockReward h else min_reward)"
proof -
  define k where "k = unat h div 210000"
  have eq: "calculateBlockReward b = at_least_min (fadd (((\<lambda>r. fdiv r (Fin 2)) ^^ k) (Fin 50)) (Fin 0))"
    using calculateBlockReward_no_fees [of b] assms unfolding k_def by simp
  show ?thesis
  proof (cases "k \<le> 32")
    case True
    then have "calculateBlockReward b = Fin (50 / 2 ^ k)"
      using representable_50 [of k] by (simp add: eq halve_exact round64_representable floor_early)
    moreover have "CalculateBlockReward h = Fin (50 / 2 ^ k)"
      using True unfolding CalculateBlockReward_closed k_def by simp
    ultimately show ?thesis using True by (simp add: k_def)
  next
    case False
    then obtain y where "((\<lambda>r. fdiv r (Fin 2)) ^^ k) (Fin 50) = Fin y" "y \<le> 50 / 2 ^ 33" "representable y"
      using halve_small [of k] by auto
    then have "calculateBlockReward b = min_reward" using floor_late [of y] by (simp add: eq round64_representable)
    then show ?thesis using False by (simp add: k_def)
  qed
qed

theorem block_reward_schedule_witness:
  "calculateBlockReward (new_block (zero_header\<lparr>h_BlockNumber := 420000\<rparr>)) = Fin (25 / 2) \<and>
   calculateBlockReward (new_block (zero_header\<lparr>h_BlockNumber := 7000000\<rparr>)) = min_reward"
proof -
  have "GetAllTransactions NewPatriciaTrie = []" by code_simp
  then have "sum_fees (GetAllTransactions (b_Transactions (new_block h))) = Fin 0" for h
    by (simp add: new_block_def sum_fees_def)
  then show ?thesis
    using block_reward_schedule [of "new_block (zero_header\<lparr>h_BlockNumber := 420000\<rparr>)" 420000]
      block_reward_schedule [of "new_block (zero_header\<lparr>h_BlockNumber := 7000000\<rparr>)" 7000000]
    by (simp add: new_block_def CalculateBlockReward_closed)
qed

section \<open>What validators and stakers are paid\<close>

lemma multiplier_two: "200 \<le> va_Score v \<Longrightarrow> calculatePerformanceMultiplier v = Fin 2"
proof -
  assume a: "200 \<le> va_Score v"
  then have s: "200 \<le> uint (va_Score v)" by (simp add: word_le_def)
  have small: "\<not> va_Score v < 50" using a by (simp add: word_less_def word_le_def)
  have "fle (Fin 200) (of_u64 (va_Score v))"
  proof -
    have "(200 :: rat) \<le> of_int (uint (va_Score v))" using s by (metis of_int_le_iff of_int_numeral)
    then show ?thesis unfolding of_u64_def using round64_ge [of 200] representable_nat [of 200] by auto
  qed
  then consider x where "of_u64 (va_Score v) = Fin x" "200 \<le> x" | "of_u64 (va_Score v) = PInf"
    by (cases "of_u64 (va_Score v)") (auto simp: fle_def feq_def is_zero_def)
  then show ?thesis
  proof cases
    case (1 x)
    have "fle (Fin 2) (round64 (x / 100))" using 1(2) representable_nat [of 2] by (intro round64_ge) simp_all
    then have "\<not> flt (round64 (x / 100)) (Fin 2)" by (simp add: flt_not_fle)
    moreover have "round64 (x / 100) \<noteq> NInf" "\<not> is_zero (round64 (x / 100))"
      using \<open>fle (Fin 2) (round64 (x / 100))\<close> by (cases "round64 (x / 100)"; auto simp: fle_def feq_def is_zero_def)+
    ultimately show ?thesis
      using 1 small by (simp add: calculatePerformanceMultiplier_def fdiv_Fin_round fmin_def MaxRewardMultiplier_def)
  next
    case 2
    then show ?thesis
      using small by (simp add: calculatePerformanceMultiplier_def fdiv_def fmin_def MaxRewardMultiplier_def signed_inf_def is_zero_def)
  qed
qed

lemma share_bounds: "\<exists>s. ValidatorRewardShare = Fin s \<and> 11 / 16 \<le> s \<and> s \<le> 3 / 4"
proof -
  have "representable (11 / 16)" "representable (3 / 4)" using representable_share [of 11 4] representable_share [of 3 2] by simp_all
  moreover have "(11 :: rat) / 16 \<le> 70 / 100" "(70 :: rat) / 100 \<le> 3 / 4" by linarith+
  ultimately obtain s where "round64 (70 / 100) = Fin s" "11 / 16 \<le> s" "s \<le> 3 / 4"
    using round64_between [of "11 / 16" "3 / 4" "70 / 100"] by auto
  then show ?thesis by (simp add: ValidatorRewardShare_def)
qed

lemma validator_reward_at:
  assumes "200 \<le> va_Score v" "unat h div 210000 \<le> 1000"
  shows "\<exists>r x. CalculateBlockReward h = Fin r \<and> CalculateValidatorReward (Some v) (CalculateBlockReward h) = Fin x \<and>
    0 < r \<and> 11 / 8 * r \<le> x"
proof -
  define k where "k = unat h div 210000"
  have k: "k \<le> 1000" using assms(2) by (simp add: k_def)
  have r: "CalculateBlockReward h = Fin (50 / 2 ^ k)" using k unfolding CalculateBlockReward_closed k_def by simp
  obtain s where s: "ValidatorRewardShare = Fin s" "11 / 16 \<le> s" "s \<le> 3 / 4" using share_bounds by blast
  have low: "representable (550 / 2 ^ (k + 4))" and high: "representable (150 / 2 ^ (k + 2))"
    using representable_share [of 550 "k + 4"] representable_share [of 150 "k + 2"] k by simp_all
  have "550 / 2 ^ (k + 4) \<le> 50 / 2 ^ k * s" "50 / 2 ^ k * s \<le> 150 / 2 ^ (k + 2)"
    using s(2,3) by (simp_all add: field_simps power_add)
  then obtain y where y: "round64 (50 / 2 ^ k * s) = Fin y" "550 / 2 ^ (k + 4) \<le> y" "y \<le> 150 / 2 ^ (k + 2)"
    using round64_between [OF low high] by auto
  have ypos: "0 \<le> y" by (rule order_trans [OF _ y(2)]) simp
  have low2: "representable (1100 / 2 ^ (k + 4))" and high2: "representable (300 / 2 ^ (k + 2))"
    using representable_share [of 1100 "k + 4"] representable_share [of 300 "k + 2"] k by simp_all
  obtain x where x: "round64 (y * 2) = Fin x" "1100 / 2 ^ (k + 4) \<le> x"
    using round64_between [OF low2 high2, of "y * 2"] y(2,3) by auto
  have "0 \<le> s" by (rule order_trans [OF _ s(2)]) simp
  then have "CalculateValidatorReward (Some v) (CalculateBlockReward h) = Fin x"
    using y(1) ypos x(1) unfolding CalculateValidatorReward_def r s(1) by (simp add: fmul_Fin_round multiplier_two [OF assms(1)])
  moreover have "11 / 8 * (50 / 2 ^ k) \<le> x" using x(2) by (simp add: power_add)
  ultimately show ?thesis unfolding r by simp
qed

text \<open>
  A validator with a score of at least 200 is paid more than the whole reward of the block it validated, at
  least eleven eighths of it, at every height up to a thousand halvings: the doubled 70 percent are not taken
  from the reward, they are issued on top.
\<close>

theorem validator_reward_exceeds_block_reward:
  assumes "200 \<le> va_Score v" "unat h div 210000 \<le> 1000"
  shows "\<exists>r x. CalculateBlockReward h = Fin r \<and> CalculateValidatorReward (Some v) (CalculateBlockReward h) = Fin x \<and>
    0 < r \<and> 11 / 8 * r \<le> x"
  using assms by (rule validator_reward_at)

theorem validator_reward_exceeds_block_reward_witness:
  "\<exists>x. CalculateValidatorReward (Some (zero_validator\<lparr>va_Score := 200\<rparr>)) (CalculateBlockReward 7) = Fin x \<and> 68 \<le> x"
  using validator_reward_exceeds_block_reward [of "zero_validator\<lparr>va_Score := 200\<rparr>" 7]
  by (auto simp: CalculateBlockReward_closed)

text \<open>
  The first reward of a stake that was added with \<open>AddStake\<close>, which leaves the time of the last reward at the
  zero time: the elapsed time saturates at the largest duration, about 292 years.
\<close>

lemma rate_bounds: "\<exists>s. StakeRewardRate = Fin s \<and> 51 / 1024 \<le> s \<and> s \<le> 1 / 16"
proof -
  have "representable (51 / 1024)" "representable (1 / 16)" using representable_share [of 51 10] representable_share [of 1 4] by simp_all
  moreover have "(51 :: rat) / 1024 \<le> 5 / 100" "(5 :: rat) / 100 \<le> 1 / 16" by linarith+
  ultimately obtain s where "round64 (5 / 100) = Fin s" "51 / 1024 \<le> s" "s \<le> 1 / 16"
    using round64_between [of "51 / 1024" "1 / 16" "5 / 100"] by auto
  then show ?thesis by (simp add: StakeRewardRate_def)
qed

lemma round64_sandwich:
  assumes "0 \<le> l" "l \<le> x" "x \<le> of_nat m" "representable l" "m \<le> 2 ^ 53"
  shows "\<exists>y. round64 x = Fin y \<and> l \<le> y \<and> y \<le> of_nat m"
  using round64_between [OF assms(4) representable_nat [OF assms(5)] assms(2,3,1)] by auto

lemma fadd_nonneg: "0 \<le> x \<Longrightarrow> 0 \<le> y \<Longrightarrow> fadd (Fin x) (Fin y) = round64 (x + y)"
  by simp

lemma max_duration_hours: "\<exists>d. duration_in hour (2 ^ 63 - 1) = Fin d \<and> 2562047 \<le> d \<and> d \<le> 2562048"
proof -
  have whole: "of_int64 2562047 = Fin 2562047" "of_int64 2836854775807 = Fin 2836854775807" "of_int64 3600000000000 = Fin 3600000000000"
    using of_int64_exact [of 2562047] of_int64_exact [of 2836854775807] of_int64_exact [of 3600000000000] by simp_all
  obtain q where q: "round64 (2836854775807 / 3600000000000) = Fin q" "0 \<le> q" "q \<le> 1"
    using round64_between [of 0 1 "2836854775807 / 3600000000000"] representable_nat [of 1] by auto
  obtain d where d: "round64 (2562047 + q) = Fin d" "2562047 \<le> d" "d \<le> 2562048"
    using round64_between [of 2562047 2562048 "2562047 + q"] representable_nat [of 2562047] representable_nat [of 2562048] q(2,3) by auto
  have "duration_in hour (2 ^ 63 - 1) = fadd (of_int64 2562047) (fdiv (of_int64 2836854775807) (of_int64 3600000000000))"
    by (simp add: duration_in_def second_def)
  also have "\<dots> = Fin d" using q d by (simp add: whole fdiv_Fin_round)
  finally show ?thesis using d by blast
qed

lemma staker_share_bounds: "\<exists>s. StakerRewardShare = Fin s \<and> 0 \<le> s \<and> s \<le> 1"
proof -
  obtain s where "round64 (30 / 100) = Fin s" "0 \<le> s" "s \<le> 1"
    using round64_between [of 0 1 "30 / 100"] representable_nat [of 1] by auto
  then show ?thesis by (simp add: StakerRewardShare_def)
qed

lemma time_based_reward:
  assumes "0 < a" "a \<le> 2 ^ 26"
  shows "\<exists>x. fdiv (fmul (fmul (Fin (of_nat a)) StakeRewardRate) (duration_in hour (2 ^ 63 - 1))) (Fin (24 * 365)) = Fin x \<and>
    14 * of_nat a \<le> x \<and> x \<le> of_nat (300 * a)"
proof -
  obtain s where s: "StakeRewardRate = Fin s" "51 / 1024 \<le> s" "s \<le> 1 / 16" using rate_bounds by blast
  obtain d where d: "duration_in hour (2 ^ 63 - 1) = Fin d" "2562047 \<le> d" "d \<le> 2562048" using max_duration_hours by blast
  have s0: "0 \<le> s" and d0: "0 \<le> d" using s(2) d(2) by linarith+
  have r1: "representable (of_nat (51 * a) / 2 ^ 10)" by (rule representable_share) (use assms in simp_all)
  have "of_nat (51 * a) / 2 ^ 10 \<le> of_nat a * s" "of_nat a * s \<le> of_nat a"
    using s(2,3) assms(1) mult_left_mono [of "51 / 1024" s "of_nat a"] mult_left_mono [of s 1 "of_nat a"] by simp_all
  then obtain y where y: "round64 (of_nat a * s) = Fin y" "of_nat (51 * a) / 2 ^ 10 \<le> y" "y \<le> of_nat a"
    using round64_sandwich [OF _ _ _ r1, of "of_nat a * s" a] assms(2) by auto
  have y0: "0 \<le> y" by (rule order_trans [OF _ y(2)]) simp
  have r2: "representable (of_nat (130664397 * a) / 2 ^ 10)" by (rule representable_share) (use assms in simp_all)
  have "of_nat (51 * a) / 2 ^ 10 * 2562047 \<le> y * d" using y(2) d(2) y0 by (intro mult_mono) simp_all
  moreover have "y * d \<le> of_nat a * 2562048" using y(3) d(3) d0 by (intro mult_mono) simp_all
  ultimately obtain z where z: "round64 (y * d) = Fin z" "of_nat (130664397 * a) / 2 ^ 10 \<le> z" "z \<le> of_nat (2562048 * a)"
    using round64_sandwich [OF _ _ _ r2, of "y * d" "2562048 * a"] assms(2) by (auto simp: mult.commute)
  have z0: "0 \<le> z" by (rule order_trans [OF _ z(2)]) simp
  have "of_nat (14 * a) \<le> z / 8760" "z / 8760 \<le> of_nat (300 * a)" using z(2,3) by simp_all
  then obtain x where x: "round64 (z / 8760) = Fin x" "of_nat (14 * a) \<le> x" "x \<le> of_nat (300 * a)"
    using round64_sandwich [of "of_nat (14 * a)" "z / 8760" "300 * a"] representable_nat [of "14 * a"] assms(2) by auto
  show ?thesis
    using x y(1) z(1) y0 z0 s0 d0 unfolding s(1) d(1) by (simp add: fmul_Fin_round fdiv_Fin_round)
qed

text \<open>
  C0. The first reward of a stake that \<open>AddStake\<close> created is at least fourteen times the stake: the time of
  its last reward is the zero time, and the elapsed time saturates at 292 years of five percent each.
\<close>

theorem first_stake_reward:
  assumes "si_Amount stake = word_of_nat a" "0 < a" "a \<le> 2 ^ 26" "si_LastRewardTime stake = zero_time"
    and "zero_time + 2 ^ 63 \<le> now" "24 * hour \<le> elapsed now (si_StartTime stake)"
    and "sp_mu sp = Unlocked" "sum_stakes (Stakes sp) = Fin t" "of_nat a \<le> t"
  shows "\<exists>x. CalculateStakeReward now stake (CalculateBlockReward h) sp = Ret (sp, Fin x) \<and> 14 * of_nat a \<le> x"
proof -
  have u: "uint (si_Amount stake) = int a" using assms(1,3) by (simp add: uint_nat unat_of_nat)
  then have ofu: "of_u64 (si_Amount stake) = Fin (of_nat a)" using assms(3) by (simp add: of_u64_exact)
  have nz: "si_Amount stake \<noteq> 0" using u assms(2) by auto
  have e: "elapsed now (si_LastRewardTime stake) = 2 ^ 63 - 1" using assms(4,5) by (simp add: elapsed_def)
  obtain x where x: "fdiv (fmul (fmul (Fin (of_nat a)) StakeRewardRate) (duration_in hour (2 ^ 63 - 1))) (Fin (24 * 365)) = Fin x"
    "14 * of_nat a \<le> x" "x \<le> of_nat (300 * a)" using time_based_reward [OF assms(2,3)] by blast
  have x0: "0 \<le> x" by (rule order_trans [OF _ x(2)]) simp
  obtain r where r: "CalculateBlockReward h = Fin r" "0 \<le> r" "r \<le> 50"
    by (cases "unat h div 210000 < 1024") (auto simp: CalculateBlockReward_closed divide_le_eq)
  obtain s where s: "StakerRewardShare = Fin s" "0 \<le> s" "s \<le> 1" using staker_share_bounds by blast
  have t0: "0 < t" using assms(2,9) by (simp add: less_le_trans [of 0 "of_nat a"])
  have "r * s \<le> 50" using mult_mono [OF r(3) s(3)] s(2) by simp
  then obtain y where y: "round64 (r * s) = Fin y" "0 \<le> y" "y \<le> 50"
    using round64_sandwich [of 0 "r * s" 50] r(2) s(2) by auto
  have "of_nat a / t \<le> 1" using assms(9) t0 by simp
  then obtain q where q: "round64 (of_nat a / t) = Fin q" "0 \<le> q" "q \<le> 1"
    using round64_sandwich [of 0 "of_nat a / t" 1] t0 by auto
  have "y * q \<le> 50" using mult_mono [OF y(3) q(3)] q(2) by simp
  then obtain z where z: "round64 (y * q) = Fin z" "0 \<le> z" "z \<le> 50"
    using round64_sandwich [of 0 "y * q" 50] y(2) q(2) by auto
  have "x + z \<le> of_nat (300 * a + 50)" using x(3) z(3) by simp
  moreover have "representable (14 * of_nat a)" using representable_nat [of "14 * a"] assms(3) by simp
  ultimately obtain w where w: "round64 (x + z) = Fin w" "14 * of_nat a \<le> w"
    using round64_sandwich [of "14 * of_nat a" "x + z" "300 * a + 50"] x(2) z(2) assms(3) by auto
  have total: "GetTotalStake sp = Ret (sp, Fin t)"
    using assms(7,8) by (simp add: GetTotalStake_def stake_mu.lock_readonly)
  show ?thesis
    using nz assms(6) t0 total e ofu x(1) r y q z w s(2) x0 unfolding CalculateStakeReward_def s(1)
    by (simp add: MinStakeTime_def fmul_Fin_round fdiv_Fin_round Let_def)
qed

theorem first_stake_reward_witness:
  "\<exists>sp x. AddStake 0 ''w'' ''h'' (Fin 100) NewStakePool = Ret (sp, Inr ()) \<and>
    CalculateStakeReward (24 * hour) (the (gomap_get (Stakes sp) ''w'')) (CalculateBlockReward 5) sp = Ret (sp, Fin x) \<and> 1400 \<le> x"
proof -
  let ?stake = "zero_stake\<lparr>si_Address := ''w'', si_Amount := word_of_nat 100, si_StartTime := 0, si_LastActive := 0\<rparr>"
  let ?sp = "NewStakePool\<lparr>Stakes := [(''w'', ?stake)], WalletToHost := [(''w'', ''h'')]\<rparr>"
  have add: "AddStake 0 ''w'' ''h'' (Fin 100) NewStakePool = Ret (?sp, Inr ())"
    by (simp add: AddStake_def NewStakePool_def stake_mu.lock_enters Let_def to_u64_Fin)
  have "sum_stakes (Stakes ?sp) = Fin 100"
    by (simp add: sum_stakes_def of_u64_exact round64_representable representable_nat [of 100, simplified])
  then show ?thesis
    using first_stake_reward [of ?stake 100 "24 * hour" ?sp 100 5] add
    by (auto simp: NewStakePool_def zero_stake_def zero_time_def second_def elapsed_def)
qed

section \<open>The books of the reward calculator\<close>

definition earned :: "string \<Rightarrow> 'd RewardCalculator \<Rightarrow> float64" where
  "earned a rc = fold (\<lambda>e acc. fadd acc (re_Amount e)) (gomap_get_or [] (rc_rewardHistory rc) a) (Fin 0)"

definition books_ok :: "'d RewardCalculator \<Rightarrow> bool" where
  "books_ok rc \<longleftrightarrow> bc_mu (rc_blockchain rc) = Unlocked \<and> sp_mu (rc_stakePool rc) = Unlocked \<and>
     (\<forall>a. gomap_get_or (Fin 0) (bc_balances (rc_blockchain rc)) a = earned a rc)"

lemma pay_ok:
  assumes "books_ok rc"
  shows "\<exists>rc'. pay now a x ty h rc = Ret rc' \<and> books_ok rc' \<and> rc_mu rc' = rc_mu rc \<and> rc_stakePool rc' = rc_stakePool rc"
  using assms
  by (auto simp: pay_def AddBalance_def chain_mu.lock_enters books_ok_def earned_def recordRewardEvent_def gomap_get_or_def gomap_simps)

lemma CalculateStakeReward_returns:
  "sp_mu sp = Unlocked \<Longrightarrow> \<exists>x. CalculateStakeReward now stake r sp = Ret (sp, x)"
  by (simp add: CalculateStakeReward_def GetTotalStake_def stake_mu.lock_readonly Let_def)

lemma pay_stakes_ok:
  "books_ok rc \<Longrightarrow> \<exists>rc'. pay_stakes now r h addrs rc = Ret rc' \<and> books_ok rc' \<and> rc_mu rc' = rc_mu rc"
proof (induction addrs arbitrary: rc)
  case (Cons a addrs)
  show ?case
  proof (cases "gomap_get (Stakes (rc_stakePool rc)) a")
    case None
    then show ?thesis using Cons.IH [OF Cons.prems] by simp
  next
    case (Some stake)
    obtain x where x: "CalculateStakeReward now stake r (rc_stakePool rc) = Ret (rc_stakePool rc, x)"
      using CalculateStakeReward_returns [of "rc_stakePool rc" now stake r] Cons.prems by (auto simp: books_ok_def)
    obtain rc1 where p: "pay now a x ''stake'' h rc = Ret rc1" "books_ok rc1" "rc_mu rc1 = rc_mu rc" "rc_stakePool rc1 = rc_stakePool rc"
      using pay_ok [OF Cons.prems] by blast
    let ?rc = "rc1\<lparr>rc_stakePool := (rc_stakePool rc1)\<lparr>Stakes := gomap_put a (stake\<lparr>si_LastRewardTime := now\<rparr>) (Stakes (rc_stakePool rc1))\<rparr>\<rparr>"
    have "books_ok ?rc" using p(2) by (simp add: books_ok_def earned_def)
    then obtain rc2 where "pay_stakes now r h addrs ?rc = Ret rc2" "books_ok rc2" "rc_mu rc2 = rc_mu rc"
      using Cons.IH [of ?rc] p(3) by auto
    then show ?thesis using Some x p Cons.IH [OF Cons.prems] by (simp add: Let_def)
  qed
qed simp

inductive reward_step :: "'d RewardCalculator \<Rightarrow> 'd RewardCalculator \<Rightarrow> bool" where
  "DistributeRewards now block validator rc = Ret (rc', r) \<Longrightarrow> reward_step rc rc'"

lemma DistributeRewards_ok:
  assumes "books_ok rc" "rc_mu rc = Unlocked"
  shows "\<exists>rc'. DistributeRewards now block validator rc = Ret (rc', Inr ()) \<and> books_ok rc' \<and> rc_mu rc' = Unlocked"
proof -
  let ?rc = "rc\<lparr>rc_mu := Locked\<rparr>"
  let ?h = "h_BlockNumber (b_Header block)"
  let ?r = "CalculateBlockReward ?h"
  let ?x = "CalculateValidatorReward validator ?r"
  have ok: "books_ok ?rc" using assms(1) by (simp add: books_ok_def earned_def)
  obtain rc1 where 1: "(case validator of Some v \<Rightarrow> if flt (Fin 0) ?x then pay now (va_Address v) ?x ''validator'' ?h ?rc else Ret ?rc
      | None \<Rightarrow> Ret ?rc) = Ret rc1" "books_ok rc1"
  proof (cases validator)
    case None
    then show ?thesis using that ok by simp
  next
    case (Some v)
    then show ?thesis
      using that ok pay_ok [OF ok, of now "va_Address v" ?x "''validator''" ?h] by (cases "flt (Fin 0) ?x") auto
  qed
  obtain rc2 where 2: "pay_stakes now ?r ?h (map fst (Stakes (rc_stakePool rc1))) rc1 = Ret rc2" "books_ok rc2"
    using pay_stakes_ok [OF 1(2)] by blast
  have "books_ok (rc2\<lparr>rc_mu := Unlocked\<rparr>)" using 2(2) by (simp add: books_ok_def earned_def)
  then show ?thesis using 1(1) 2(1) assms(2) by (simp add: DistributeRewards_def reward_mu.lock_enters Let_def)
qed

text \<open>
  C40. The books of the reward calculator. Starting from a chain without balances, any sequence of reward distributions, for any
  blocks and validators, leaves every balance equal to the sum of the recorded rewards of the address, added in
  the order of the records; and the next distribution always returns.
\<close>

theorem reward_books_agree:
  assumes "reward_step\<^sup>*\<^sup>* (NewRewardCalculator t bc sp) rc" "bc_balances bc = []" "bc_mu bc = Unlocked" "sp_mu sp = Unlocked"
  shows "(\<forall>a. gomap_get_or (Fin 0) (bc_balances (rc_blockchain rc)) a = earned a rc) \<and>
    (\<exists>rc'. DistributeRewards now block validator rc = Ret (rc', Inr ()))"
proof -
  have "books_ok rc \<and> rc_mu rc = Unlocked"
    using assms(1)
  proof induction
    case base
    show ?case using assms(2-4) by (simp add: books_ok_def earned_def NewRewardCalculator_def gomap_get_or_def)
  next
    case (step rc rc')
    obtain n b v r where "DistributeRewards n b v rc = Ret (rc', r)" using step.hyps(2) by (auto elim: reward_step.cases)
    then show ?case using DistributeRewards_ok [of rc n b v] step.IH by auto
  qed
  then show ?thesis using DistributeRewards_ok [of rc now block validator] by (auto simp: books_ok_def)
qed

theorem reward_books_agree_witness:
  "\<exists>rc. reward_step\<^sup>*\<^sup>* (NewRewardCalculator 0 (InitialiseBlockchain 0 empty_db) NewStakePool) rc \<and>
    length (gomap_get_or [] (rc_rewardHistory rc) ''v'') = 1 \<and>
    gomap_get_or (Fin 0) (bc_balances (rc_blockchain rc)) ''v'' = earned ''v'' rc"
proof -
  let ?rc = "NewRewardCalculator 0 (InitialiseBlockchain 0 empty_db) NewStakePool"
  let ?v = "zero_validator\<lparr>va_Address := ''v'', va_Score := 200\<rparr>"
  let ?b = "GenesisBlock 0"
  obtain x where x: "CalculateValidatorReward (Some ?v) (CalculateBlockReward 0) = Fin x" "0 < x"
  proof -
    obtain r x where "CalculateValidatorReward (Some ?v) (CalculateBlockReward 0) = Fin x" "0 < r" "11 / 8 * r \<le> x"
      using validator_reward_at [of ?v 0] by auto
    then show ?thesis using that [of x] by simp
  qed
  have h0: "h_BlockNumber (b_Header ?b) = 0" by (simp add: GenesisBlock_def new_block_def)
  obtain rc where rc: "DistributeRewards 0 ?b (Some ?v) ?rc = Ret (rc, Inr ())" "length (gomap_get_or [] (rc_rewardHistory rc) ''v'') = 1"
    using x h0
    by (simp add: DistributeRewards_def reward_mu.lock_enters NewRewardCalculator_def pay_def AddBalance_def chain_mu.lock_enters
        InitialiseBlockchain_def recordRewardEvent_def NewStakePool_def gomap_get_or_def gomap_simps Let_def)
  then have steps: "reward_step\<^sup>*\<^sup>* ?rc rc" by (auto intro: reward_step.intros)
  show ?thesis
    using reward_books_agree [OF steps] rc steps by (auto simp: InitialiseBlockchain_def NewStakePool_def)
qed

section \<open>What slashing takes and credits\<close>

lemma GetLatestBlock_memory:
  "bc_mu bc \<noteq> Locked \<Longrightarrow> Chain bc \<noteq> [] \<Longrightarrow> GetLatestBlock L bc = Ret (bc, Some (last (Chain bc)))"
  using chain_mu.set_mu_same [of bc] by (cases "bc_mu bc") (simp_all add: GetLatestBlock_def with_rlock_def)

lemma recordSlashingEvent_frame:
  assumes "bc_db (sm_blockchain sm) = Some db" "amount = Fin x"
  shows "\<exists>sm' r. recordSlashingEvent L now v amount sm = Ret (sm', r) \<and> sm_stakePool sm' = sm_stakePool sm \<and>
    bc_communityPool (sm_blockchain sm') = bc_communityPool (sm_blockchain sm) \<and> sm_evidence sm' = sm_evidence sm"
proof -
  have "enc_list enc_evidence es \<noteq> None" for es
    by (induction es) (auto simp: enc_list_def enc_evidence_def split: option.splits)
  then obtain j where "enc_list enc_evidence (gomap_get_or [] (sm_evidence sm) (va_Address v)) = Some j" by fastforce
  moreover obtain db' res where "db_Put L (''slash:'' @ va_Address v @ '':'' @ show_int (now div second))
      (JObj [(''Timestamp'', JInt now), (''Address'', JStr (va_Address v)), (''Amount'', JFloat amount),
        (''Violations'', JInt (va_Violations v)), (''Evidence'', j)]) db = (db', res)" by (rule prod.exhaust)
  ultimately show ?thesis
    using assms by (cases res) (simp_all add: recordSlashingEvent_def enc_float_def Let_def)
qed

lemma half_stake:
  assumes "uint w \<le> 2 ^ 53"
  shows "fmul (of_u64 w) SlashingPenaltyRate = Fin (of_int (uint w) / 2)" "uint (w - to_u64 (Fin (of_int (uint w) / 2))) = uint w - uint w div 2"
proof -
  have nonneg: "0 \<le> (of_int (uint w) :: rat)" unfolding of_int_0_le_iff by simp
  have "representable (of_int (uint w) / 2)" using representable_dyadic [of "uint w" 1] assms by simp
  then show "fmul (of_u64 w) SlashingPenaltyRate = Fin (of_int (uint w) / 2)"
    unfolding of_u64_exact [OF assms] SlashingPenaltyRate_def using fmul_Fin [OF nonneg, of "1 / 2"] by simp
  have "\<lfloor>of_int (uint w) / 2 :: rat\<rfloor> = uint w div 2" by (metis floor_divide_of_int_eq of_int_numeral)
  moreover have "(of_int (uint w) / 2 :: rat) < 2 ^ 63"
    using assms of_int_le_iff [of "uint w" "2 ^ 53", where ?'a = rat] by simp
  ultimately have "to_u64 (Fin (of_int (uint w) / 2)) = word_of_int (uint w div 2)"
    using to_u64_Fin [of "of_int (uint w) / 2"] nonneg by simp
  moreover have "0 \<le> uint w - uint w div 2" "uint w - uint w div 2 < 18446744073709551616"
    using assms unsigned_greater_eq [of w, where 'a = int] by (simp_all, linarith+)
  ultimately show "uint (w - to_u64 (Fin (of_int (uint w) / 2))) = uint w - uint w div 2"
    using assms by (simp add: uint_word_ariths uint_word_of_int mod_pos_pos_trivial)
qed

text \<open>
  C23. What a violation costs. Below the third one a validator is put on probation for a day and keeps its
  stake. From the third on, half the stake, rounded down, is taken, and the validator is slashed with score 0; but the
  community pool is credited with the exact half, so that an odd stake creates half a token. Each
  violation adds one piece of evidence.
\<close>

theorem HandleViolation_spec:
  assumes "sm_mu sm = Unlocked" "bc_mu (sm_blockchain sm) \<noteq> Locked" "Chain (sm_blockchain sm) \<noteq> []"
    and "bc_db (sm_blockchain sm) = Some db" "gomap_get (Stakes (sm_stakePool sm)) (va_Address v) = Some stake"
    and "uint (si_Amount stake) \<le> 2 ^ 53"
  shows "\<exists>sm' v' r. HandleViolation L now (Some v) ty sm = Ret (sm', (Some v', r)) \<and> va_Violations v' = va_Violations v + 1 \<and>
    length (gomap_get_or [] (sm_evidence sm') (va_Address v)) = Suc (length (gomap_get_or [] (sm_evidence sm) (va_Address v))) \<and>
    (if va_Violations v < 2
     then va_Status v' = ValidatorStatusProbation \<and> va_ProbationEndTime v' = now + 24 * hour \<and> sm_stakePool sm' = sm_stakePool sm
     else va_Status v' = ValidatorStatusSlashed \<and> va_Score v' = 0 \<and>
       stake_of (sm_stakePool sm') = (stake_of (sm_stakePool sm))(va_Address v := uint (si_Amount stake) - uint (si_Amount stake) div 2) \<and>
       bc_communityPool (sm_blockchain sm') = fadd (bc_communityPool (sm_blockchain sm)) (Fin (of_int (uint (si_Amount stake)) / 2)))"
proof -
  let ?sm = "sm\<lparr>sm_mu := Locked\<rparr>"
  have latest: "GetLatestBlock L (sm_blockchain ?sm) = Ret (sm_blockchain sm, Some (last (Chain (sm_blockchain sm))))"
    using GetLatestBlock_memory assms(2,3) by simp
  show ?thesis
  proof (cases "va_Violations v < 2")
    case True
    then show ?thesis
      using latest assms(1)
      by (simp add: HandleViolation_def slashing_mu.lock_enters SlashingThreshold_def ProbationPeriod_def Let_def gomap_get_or_def gomap_simps)
  next
    case False
    define v1 where "v1 = v\<lparr>va_Violations := va_Violations v + 1\<rparr>"
    obtain e where e: "HandleViolation L now (Some v) ty sm =
        go_bind (go_bind (SlashValidator L now v1 (?sm\<lparr>sm_evidence := gomap_put (va_Address v)
          (gomap_get_or [] (sm_evidence sm) (va_Address v) @ [e]) (sm_evidence sm)\<rparr>))
          (\<lambda>(sm, v, r). Ret (sm, (Some v, r)))) (\<lambda>(s, r). Ret (s\<lparr>sm_mu := Unlocked\<rparr>, r))"
      using False latest assms(1)
      by (simp add: HandleViolation_def slashing_mu.lock_enters SlashingThreshold_def Let_def v1_def)
    define sm1 where "sm1 = ?sm\<lparr>sm_evidence := gomap_put (va_Address v)
          (gomap_get_or [] (sm_evidence sm) (va_Address v) @ [e]) (sm_evidence sm)\<rparr>"
    let ?stake = "stake\<lparr>si_Amount := si_Amount stake - to_u64 (Fin (of_int (uint (si_Amount stake)) / 2))\<rparr>"
    let ?p = "Fin (of_int (uint (si_Amount stake)) / 2)"
    let ?v = "v1\<lparr>va_Status := ValidatorStatusSlashed, va_Score := 0\<rparr>"
    define sm2 where "sm2 = sm1\<lparr>sm_stakePool := (sm_stakePool sm1)\<lparr>Stakes := gomap_put (va_Address v) ?stake (Stakes (sm_stakePool sm1))\<rparr>,
      sm_blockchain := (sm_blockchain sm1)\<lparr>bc_communityPool := fadd (bc_communityPool (sm_blockchain sm1)) ?p\<rparr>\<rparr>"
    have s: "SlashValidator L now v1 sm1 = go_bind (recordSlashingEvent L now ?v ?p sm2) (\<lambda>(sm, r). Ret (sm, (?v, r)))"
      using assms(5,6) half_stake(1) [OF assms(6)] by (simp add: SlashValidator_def sm1_def sm2_def v1_def Let_def)
    have "bc_db (sm_blockchain sm2) = Some db" using assms(4) by (simp add: sm2_def sm1_def)
    then obtain sm3 r where r: "recordSlashingEvent L now ?v ?p sm2 = Ret (sm3, r)" "sm_stakePool sm3 = sm_stakePool sm2"
      "bc_communityPool (sm_blockchain sm3) = bc_communityPool (sm_blockchain sm2)" "sm_evidence sm3 = sm_evidence sm2"
      using recordSlashingEvent_frame [of sm2 db ?p] by blast
    have eq: "HandleViolation L now (Some v) ty sm = Ret (sm3\<lparr>sm_mu := Unlocked\<rparr>, (Some ?v, r))"
      unfolding e sm1_def [symmetric] s r(1) by simp
    have "stake_of (sm_stakePool sm2) = (stake_of (sm_stakePool sm))(va_Address v := uint (si_Amount stake) - uint (si_Amount stake) div 2)"
      using half_stake(2) [OF assms(6)] by (auto simp: stake_of_def sm2_def sm1_def gomap_simps fun_eq_iff)
    moreover have "length (gomap_get_or [] (sm_evidence sm2) (va_Address v)) = Suc (length (gomap_get_or [] (sm_evidence sm) (va_Address v)))"
      by (simp add: sm2_def sm1_def gomap_get_or_def gomap_simps)
    moreover have "bc_communityPool (sm_blockchain sm2) = fadd (bc_communityPool (sm_blockchain sm)) ?p"
      by (simp add: sm2_def sm1_def)
    ultimately show ?thesis using eq r False by (simp add: v1_def)
  qed
qed

theorem HandleViolation_spec_witness:
  "\<exists>sm' v' r. HandleViolation memory_leveldb 0 (Some (zero_validator\<lparr>va_Address := ''v'', va_Violations := 2\<rparr>)) ''timeout''
      (NewSlashingManager (InitialiseBlockchain 0 empty_db) (NewStakePool\<lparr>Stakes := [(''v'', zero_stake\<lparr>si_Amount := 101\<rparr>)]\<rparr>)) = Ret (sm', (Some v', r)) \<and>
    va_Status v' = ValidatorStatusSlashed \<and> stake_of (sm_stakePool sm') ''v'' = 51 \<and>
    bc_communityPool (sm_blockchain sm') = Fin (101 / 2)"
proof -
  let ?sm = "NewSlashingManager (InitialiseBlockchain 0 empty_db) (NewStakePool\<lparr>Stakes := [(''v'', zero_stake\<lparr>si_Amount := 101\<rparr>)]\<rparr>)"
  have "representable (101 / 2)" using representable_share [of 101 1] by simp
  then show ?thesis
    using HandleViolation_spec [of ?sm empty_db "zero_validator\<lparr>va_Address := ''v'', va_Violations := 2\<rparr>"
        "zero_stake\<lparr>si_Amount := 101\<rparr>" memory_leveldb 0 "''timeout''"]
    by (auto simp: NewSlashingManager_def InitialiseBlockchain_def round64_representable)
qed

end
