(* ===== verification/Mining.thy ===== *)
theory Mining
  imports Incentives
begin

text \<open>
  Mining and the validation of mined blocks: the assembly of a block from the mempool, the search for a nonce and the
  validators' replies (\<open>src/blockchain/block.go\<close>), the mining of a block on the chain
  (\<open>src/blockchain/blockchain.go\<close>) and the checks of a validator (\<open>src/blockchain/validator.go\<close>).

  The search for a nonce may run for ever, so it is a partial function; a run that does not end is the outcome
  \<open>Block\<close>. The network is a parameter: which host ids it accepts and what a host replies to a document. The
  pools of outputs of the chain and of the node share one database and one manager of accounts.
  Calls that only produce log messages are left out. The lemmas show when the search ends and with which nonce,
  what a mined block is made of, and that a validator rejects the blocks that the miners of this program produce.
\<close>

section \<open>The search for a nonce\<close>

definition next_nonce :: "Block \<Rightarrow> Block" where
  "next_nonce b = b\<lparr>b_Header := (b_Header b)\<lparr>h_Nonce := h_Nonce (b_Header b) + 1\<rparr>\<rparr>"

partial_function (option) mine_loop :: "u32 \<Rightarrow> Block \<Rightarrow> Block option" where
  "mine_loop difficulty block =
    (let hash = CalculateHash block
     in if isHashValid hash difficulty then Some (block\<lparr>b_hash := hash\<rparr>)
        else mine_loop difficulty (next_nonce block))"

section \<open>Asking the validators\<close>

text \<open>
  \<open>encoding/base64\<close>: the digits of the standard alphabet in groups of four; line breaks are skipped, and the last group
  may be padded.
\<close>

definition base64_digit :: "char \<Rightarrow> nat option" where
  "base64_digit c =
    (let n = of_char c :: nat in
     if 65 \<le> n \<and> n \<le> 90 then Some (n - 65)
     else if 97 \<le> n \<and> n \<le> 122 then Some (n - 71)
     else if 48 \<le> n \<and> n \<le> 57 then Some (n + 4)
     else if n = 43 then Some 62
     else if n = 47 then Some 63
     else None)"

definition base64_bytes :: "nat \<Rightarrow> nat \<Rightarrow> nat \<Rightarrow> nat \<Rightarrow> bytes" where
  "base64_bytes a b c d =
    map (\<lambda>n. word_of_nat n) [a * 4 + b div 16, b mod 16 * 16 + c div 4, c mod 4 * 64 + d]"

fun base64_groups :: "string \<Rightarrow> bytes option" where
  "base64_groups [] = Some []"
| "base64_groups (a # b # c # d # rest) =
    (case (base64_digit a, base64_digit b, base64_digit c, base64_digit d) of
       (Some x, Some y, Some z, Some w) \<Rightarrow> map_option (\<lambda>bs. base64_bytes x y z w @ bs) (base64_groups rest)
     | (Some x, Some y, Some z, None) \<Rightarrow> if d = CHR ''='' \<and> rest = [] then Some (take 2 (base64_bytes x y z 0)) else None
     | (Some x, Some y, None, None) \<Rightarrow>
         if c = CHR ''='' \<and> d = CHR ''='' \<and> rest = [] then Some (take 1 (base64_bytes x y 0 0)) else None
     | _ \<Rightarrow> None)"
| "base64_groups _ = None"

definition base64_DecodeString :: "string \<Rightarrow> bytes option" where
  "base64_DecodeString s = base64_groups (filter (\<lambda>c. c \<noteq> CHR 0x0A \<and> c \<noteq> CHR 0x0D) s)"

text \<open>
  The network: whether \<open>peer.Decode\<close> accepts a host id, whether the node has a host to open streams with, and
  the document that a host answers to a document, if the stream can be opened and the exchange succeeds.
\<close>

record network =
  net_decode :: "string \<Rightarrow> bool"
  net_host :: bool
  net_reply :: "string \<Rightarrow> json \<Rightarrow> json option"

datatype mining_error = NoHostID | BadHostID | BlockNotSerialized | NoReply | BadReply | SelectionFailed stake_error
  | InsufficientValidations

text \<open>A value of the decoded map: the keys of a map are compared exactly, and the last duplicate wins.\<close>

definition response_value :: "json \<Rightarrow> string \<Rightarrow> json option" where
  "response_value response key = (case response of JObj kvs \<Rightarrow> map_of (rev kvs) key | _ \<Rightarrow> None)"

definition is_map :: "json \<Rightarrow> bool" where
  "is_map j = (case j of JObj _ \<Rightarrow> True | JNull \<Rightarrow> True | _ \<Rightarrow> False)"

definition response_signature :: "json \<Rightarrow> bytes option" where
  "response_signature response =
    (case response_value response ''signature'' of
       Some (JStr sigStr) \<Rightarrow> base64_DecodeString sigStr
     | Some (JBytes signature) \<Rightarrow> Some signature
     | _ \<Rightarrow> None)"

definition accept_validation :: "ValidatorNode \<Rightarrow> json \<Rightarrow> Block \<Rightarrow> Block" where
  "accept_validation validator response block =
    (let header = (b_Header block)\<lparr>h_ValidatedBy := vn_Address validator\<rparr>
     in block\<lparr>b_Header := (case response_signature response of
          Some signature \<Rightarrow> header\<lparr>h_ValidatorSig := signature\<rparr> | None \<Rightarrow> header)\<rparr>)"

definition requestValidation :: "network \<Rightarrow> Block \<Rightarrow> ValidatorNode \<Rightarrow> (Block \<times> (mining_error + bool)) go" where
  "requestValidation net block validator =
    (let (hostID, exists) = HostID validator in
     if \<not> exists then Ret (block, Inl NoHostID)
     else if \<not> net_decode net hostID then Ret (block, Inl BadHostID)
     else if \<not> net_host net then Panic
     else case MarshalJSON block of
       None \<Rightarrow> Ret (block, Inl BlockNotSerialized)
     | Some blockData \<Rightarrow>
         (case net_reply net hostID blockData of
            None \<Rightarrow> Ret (block, Inl NoReply)
          | Some response \<Rightarrow>
              if \<not> is_map response then Ret (block, Inl NoReply)
              else case response_value response ''valid'' of
                Some (JBool valid) \<Rightarrow> Ret (if valid then accept_validation validator response block else block, Inr valid)
              | _ \<Rightarrow> Ret (block, Inl BadReply)))"

fun request_all :: "network \<Rightarrow> ValidatorNode list \<Rightarrow> Block \<Rightarrow> nat \<Rightarrow> (Block \<times> nat) go" where
  "request_all net [] block validations = Ret (block, validations)"
| "request_all net (v # vs) block validations =
    go_bind (requestValidation net block v) (\<lambda>(block, r).
      request_all net vs block (if r = Inr True then validations + 1 else validations))"

definition set_difficulty :: "u32 \<Rightarrow> Block \<Rightarrow> Block" where
  "set_difficulty difficulty block = block\<lparr>b_Header := (b_Header block)\<lparr>h_Difficulty := difficulty\<rparr>\<rparr>"

definition MineBlock :: "int \<Rightarrow> network \<Rightarrow> Block \<Rightarrow> u32 \<Rightarrow> StakePool \<Rightarrow> (StakePool \<times> (Block \<times> (mining_error + unit))) go" where
  "MineBlock now net block difficulty stakePool =
    (case mine_loop difficulty (set_difficulty difficulty block) of
       None \<Rightarrow> Block
     | Some block \<Rightarrow>
         go_bind (GetValidators now 3 stakePool) (\<lambda>(stakePool, r).
           case r of
             Inl e \<Rightarrow> Ret (stakePool, (block, Inl (SelectionFailed e)))
           | Inr validators \<Rightarrow>
               go_bind (request_all net validators block 0) (\<lambda>(block, validations).
                 if validations < length validators div 2 + 1 then Ret (stakePool, (block, Inl InsufficientValidations))
                 else Ret (stakePool, (block, Inr ())))))"

section \<open>Assembling a block from the mempool\<close>

text \<open>The transactions that fit, with their receipts; the first one that does not fit ends the loop.\<close>

fun include_txs :: "keys \<Rightarrow> BlockHeader \<Rightarrow> Transaction list \<Rightarrow> PatriciaNode \<times> TxReceipt list \<times> u64 \<times> utxo_map \<Rightarrow>
    (PatriciaNode \<times> TxReceipt list \<times> u64 \<times> utxo_map) go" where
  "include_txs keys header [] acc = Ret acc"
| "include_txs keys header (tx # txs) (trie, receipts, cumulativeGas, utxoSet) =
    (let gasNeeded = calculateGas tx in
     if cumulativeGas + gasNeeded > h_GasLimit header then Ret (trie, receipts, cumulativeGas, utxoSet)
     else go_bind (ValidateTransaction keys tx utxoSet) (\<lambda>valid.
       if \<not> valid then include_txs keys header txs (trie, receipts, cumulativeGas, utxoSet)
       else
         let receipt = \<lparr>r_TxHash = tx_Hash tx, r_BlockHash = [], r_BlockNumber = h_BlockNumber header,
               r_GasUsed = gasNeeded, r_Status = 1, r_CumulativeGas = cumulativeGas + gasNeeded\<rparr>
         in include_txs keys header txs
              (Insert tx trie, receipts @ [receipt], cumulativeGas + gasNeeded, UpdateUTXOSet tx utxoSet)))"

definition NewBlock :: "keys \<Rightarrow> int \<Rightarrow> Block \<Rightarrow> utxo_map \<Rightarrow> u32 \<Rightarrow> string \<Rightarrow> Mempool \<Rightarrow> (Mempool \<times> utxo_map \<times> Block) go" where
  "NewBlock keys now previousBlock utxoSet difficulty validator mempool =
    go_bind (Hash previousBlock) (\<lambda>(previousBlock, h).
      let header = zero_header\<lparr>h_Version := 1, h_BlockNumber := h_BlockNumber (b_Header previousBlock) + 1,
            h_PreviousHash := h, h_Timestamp := now div second, h_Difficulty := difficulty,
            h_GasLimit := Block_BaseGasLimit, h_ValidatedBy := validator\<rparr>
      in go_bind (GetTransactions mempool) (\<lambda>(mempool, all).
         go_bind (GetPrioritizedTransactions now (calculateDynamicBlockSize (int (length all))) mempool) (\<lambda>(mempool, txs).
         go_bind (include_txs keys header txs (NewPatriciaTrie, [], 0, utxoSet)) (\<lambda>(trie, receipts, cumulativeGas, utxoSet).
           let (trie, merkleRoot) = GenerateRootHash trie in
           go_bind (calculateStateRoot utxoSet) (\<lambda>stateRoot.
           go_bind (calculateReceiptsRoot receipts) (\<lambda>receiptsRoot.
             Ret (mempool, utxoSet, (new_block (header\<lparr>h_GasUsed := cumulativeGas, h_MerkleRoot := merkleRoot,
                h_StateRoot := stateRoot, h_ReceiptsRoot := receiptsRoot\<rparr>))
                  \<lparr>b_Transactions := trie, b_Receipts := receipts,
                   b_CumulativeDifficulty := b_CumulativeDifficulty previousBlock + ucast difficulty\<rparr>)))))))"

section \<open>The check of a received block\<close>

definition check_tx :: "keys \<Rightarrow> Transaction \<Rightarrow> bool go" where
  "check_tx keys tx =
    (if IsCoinbase tx then Ret (tx_Sender tx = ''coinbase'' \<and> length (tx_Outputs tx) = 1)
     else if IsValidatorReward tx then Ret (tx_Sender tx = ''system'' \<and> length (tx_Outputs tx) = 1)
     else tx_VerifySignature keys tx)"

fun check_txs :: "keys \<Rightarrow> Transaction list \<Rightarrow> bool go" where
  "check_txs keys [] = Ret True"
| "check_txs keys (tx # txs) = go_bind (check_tx keys tx) (\<lambda>ok. if ok then check_txs keys txs else Ret False)"

definition ValidateBlock :: "keys \<Rightarrow> Block \<Rightarrow> Block \<Rightarrow> bool go" where
  "ValidateBlock keys block previousBlock =
    (if h_BlockNumber (b_Header block) \<noteq> h_BlockNumber (b_Header previousBlock) + 1 then Ret False
     else if h_PreviousHash (b_Header block) \<noteq> b_hash previousBlock then Ret False
     else if \<not> isHashValid (b_hash block) (h_Difficulty (b_Header block)) then Ret False
     else check_txs keys (GetAllTransactions (b_Transactions block)))"

section \<open>Mining on the chain\<close>

text \<open>
  What mining uses of the node: its network and its pool of outputs, which is the chain's own pool when the node
  is created and a pool of its own after the first block.
\<close>

datatype 'd node_pool = NilPool | ChainPool | OwnPool "'d UTXOPool"

record 'd mining_node =
  mn_net :: network
  mn_UTXOPool :: "'d node_pool"

text \<open>The pools point to one manager of accounts.\<close>

definition share_accounts :: "'d UTXOPool \<Rightarrow> 'd UTXOPool \<Rightarrow> 'd UTXOPool" where
  "share_accounts p q = (case (pl_accounts p, pl_accounts q) of (Some am, Some _) \<Rightarrow> q\<lparr>pl_accounts := Some am\<rparr> | _ \<Rightarrow> q)"

text \<open>Run an operation on a pool that is not the chain's, with the chain's database and accounts.\<close>

definition on_other :: "('d UTXOPool \<Rightarrow> ('d UTXOPool \<times> 'r) go) \<Rightarrow> 'd UTXOPool \<Rightarrow> 'd Blockchain \<Rightarrow> ('d Blockchain \<times> 'd UTXOPool) go" where
  "on_other f q bc =
    (let q = (case bc_utxoPool bc of None \<Rightarrow> q | Some p \<Rightarrow> share_accounts p q)\<lparr>pl_db := bc_db bc\<rparr>
     in go_bind (f q) (\<lambda>(q, _). Ret (bc\<lparr>bc_db := pl_db q, bc_utxoPool := map_option (share_accounts q) (bc_utxoPool bc)\<rparr>, q)))"

definition pending_transactions :: "'d Blockchain \<Rightarrow> ('d Blockchain \<times> Transaction list) go" where
  "pending_transactions bc =
    (case bc_mempool bc of
       None \<Rightarrow> Ret (bc, [])
     | Some m \<Rightarrow> go_bind (GetTransactions m) (\<lambda>(m, allTxs). Ret (bc\<lparr>bc_mempool := Some m\<rparr>, take 200 (SliceStable by_fee allTxs))))"

definition calculateDifficulty :: "Block \<Rightarrow> u32" where
  "calculateDifficulty previousBlock = h_Difficulty (b_Header previousBlock)"

text \<open>The rewards of a new block: the miner's, and that of the validator of the block before.\<close>

definition coinbase_for :: "int \<Rightarrow> string \<Rightarrow> Block \<Rightarrow> Transaction" where
  "coinbase_for now minerAddress previousBlock =
    NewCoinbaseTransaction now minerAddress (calculateMinerReward (calculateBlockReward previousBlock))
      (h_BlockNumber (b_Header previousBlock) + 1)"

definition validator_reward_for :: "int \<Rightarrow> Block \<Rightarrow> Transaction option" where
  "validator_reward_for now previousBlock =
    (let blockHeight = h_BlockNumber (b_Header previousBlock) + 1;
         lastValidatorAddress = h_ValidatedBy (b_Header previousBlock)
     in if lastValidatorAddress \<noteq> [] \<and> blockHeight > 1
        then Some (NewValidatorRewardTransaction now lastValidatorAddress
               (calculateValidatorReward (calculateBlockReward previousBlock)) blockHeight)
        else None)"

definition option_list :: "'a option \<Rightarrow> 'a list" where
  "option_list x = (case x of None \<Rightarrow> [] | Some y \<Rightarrow> [y])"

definition mined_txs :: "int \<Rightarrow> string \<Rightarrow> Block \<Rightarrow> Transaction list \<Rightarrow> Transaction list" where
  "mined_txs now minerAddress previousBlock pendingTxs =
    coinbase_for now minerAddress previousBlock # option_list (validator_reward_for now previousBlock) @ pendingTxs"

definition block_template :: "int \<Rightarrow> string \<Rightarrow> Block \<Rightarrow> Transaction list \<Rightarrow> Block" where
  "block_template now minerAddress previousBlock txs =
    (let (txTrie, merkleRoot) = GenerateRootHash (InsertBatch txs NewPatriciaTrie);
         difficulty = calculateDifficulty previousBlock
     in (new_block (zero_header\<lparr>h_Version := 1, h_BlockNumber := h_BlockNumber (b_Header previousBlock) + 1,
           h_PreviousHash := b_hash previousBlock, h_Timestamp := now, h_Difficulty := difficulty,
           h_GasLimit := Block_BaseGasLimit, h_MinedBy := minerAddress, h_MerkleRoot := merkleRoot\<rparr>))
          \<lparr>b_Transactions := txTrie,
           b_CumulativeDifficulty := b_CumulativeDifficulty previousBlock + ucast difficulty\<rparr>)"

definition set_roots :: "string \<Rightarrow> string \<Rightarrow> Block \<Rightarrow> Block" where
  "set_roots stateRoot receiptsRoot block =
    block\<lparr>b_Header := (b_Header block)\<lparr>h_StateRoot := stateRoot, h_ReceiptsRoot := receiptsRoot\<rparr>\<rparr>"

text \<open>
  Execute the transactions on a copy of the pool and enter the root of the result. The copy writes its outputs to
  the database and the accounts, whatever becomes of the block.
\<close>

definition execute_block :: "'d goleveldb \<Rightarrow> int \<Rightarrow> Transaction list \<Rightarrow> Block \<Rightarrow> 'd Blockchain \<Rightarrow>
    ('d Blockchain \<times> 'd UTXOPool option \<times> Block) go" where
  "execute_block L now txs block bc =
    (case bc_utxoPool bc of
       None \<Rightarrow> Ret (bc, None, set_roots [] zero_hash block)
     | Some pool \<Rightarrow>
         go_bind (Clone pool) (\<lambda>(pool, temp).
         go_bind (on_other (add_all L now (map (\<lambda>tx. (tx, h_BlockNumber (b_Header block))) txs)) temp (bc\<lparr>bc_utxoPool := Some pool\<rparr>)) (\<lambda>(bc, temp).
         go_bind (GetRootHash temp) (\<lambda>(temp, root). Ret (bc, Some temp, set_roots root root block)))))"

text \<open>Give the node's pool the rewards of the block, and replace it by a copy of the chain's pool when the roots differ.\<close>

definition same_root_or_clone :: "'d UTXOPool \<Rightarrow> 'd UTXOPool \<Rightarrow> ('d UTXOPool \<times> 'd UTXOPool) go" where
  "same_root_or_clone pool q =
    go_bind (GetMerkleRoot pool) (\<lambda>(pool, root). go_bind (GetMerkleRoot q) (\<lambda>(q, nodeRoot).
      if root \<noteq> nodeRoot then go_bind (Clone pool) (\<lambda>(pool, clone). Ret (pool, clone)) else Ret (pool, q)))"

definition sync_node_pool :: "'d goleveldb \<Rightarrow> int \<Rightarrow> (Transaction \<times> u64) list \<Rightarrow> 'd mining_node \<Rightarrow> 'd Blockchain \<Rightarrow>
    ('d Blockchain \<times> 'd mining_node) go" where
  "sync_node_pool L now txs node bc =
    (case (mn_UTXOPool node, bc_utxoPool bc) of
       (OwnPool q, Some _) \<Rightarrow>
         go_bind (on_other (add_all L now txs) q bc) (\<lambda>(bc, q).
           case bc_utxoPool bc of
             None \<Rightarrow> Panic
           | Some pool \<Rightarrow>
               go_bind (same_root_or_clone pool q) (\<lambda>(pool, q).
                 Ret (bc\<lparr>bc_utxoPool := Some pool\<rparr>, node\<lparr>mn_UTXOPool := OwnPool q\<rparr>)))
     | (ChainPool, Some pool) \<Rightarrow>
         go_bind (on_pool (add_all L now txs) pool bc) (\<lambda>(bc, _). Ret (bc, node))
     | _ \<Rightarrow> Ret (bc, node))"

definition chain_snapshot :: "'d goleveldb \<Rightarrow> int \<Rightarrow> Block \<Rightarrow> 'd Blockchain \<Rightarrow> ('d Blockchain \<times> unit) go" where
  "chain_snapshot L now block bc =
    (if h_BlockNumber (b_Header block) mod 10 \<noteq> 0 then Ret (bc, ())
     else case bc_utxoPool bc of
       None \<Rightarrow> Ret (bc, ())
     | Some pool \<Rightarrow> go_bind (Hash block) (\<lambda>(_, h).
         on_pool (\<lambda>p. Ret (fst (CreateSnapshot L now (h_BlockNumber (b_Header block)) h p), ())) pool bc))"

definition updateUTXOSet :: "'d goleveldb \<Rightarrow> int \<Rightarrow> Block \<Rightarrow> 'd mining_node \<Rightarrow> 'd Blockchain \<Rightarrow> ('d Blockchain \<times> 'd mining_node) go" where
  "updateUTXOSet L now block node bc =
    (let pool = (case bc_utxoPool bc of None \<Rightarrow> NewUTXOPool (bc_db bc) | Some pool \<Rightarrow> pool);
         txs = map (\<lambda>tx. (tx, h_BlockNumber (b_Header block))) (GetAllTransactions (b_Transactions block))
     in go_bind (on_pool (add_all L now txs) pool bc) (\<lambda>(bc, _).
        go_bind (sync_node_pool L now txs node bc) (\<lambda>(bc, node).
        go_bind (chain_snapshot L now block bc) (\<lambda>(bc, _). Ret (bc, node)))))"

text \<open>The copy becomes the chain's pool, and the node keeps the old one, to which the rewards are added.\<close>

definition commit_pool :: "'d goleveldb \<Rightarrow> int \<Rightarrow> (Transaction \<times> u64) list \<Rightarrow> 'd UTXOPool option \<Rightarrow> 'd mining_node \<Rightarrow> 'd Blockchain \<Rightarrow>
    ('d Blockchain \<times> 'd mining_node) go" where
  "commit_pool L now rewards temp node bc =
    (case (temp, bc_utxoPool bc) of
       (Some temp, Some old) \<Rightarrow>
         let node = (case mn_UTXOPool node of ChainPool \<Rightarrow> node\<lparr>mn_UTXOPool := OwnPool old\<rparr> | _ \<Rightarrow> node)
         in sync_node_pool L now rewards node (bc\<lparr>bc_utxoPool := Some temp\<rparr>)
     | _ \<Rightarrow> Ret (bc, node))"

definition append_mined :: "Block \<Rightarrow> 'd Blockchain \<Rightarrow> ('d Blockchain \<times> Block) go" where
  "append_mined block = with_lock bc_mu set_bc_mu (\<lambda>bc.
    go_bind (Hash block) (\<lambda>(hashed, h). Ret (bc\<lparr>Chain := Chain bc @ [block], bc_currentHash := h\<rparr>, hashed)))"

fun remove_txs :: "Transaction list \<Rightarrow> Mempool \<Rightarrow> Mempool go" where
  "remove_txs [] m = Ret m"
| "remove_txs (tx # txs) m = go_bind (RemoveTransaction (tx_TransactionID tx) m) (\<lambda>(m, _). remove_txs txs m)"

definition remove_mined :: "Transaction list \<Rightarrow> 'd Blockchain \<Rightarrow> 'd Blockchain go" where
  "remove_mined pendingTxs bc =
    (case bc_mempool bc of
       None \<Rightarrow> Ret bc
     | Some m \<Rightarrow> go_bind (remove_txs pendingTxs m) (\<lambda>m. Ret (bc\<lparr>bc_mempool := Some m\<rparr>)))"

text \<open>The account of the miner is looked up for a log message; the look-up creates it when it is missing.\<close>

definition finish_pool :: "'d goleveldb \<Rightarrow> int \<Rightarrow> string \<Rightarrow> Block \<Rightarrow> 'd mining_node \<Rightarrow> 'd Blockchain \<Rightarrow> ('d Blockchain \<times> 'd mining_node) go" where
  "finish_pool L now minerAddress block node bc =
    (if bc_utxoPool bc = None then Ret (bc, node)
     else go_bind (updateUTXOSet L now block node bc) (\<lambda>(bc, node).
       case bc_utxoPool bc of
         None \<Rightarrow> Panic
       | Some pool \<Rightarrow>
           go_bind (on_pool (\<lambda>p. case pl_accounts p of
               None \<Rightarrow> Ret (p, ())
             | Some am \<Rightarrow> go_bind (pool_account L am minerAddress p) (\<lambda>(p, _). Ret (p, ()))) pool bc)
             (\<lambda>(bc, _). Ret (bc, node))))"

text \<open>
  The whole operation. A chain without a latest block panics on the missing header; so does the report on the
  validator's reward when the chain has no pool. The final broadcast changes nothing of the chain.
\<close>

definition chain_MineBlock :: "'d goleveldb \<Rightarrow> int \<Rightarrow> string \<Rightarrow> 'd mining_node \<Rightarrow> 'd Blockchain \<Rightarrow>
    ('d Blockchain \<times> 'd mining_node \<times> (mining_error + Block)) go" where
  "chain_MineBlock L now minerAddress node bc =
    go_bind (GetLatestBlock L bc) (\<lambda>(bc, latest).
      case latest of
        None \<Rightarrow> Panic
      | Some previousBlock \<Rightarrow>
          go_bind (pending_transactions bc) (\<lambda>(bc, pendingTxs).
          let unix = now div second;
              txs = mined_txs unix minerAddress previousBlock pendingTxs;
              newBlock = block_template unix minerAddress previousBlock txs
          in go_bind (execute_block L unix txs newBlock bc) (\<lambda>(bc, temp, newBlock).
             go_bind (MineBlock now (mn_net node) newBlock (calculateDifficulty previousBlock) (bc_StakePool bc)) (\<lambda>(stakePool, newBlock, r).
             let bc = bc\<lparr>bc_StakePool := stakePool\<rparr> in
             case r of
               Inl e \<Rightarrow> Ret (bc, node, Inl e)
             | Inr _ \<Rightarrow>
                 go_bind (Hash newBlock) (\<lambda>(newBlock, _).
                 go_bind (commit_pool L unix (map (\<lambda>tx. (tx, h_BlockNumber (b_Header newBlock)))
                     (option_list (validator_reward_for unix previousBlock) @ [coinbase_for unix minerAddress previousBlock])) temp node bc) (\<lambda>(bc, node).
                 go_bind (append_mined newBlock bc) (\<lambda>(bc, newBlock).
                 go_bind (saveBlock L newBlock bc) (\<lambda>(bc, _).
                 go_bind (remove_mined pendingTxs bc) (\<lambda>bc.
                 go_bind (finish_pool L unix minerAddress newBlock node bc) (\<lambda>(bc, node).
                   if validator_reward_for unix previousBlock \<noteq> None \<and> bc_utxoPool bc = None then Panic
                   else Ret (bc, node, Inr newBlock)))))))))))"

section \<open>The checks of a validator\<close>

datatype validation_error = WrongHash | FutureTimestamp | WrongCoinbaseSender | CoinbaseOutputs | CoinbaseAmount
  | WrongSystemSender | RewardOutputs | RewardAmount | WrongSignature | InsufficientBalance | WrongNonce | InvalidStateRoot

definition validateTransaction :: "keys \<Rightarrow> Transaction \<Rightarrow> 'd Blockchain \<Rightarrow> ('d Blockchain \<times> (validation_error + unit)) go" where
  "validateTransaction keys tx bc =
    (if IsCoinbase tx then Ret (bc,
       if tx_Sender tx \<noteq> ''coinbase'' then Inl WrongCoinbaseSender
       else if length (tx_Outputs tx) \<noteq> 1 then Inl CoinbaseOutputs
       else if fle (out_Amount (hd (tx_Outputs tx))) (Fin 0) then Inl CoinbaseAmount
       else Inr ())
     else if IsValidatorReward tx then Ret (bc,
       if tx_Sender tx \<noteq> ''system'' then Inl WrongSystemSender
       else if length (tx_Outputs tx) \<noteq> 1 then Inl RewardOutputs
       else if fle (out_Amount (hd (tx_Outputs tx))) (Fin 0) then Inl RewardAmount
       else Inr ())
     else
       go_bind (tx_VerifySignature keys tx) (\<lambda>ok.
         if \<not> ok then Ret (bc, Inl WrongSignature)
         else go_bind (VerifyBalance (tx_Sender tx) (fadd (tx_Amount tx) (tx_GasFee tx)) bc) (\<lambda>(bc, enough).
           if \<not> enough then Ret (bc, Inl InsufficientBalance)
           else go_bind (GetNonce (tx_Sender tx) bc) (\<lambda>(bc, expectedNonce).
             if tx_Nonce tx \<noteq> expectedNonce then Ret (bc, Inl WrongNonce) else Ret (bc, Inr ())))))"

text \<open>The transactions are executed on a copy of the pool, which shares the database and the accounts.\<close>

definition validateStateTransitions :: "'d goleveldb \<Rightarrow> int \<Rightarrow> Block \<Rightarrow> 'd Blockchain \<Rightarrow> ('d Blockchain \<times> (validation_error + unit)) go" where
  "validateStateTransitions L now block bc =
    (case bc_utxoPool bc of
       None \<Rightarrow> Panic
     | Some pool \<Rightarrow>
         go_bind (Clone pool) (\<lambda>(pool, temp).
         go_bind (on_other (add_all L now (map (\<lambda>tx. (tx, h_BlockNumber (b_Header block))) (GetAllTransactions (b_Transactions block)))) temp
             (bc\<lparr>bc_utxoPool := Some pool\<rparr>)) (\<lambda>(bc, temp).
         go_bind (GetMerkleRoot temp) (\<lambda>(temp, stateRoot).
           Ret (bc, if stateRoot \<noteq> h_StateRoot (b_Header block) then Inl InvalidStateRoot else Inr ())))))"

fun validate_txs :: "keys \<Rightarrow> Transaction list \<Rightarrow> 'd Blockchain \<Rightarrow> ('d Blockchain \<times> (validation_error + unit)) go" where
  "validate_txs keys [] bc = Ret (bc, Inr ())"
| "validate_txs keys (tx # txs) bc =
    go_bind (validateTransaction keys tx bc) (\<lambda>(bc, r).
      case r of Inl e \<Rightarrow> Ret (bc, Inl e) | Inr _ \<Rightarrow> validate_txs keys txs bc)"

definition validateBlock :: "'d goleveldb \<Rightarrow> keys \<Rightarrow> int \<Rightarrow> Block \<Rightarrow> 'd Blockchain \<Rightarrow> ('d Blockchain \<times> (validation_error + unit)) go" where
  "validateBlock L keys now block bc =
    go_bind (Hash block) (\<lambda>(block, h).
      if CalculateHash block \<noteq> h then Ret (bc, Inl WrongHash)
      else if h_Timestamp (b_Header block) > now then Ret (bc, Inl FutureTimestamp)
      else go_bind (validate_txs keys (GetAllTransactions (b_Transactions block)) bc) (\<lambda>(bc, r).
        case r of Inl e \<Rightarrow> Ret (bc, Inl e) | Inr _ \<Rightarrow> validateStateTransitions L now block bc))"

definition validator_calculateStateRoot :: "Transaction list \<Rightarrow> string" where
  "validator_calculateStateRoot txs =
    hash_hex (concat (map (\<lambda>tx. tx_Sender tx @ tx_Receiver tx @ show_f64 6 (tx_Amount tx) @ show_u64 (tx_Nonce tx)) txs))"

section \<open>When the search for a nonce ends\<close>

definition with_nonce :: "u64 \<Rightarrow> Block \<Rightarrow> Block" where
  "with_nonce n b = b\<lparr>b_Header := (b_Header b)\<lparr>h_Nonce := n\<rparr>\<rparr>"

definition hits :: "u32 \<Rightarrow> Block \<Rightarrow> nat \<Rightarrow> bool" where
  "hits d b k = isHashValid (CalculateHash (with_nonce (h_Nonce (b_Header b) + word_of_nat k) b)) d"

lemma with_nonce_0: "with_nonce (h_Nonce (b_Header b) + word_of_nat 0) b = b"
  by (simp add: with_nonce_def)

lemma with_nonce_Suc:
  "with_nonce (h_Nonce (b_Header (next_nonce b)) + word_of_nat k) (next_nonce b) = with_nonce (h_Nonce (b_Header b) + word_of_nat (Suc k)) b"
  by (simp add: with_nonce_def next_nonce_def ac_simps)

lemma hits_next: "hits d (next_nonce b) k = hits d b (Suc k)"
  by (simp only: hits_def with_nonce_Suc)

lemma hits_0: "hits d b 0 = isHashValid (CalculateHash b) d"
  by (simp only: hits_def with_nonce_0)

lemma mine_loop_hit:
  "hits d b k \<Longrightarrow> (\<And>j. j < k \<Longrightarrow> \<not> hits d b j) \<Longrightarrow>
    mine_loop d b = (let m = with_nonce (h_Nonce (b_Header b) + word_of_nat k) b in Some (m\<lparr>b_hash := CalculateHash m\<rparr>))"
proof (induction k arbitrary: b)
  case 0
  then show ?case by (subst mine_loop.simps) (simp only: hits_0 with_nonce_0 Let_def if_True)
next
  case (Suc k)
  have "\<not> hits d b 0" using Suc.prems(2) by blast
  then have "mine_loop d b = mine_loop d (next_nonce b)" by (subst mine_loop.simps) (simp only: hits_0 Let_def if_False)
  also have "\<dots> = (let m = with_nonce (h_Nonce (b_Header b) + word_of_nat (Suc k)) b in Some (m\<lparr>b_hash := CalculateHash m\<rparr>))"
    by (rule Suc.IH [of "next_nonce b", unfolded hits_next with_nonce_Suc]) (use Suc.prems in auto)
  finally show ?case .
qed

lemma mine_loop_sound:
  assumes "mine_loop d b = Some m"
  shows "\<exists>k. hits d b k"
proof (rule mine_loop.raw_induct [where P = "\<lambda>d b m. \<exists>k. hits d b k", OF _ assms])
  fix f d b m
  assume IH: "\<And>d b m. f d b = Some m \<Longrightarrow> \<exists>k. hits d b k"
    and body: "(let hash = CalculateHash b in if isHashValid hash d then Some (b\<lparr>b_hash := hash\<rparr>) else f d (next_nonce b)) = Some m"
  show "\<exists>k. hits d b k"
  proof (cases "isHashValid (CalculateHash b) d")
    case True
    then show ?thesis unfolding hits_0 [symmetric] ..
  next
    case False
    then have "f d (next_nonce b) = Some m" using body unfolding Let_def by (simp only: if_False)
    then have "\<exists>k. hits d (next_nonce b) k" by (rule IH)
    then show ?thesis unfolding hits_next by blast
  qed
qed

lemma hits_iff: "(\<exists>n. isHashValid (CalculateHash (with_nonce n b)) d) \<longleftrightarrow> (\<exists>k. hits d b k)"
proof
  assume "\<exists>n. isHashValid (CalculateHash (with_nonce n b)) d"
  then obtain n where n: "isHashValid (CalculateHash (with_nonce n b)) d" by blast
  have "h_Nonce (b_Header b) + word_of_nat (unat (n - h_Nonce (b_Header b))) = n" by simp
  then have "hits d b (unat (n - h_Nonce (b_Header b)))" using n unfolding hits_def by simp
  then show "\<exists>k. hits d b k" ..
qed (auto simp: hits_def)

text \<open>
  C7. The search for a nonce ends exactly when one of the \<open>2 ^ 64\<close> nonces gives a hash of the difficulty asked for,
  and then it stops at the first such nonce, counted upwards from the one in the header and around the end of
  the range; only the nonce and the hash of the block change.
\<close>

theorem mine_loop_first_nonce:
  "mine_loop d b =
    (if \<exists>n. isHashValid (CalculateHash (with_nonce n b)) d
     then let m = with_nonce (h_Nonce (b_Header b) + word_of_nat (LEAST k. hits d b k)) b in Some (m\<lparr>b_hash := CalculateHash m\<rparr>)
     else None)"
proof (cases "\<exists>k. hits d b k")
  case True
  then have "hits d b (LEAST k. hits d b k)" by (rule LeastI_ex)
  then show ?thesis unfolding hits_iff if_P [OF True]
    by (rule mine_loop_hit) (rule not_less_Least [where P = "hits d b"], simp only:)
next
  case False
  then have "mine_loop d b = None" using mine_loop_sound [of d b] by (cases "mine_loop d b") blast+
  then show ?thesis unfolding hits_iff if_not_P [OF False] .
qed

text \<open>A hash has 64 digits, so no difficulty above 64 can be reached.\<close>

lemma mine_loop_impossible: "64 < unat d \<Longrightarrow> mine_loop d b = None"
proof -
  assume d: "64 < unat d"
  have "\<not> hits d b k" for k
  proof
    assume "hits d b k"
    then have "length (replicate (unat d) (CHR ''0'')) = length (take (unat d) (CalculateHash (with_nonce (h_Nonce (b_Header b) + word_of_nat k) b)))"
      by (simp add: hits_def isHashValid_def)
    then show False using d by (simp add: CalculateHash_def)
  qed
  then show ?thesis using mine_loop_sound [of d b] by (cases "mine_loop d b") blast+
qed


section \<open>What the validators certify\<close>

text \<open>A validator that can be reached and that answers some document with its approval.\<close>

definition approves :: "network \<Rightarrow> ValidatorNode \<Rightarrow> bool" where
  "approves net v \<longleftrightarrow> vn_hostID v \<noteq> [] \<and> net_decode net (vn_hostID v) \<and>
    (\<exists>doc response. net_reply net (vn_hostID v) doc = Some response \<and> response_value response ''valid'' = Some (JBool True))"

definition stamped :: "string \<Rightarrow> bytes \<Rightarrow> Block \<Rightarrow> Block" where
  "stamped x y b = b\<lparr>b_Header := (b_Header b)\<lparr>h_ValidatedBy := x, h_ValidatorSig := y\<rparr>\<rparr>"

lemma stamped_simps [simp]:
  "CalculateHash (stamped x y b) = CalculateHash b" "b_hash (stamped x y b) = b_hash b"
  "b_Transactions (stamped x y b) = b_Transactions b" "b_mu (stamped x y b) = b_mu b"
  "b_originalHash (stamped x y b) = b_originalHash b" "stamped x y (stamped x' y' b) = stamped x y b"
  "h_ValidatedBy (b_Header (stamped x y b)) = x" "h_StateRoot (b_Header (stamped x y b)) = h_StateRoot (b_Header b)"
  "h_BlockNumber (b_Header (stamped x y b)) = h_BlockNumber (b_Header b)"
  "h_PreviousHash (b_Header (stamped x y b)) = h_PreviousHash (b_Header b)"
  "h_Difficulty (b_Header (stamped x y b)) = h_Difficulty (b_Header b)"
  "h_Timestamp (b_Header (stamped x y b)) = h_Timestamp (b_Header b)"
  "h_ValidatorProof (b_Header (stamped x y b)) = h_ValidatorProof (b_Header b)"
  "stamped (h_ValidatedBy (b_Header b)) (h_ValidatorSig (b_Header b)) b = b"
  by (simp_all add: stamped_def CalculateHash_def hash_input_def)

lemma accept_validation_stamped: "\<exists>y. accept_validation v response b = stamped (vn_Address v) y b"
proof (cases "response_signature response")
  case None
  then have "accept_validation v response b = stamped (vn_Address v) (h_ValidatorSig (b_Header b)) b"
    by (simp add: accept_validation_def stamped_def)
  then show ?thesis ..
qed (auto simp: accept_validation_def stamped_def)

lemma requestValidation_cases:
  assumes "requestValidation net b v = Ret (b', r)"
  shows "r \<noteq> Inr True \<and> b' = b \<or> r = Inr True \<and> approves net v \<and> (\<exists>y. b' = stamped (vn_Address v) y b)"
proof (cases "vn_hostID v")
  case Nil
  then show ?thesis using assms by (auto simp: requestValidation_def HostID_def split: if_splits)
next
  case (Cons c cs)
  then show ?thesis using assms accept_validation_stamped
    by (auto simp: requestValidation_def HostID_def approves_def split: if_splits option.splits json.splits)
qed

lemma request_all_cases:
  "request_all net vs b n = Ret (b', n') \<Longrightarrow>
    n' \<le> n + length (filter (approves net) vs) \<and>
    (n' = n \<and> b' = b \<or> (\<exists>x y. b' = stamped x y b \<and> x \<in> vn_Address ` set (filter (approves net) vs)))"
proof (induction vs arbitrary: b n)
  case (Cons v vs)
  obtain b1 r where 1: "requestValidation net b v = Ret (b1, r)"
    "request_all net vs b1 (if r = Inr True then n + 1 else n) = Ret (b', n')"
    using Cons.prems by (auto simp: go_simps)
  note IH = Cons.IH [OF 1(2)]
  from requestValidation_cases [OF 1(1)] show ?case
  proof (elim disjE conjE exE)
    assume "r \<noteq> Inr True" "b1 = b"
    then show ?thesis using IH by auto
  next
    fix y assume "r = Inr True" "approves net v" "b1 = stamped (vn_Address v) y b"
    then show ?thesis using IH by auto
  qed
qed simp

lemma mine_loop_Some:
  assumes "mine_loop d b = Some m"
  shows "b_hash m = CalculateHash m \<and> isHashValid (b_hash m) d \<and> (\<exists>n. m = (with_nonce n b)\<lparr>b_hash := b_hash m\<rparr>)"
proof -
  obtain k where "hits d b k" using mine_loop_sound [OF assms] by blast
  then have least: "hits d b (LEAST k. hits d b k)" by (rule LeastI)
  let ?m = "with_nonce (h_Nonce (b_Header b) + word_of_nat (LEAST k. hits d b k)) b"
  have "mine_loop d b = Some (?m\<lparr>b_hash := CalculateHash ?m\<rparr>)"
    using mine_loop_hit [OF least] not_less_Least [where P = "hits d b"] unfolding Let_def by blast
  then have m: "m = ?m\<lparr>b_hash := CalculateHash ?m\<rparr>" using assms by (simp only: option.inject)
  have "CalculateHash m = CalculateHash ?m" unfolding m by (simp add: CalculateHash_def)
  moreover have "b_hash m = CalculateHash ?m" unfolding m by simp
  moreover have "m = ?m\<lparr>b_hash := b_hash m\<rparr>" unfolding m by simp
  ultimately show ?thesis using least unfolding hits_def by metis
qed



text \<open>A network that approves everything, a stake pool with one validator, and a search without difficulty.\<close>

definition yes_net :: network where
  "yes_net = \<lparr>net_decode = \<lambda>_. True, net_host = True, net_reply = \<lambda>_ _. Some (JObj [(''valid'', JBool True)])\<rparr>"

definition one_staker :: StakePool where
  "one_staker = NewStakePool\<lparr>Stakes := [(''w'', zero_stake\<lparr>si_Amount := 5\<rparr>)], WalletToHost := [(''w'', ''h'')]\<rparr>"

lemma MarshalJSON_total:
  assumes "\<And>tx. tx \<in> set (GetAllTransactions (b_Transactions b)) \<Longrightarrow> enc_tx tx \<noteq> None" "b_Receipts b = []"
  shows "\<exists>doc. MarshalJSON b = Some doc"
proof -
  obtain ts where "enc_list enc_tx (GetAllTransactions (b_Transactions b)) = Some ts" 
    using enc_list_total [of "GetAllTransactions (b_Transactions b)" enc_tx] assms(1) by auto
  then show ?thesis
    using assms(2) by (simp add: MarshalJSON_def enc_header_def enc_list_def [of enc_receipt] enc_ptr_def enc_proof_def split: option.split)
qed

lemma approved_run:
  assumes "\<And>tx. tx \<in> set (GetAllTransactions (b_Transactions b)) \<Longrightarrow> enc_tx tx \<noteq> None" "b_Receipts b = []"
  shows "\<exists>b'. MineBlock (100 * hour) yes_net b 0 one_staker = Ret (one_staker, (b', Inr ()))"
proof -
  let ?v = "\<lparr>vn_Address = ''w'', vn_Stake = of_u64 5, vn_hostID = ''h''\<rparr>"
  let ?b = "set_difficulty 0 b"
  let ?m = "?b\<lparr>b_hash := CalculateHash ?b\<rparr>"
  have hit: "isHashValid h 0" for h by (simp add: isHashValid_def)
  have loop: "mine_loop 0 ?b = Some ?m"
    by (subst mine_loop.simps) (simp only: Let_def hit if_True)
  have gv: "GetValidators (100 * hour) 3 one_staker = Ret (one_staker, Inr [?v])"
  proof -
    have age: "0 \<le> elapsed (360000 * second) zero_time" by code_simp
    show ?thesis
      unfolding GetValidators_def
      by (rule stake_mu.lock_readonly)
        (simp_all add: one_staker_def NewStakePool_def zero_stake_def MinStakeAge_def age gomap_get_or_def SliceStable_def)
  qed
  obtain doc where doc: "MarshalJSON ?m = Some doc"
    using MarshalJSON_total [of ?m] assms by (auto simp: set_difficulty_def)
  have "requestValidation yes_net ?m ?v = Ret (accept_validation ?v (JObj [(''valid'', JBool True)]) ?m, Inr True)"
    unfolding requestValidation_def doc by (simp add: HostID_def is_map_def response_value_def yes_net_def)
  then show ?thesis unfolding MineBlock_def loop option.case gv by simp
qed


section \<open>Mining a block on the chain\<close>

lemma MineBlock_shape:
  assumes "MineBlock now net b d sp = Ret (sp', (b', r))"
  shows "\<exists>m x y. mine_loop d (set_difficulty d b) = Some m \<and> b' = stamped x y m"
proof -
  obtain m where m: "mine_loop d (set_difficulty d b) = Some m"
    using assms by (auto simp: MineBlock_def split: option.splits)
  obtain sp1 q where q: "GetValidators now 3 sp = Ret (sp1, q)" using assms by (auto simp: MineBlock_def m go_simps)
  show ?thesis
  proof (cases q)
    case (Inl e)
    then have "b' = stamped (h_ValidatedBy (b_Header m)) (h_ValidatorSig (b_Header m)) m"
      using assms by (simp add: MineBlock_def m q)
    then show ?thesis using m by blast
  next
    case (Inr vs)
    obtain b1 n where n: "request_all net vs m 0 = Ret (b1, n)" using assms by (auto simp: MineBlock_def m q Inr go_simps)
    have "b' = b1" using assms by (simp add: MineBlock_def m q Inr n split: if_splits)
    moreover have "b1 = m \<or> (\<exists>x y. b1 = stamped x y m)" using request_all_cases [OF n] by blast
    ultimately show ?thesis using m stamped_simps(14) [of m] by metis
  qed
qed

text \<open>A pool, a chain and a node on which nothing waits.\<close>

definition fine :: "'d UTXOPool \<Rightarrow> bool" where
  "fine p \<longleftrightarrow> pl_mu p = Unlocked \<and> (\<forall>am. pl_accounts p = Some am \<longrightarrow> am_mu am = Unlocked)"

definition outputs :: "'d Blockchain \<Rightarrow> utxo_map" where
  "outputs bc = (case bc_utxoPool bc of None \<Rightarrow> [] | Some p \<Rightarrow> pl_utxos p)"

definition chain_fine :: "'d Blockchain \<Rightarrow> bool" where
  "chain_fine bc \<longleftrightarrow> bc_mu bc = Unlocked \<and> bc_db bc \<noteq> None \<and> (\<exists>p. bc_utxoPool bc = Some p \<and> fine p)"

definition node_fine :: "'d mining_node \<Rightarrow> bool" where
  "node_fine node \<longleftrightarrow> (\<forall>q. mn_UTXOPool node = OwnPool q \<longrightarrow> fine q)"

text \<open>What the pool operations leave alone.\<close>

definition rest :: "'d Blockchain \<Rightarrow> 'd Blockchain" where
  "rest bc = bc\<lparr>bc_db := None, bc_utxoPool := None\<rparr>"

lemma rest_simps [simp]:
  "Chain (rest bc) = Chain bc" "bc_mempool (rest bc) = bc_mempool bc" "bc_StakePool (rest bc) = bc_StakePool bc" "bc_mu (rest bc) = bc_mu bc"
  by (simp_all add: rest_def)

lemma rest_fields:
  assumes "rest bc = rest bc'"
  shows "Chain bc' = Chain bc" "bc_mempool bc' = bc_mempool bc" "bc_StakePool bc' = bc_StakePool bc" "bc_mu bc' = bc_mu bc"
  using assms rest_simps by metis+

lemma share_accounts_simps [simp]:
  "pl_utxos (share_accounts p q) = pl_utxos q" "fine p \<Longrightarrow> fine q \<Longrightarrow> fine (share_accounts p q)"
  by (cases "pl_accounts p"; cases "pl_accounts q"; simp add: share_accounts_def fine_def)+

lemma fine_db [simp]: "fine (p\<lparr>pl_db := d\<rparr>) = fine p"
  by (simp add: fine_def)

lemma add_all_fine:
  "fine p \<Longrightarrow> pl_db p \<noteq> None \<Longrightarrow>
    \<exists>q. add_all L now (map (\<lambda>tx. (tx, h)) txs) p = Ret (q, ()) \<and> fine q \<and> pl_db q \<noteq> None \<and> pl_utxos q = fold (apply_tx h) txs (pl_utxos p)"
proof (induction txs arbitrary: p)
  case (Cons tx txs)
  obtain q where q: "AddUTXO L now tx h p = Ret (q, ())" "pool_ready q"
    using AddUTXO_returns [of p L now tx h] Cons.prems by (auto simp: fine_def pool_ready_def)
  then have "fine q" "pl_db q \<noteq> None" "pl_utxos q = apply_tx h tx (pl_utxos p)"
    using AddUTXO_effect [OF q(1)] by (simp_all add: fine_def pool_ready_def)
  then show ?case using Cons.IH [of q] q(1) by simp
qed simp

lemma on_other_add:
  assumes "chain_fine bc" "fine q"
  shows "\<exists>bc' q'. on_other (add_all L now (map (\<lambda>tx. (tx, h)) txs)) q bc = Ret (bc', q') \<and> chain_fine bc' \<and> fine q' \<and>
    rest bc = rest bc' \<and> outputs bc' = outputs bc \<and> pl_utxos q' = fold (apply_tx h) txs (pl_utxos q)"
proof -
  obtain p where p: "bc_utxoPool bc = Some p" "fine p" using assms(1) by (auto simp: chain_fine_def)
  let ?q = "(share_accounts p q)\<lparr>pl_db := bc_db bc\<rparr>"
  obtain q' where q': "add_all L now (map (\<lambda>tx. (tx, h)) txs) ?q = Ret (q', ())" "fine q'" "pl_db q' \<noteq> None"
    "pl_utxos q' = fold (apply_tx h) txs (pl_utxos q)"
    using add_all_fine [of ?q L now h txs] assms p by (auto simp: chain_fine_def)
  then show ?thesis
    using assms p by (simp add: on_other_def chain_fine_def rest_def outputs_def)
qed

lemma on_pool_add:
  assumes "chain_fine bc" "bc_utxoPool bc = Some p"
  shows "\<exists>bc'. on_pool (add_all L now (map (\<lambda>tx. (tx, h)) txs)) p bc = Ret (bc', ()) \<and> chain_fine bc' \<and>
    rest bc = rest bc' \<and> outputs bc' = fold (apply_tx h) txs (outputs bc)"
proof -
  obtain q where "add_all L now (map (\<lambda>tx. (tx, h)) txs) (p\<lparr>pl_db := bc_db bc\<rparr>) = Ret (q, ())" "fine q" "pl_db q \<noteq> None"
    "pl_utxos q = fold (apply_tx h) txs (pl_utxos p)"
    using add_all_fine [of "p\<lparr>pl_db := bc_db bc\<rparr>" L now h txs] assms by (auto simp: chain_fine_def)
  then show ?thesis using assms by (simp add: on_pool_def chain_fine_def rest_def outputs_def)
qed

lemma Clone_fine: "fine p \<Longrightarrow> Clone p = Ret (p, p)"
  using pool_mu.set_mu_same [of p] by (simp add: Clone_def fine_def pool_mu.rlock_readonly)

lemma same_root_or_clone_fine:
  assumes "fine p" "fine q"
  shows "\<exists>q'. same_root_or_clone p q = Ret (p, q') \<and> fine q'"
  using assms by (auto simp: same_root_or_clone_def GetMerkleRoot_def fine_def pool_mu.lock_readonly Clone_fine [unfolded fine_def])


lemma sync_node_pool_fine:
  assumes "chain_fine bc" "node_fine node" "mn_UTXOPool node \<noteq> ChainPool"
  shows "\<exists>bc' node'. sync_node_pool L now (map (\<lambda>tx. (tx, h)) txs) node bc = Ret (bc', node') \<and> chain_fine bc' \<and> node_fine node' \<and>
    mn_UTXOPool node' \<noteq> ChainPool \<and> rest bc = rest bc' \<and> outputs bc' = outputs bc"
proof (cases "mn_UTXOPool node")
  case (OwnPool q)
  obtain p0 where p0: "bc_utxoPool bc = Some p0" using assms(1) by (auto simp: chain_fine_def)
  obtain bc1 q1 where 1: "on_other (add_all L now (map (\<lambda>tx. (tx, h)) txs)) q bc = Ret (bc1, q1)" "chain_fine bc1" "fine q1"
    "rest bc = rest bc1" "outputs bc1 = outputs bc"
    using on_other_add [OF assms(1), of q L now h txs] assms(2) OwnPool by (auto simp: node_fine_def)
  obtain p where p: "bc_utxoPool bc1 = Some p" "fine p" using 1(2) by (auto simp: chain_fine_def)
  obtain q' where q': "same_root_or_clone p q1 = Ret (p, q')" "fine q'" using same_root_or_clone_fine [OF p(2) 1(3)] by blast
  have "chain_fine (bc1\<lparr>bc_utxoPool := Some p\<rparr>)" "rest (bc1\<lparr>bc_utxoPool := Some p\<rparr>) = rest bc1"
    "outputs (bc1\<lparr>bc_utxoPool := Some p\<rparr>) = outputs bc1"
    using 1(2) p by (simp_all add: chain_fine_def rest_def outputs_def)
  then show ?thesis
    using 1 p q' p0 OwnPool by (simp add: sync_node_pool_def node_fine_def)
qed (use assms in \<open>auto simp: sync_node_pool_def\<close>)

lemma commit_pool_fine:
  assumes "chain_fine bc" "node_fine node" "fine temp"
  shows "\<exists>bc' node'. commit_pool L now (map (\<lambda>tx. (tx, h)) txs) (Some temp) node bc = Ret (bc', node') \<and> chain_fine bc' \<and> node_fine node' \<and>
    mn_UTXOPool node' \<noteq> ChainPool \<and> rest bc = rest bc' \<and> outputs bc' = pl_utxos temp"
proof -
  obtain old where old: "bc_utxoPool bc = Some old" "fine old" using assms(1) by (auto simp: chain_fine_def)
  let ?node = "case mn_UTXOPool node of ChainPool \<Rightarrow> node\<lparr>mn_UTXOPool := OwnPool old\<rparr> | _ \<Rightarrow> node"
  let ?bc = "bc\<lparr>bc_utxoPool := Some temp\<rparr>"
  have n: "node_fine ?node" "mn_UTXOPool ?node \<noteq> ChainPool"
    using assms(2) old(2) by (cases "mn_UTXOPool node"; simp add: node_fine_def)+
  have c: "chain_fine ?bc" using assms(1,3) by (simp add: chain_fine_def)
  have "rest ?bc = rest bc" "outputs ?bc = pl_utxos temp" by (simp_all add: rest_def outputs_def)
  moreover have "commit_pool L now (map (\<lambda>tx. (tx, h)) txs) (Some temp) node bc = sync_node_pool L now (map (\<lambda>tx. (tx, h)) txs) ?node ?bc"
    using old(1) by (simp add: commit_pool_def)
  ultimately show ?thesis using sync_node_pool_fine [OF c n, of L now h txs] by metis
qed

lemma chain_snapshot_fine:
  assumes "chain_fine bc" "b_mu block = Unlocked"
  shows "\<exists>bc'. chain_snapshot L now block bc = Ret (bc', ()) \<and> chain_fine bc' \<and> rest bc = rest bc' \<and> outputs bc' = outputs bc"
proof (cases "h_BlockNumber (b_Header block) mod 10 = 0")
  case True
  obtain p where p: "bc_utxoPool bc = Some p" "fine p" using assms(1) by (auto simp: chain_fine_def)
  let ?p = "p\<lparr>pl_db := bc_db bc\<rparr>"
  let ?q = "fst (CreateSnapshot L now (h_BlockNumber (b_Header block)) (hash_value block) ?p)"
  have same: "same_outputs ?p ?q" by (rule CreateSnapshot_same)
  have "pool_ready ?p" using assms(1) p(2) by (auto simp: pool_ready_def fine_def chain_fine_def)
  then have "pool_ready ?q" by (rule CreateSnapshot_ready)
  then have q: "fine ?q" "pl_db ?q \<noteq> None" "pl_utxos ?q = pl_utxos p"
    using same_outputs_fields(1,2) [OF same] p(2) by (auto simp: fine_def pool_ready_def)
  show ?thesis
    using True p q assms by (simp add: chain_snapshot_def Hash_unlocked on_pool_def chain_fine_def rest_def outputs_def)
qed (use assms in \<open>simp add: chain_snapshot_def\<close>)

lemma updateUTXOSet_fine:
  assumes "chain_fine bc" "node_fine node" "mn_UTXOPool node \<noteq> ChainPool" "b_mu block = Unlocked"
  shows "\<exists>bc' node'. updateUTXOSet L now block node bc = Ret (bc', node') \<and> chain_fine bc' \<and> rest bc = rest bc' \<and>
    outputs bc' = fold (apply_tx (h_BlockNumber (b_Header block))) (GetAllTransactions (b_Transactions block)) (outputs bc)"
proof -
  let ?h = "h_BlockNumber (b_Header block)" and ?txs = "GetAllTransactions (b_Transactions block)"
  obtain p where p: "bc_utxoPool bc = Some p" using assms(1) by (auto simp: chain_fine_def)
  obtain bc1 where 1: "on_pool (add_all L now (map (\<lambda>tx. (tx, ?h)) ?txs)) p bc = Ret (bc1, ())" "chain_fine bc1" "rest bc = rest bc1"
    "outputs bc1 = fold (apply_tx ?h) ?txs (outputs bc)" using on_pool_add [OF assms(1) p] by blast
  obtain bc2 node2 where 2: "sync_node_pool L now (map (\<lambda>tx. (tx, ?h)) ?txs) node bc1 = Ret (bc2, node2)" "chain_fine bc2"
    "rest bc1 = rest bc2" "outputs bc2 = outputs bc1" using sync_node_pool_fine [OF 1(2) assms(2,3)] by blast
  obtain bc3 where 3: "chain_snapshot L now block bc2 = Ret (bc3, ())" "chain_fine bc3" "rest bc2 = rest bc3" "outputs bc3 = outputs bc2"
    using chain_snapshot_fine [OF 2(2) assms(4)] by blast
  show ?thesis using p 1 2 3 by (simp add: updateUTXOSet_def)
qed

lemma finish_pool_fine:
  assumes "chain_fine bc" "node_fine node" "mn_UTXOPool node \<noteq> ChainPool" "b_mu block = Unlocked"
  shows "\<exists>bc' node'. finish_pool L now miner block node bc = Ret (bc', node') \<and> bc_utxoPool bc' \<noteq> None \<and> rest bc = rest bc' \<and>
    outputs bc' = fold (apply_tx (h_BlockNumber (b_Header block))) (GetAllTransactions (b_Transactions block)) (outputs bc)"
proof -
  obtain bc1 node1 where 1: "updateUTXOSet L now block node bc = Ret (bc1, node1)" "chain_fine bc1" "rest bc = rest bc1"
    "outputs bc1 = fold (apply_tx (h_BlockNumber (b_Header block))) (GetAllTransactions (b_Transactions block)) (outputs bc)"
    using updateUTXOSet_fine [OF assms] by blast
  obtain p where p: "bc_utxoPool bc1 = Some p" "fine p" using 1(2) by (auto simp: chain_fine_def)
  let ?p = "p\<lparr>pl_db := bc_db bc1\<rparr>"
  have ne: "bc_utxoPool bc \<noteq> None" using assms(1) by (auto simp: chain_fine_def)
  show ?thesis
  proof (cases "pl_accounts p")
    case None
    then show ?thesis using 1 p ne by (simp add: finish_pool_def on_pool_def rest_def outputs_def)
  next
    case (Some am)
    have "pl_db ?p \<noteq> None" "am_mu am = Unlocked" using 1(2) p(2) Some by (auto simp: chain_fine_def fine_def)
    then obtain q am' st where q: "pool_account L am miner ?p = Ret (q, am', st)" using pool_account_returns by blast
    have "pl_utxos q = pl_utxos p" using same_outputs_fields(2) [OF pool_account_same [OF q]] by simp
    then show ?thesis using 1 p ne q Some by (simp add: finish_pool_def on_pool_def rest_def outputs_def)
  qed
qed

lemma saveBlock_returns:
  assumes "leveldb_laws L" "b_mu b = Unlocked" "header_ok (b_Header b)" "bc_db bc \<noteq> None"
  shows "\<exists>db r. saveBlock L b bc = Ret (bc\<lparr>bc_db := Some db\<rparr>, r)"
proof -
  obtain db where db: "bc_db bc = Some db" using assms(4) by blast
  then have bc: "bc\<lparr>bc_db := Some db\<rparr> = bc" by simp
  show ?thesis
  proof (cases "Serialize b")
    case None
    then have "saveBlock L b bc = Ret (bc\<lparr>bc_db := Some db\<rparr>, Inl SerializeFailed)" using db bc by (simp add: saveBlock_def)
    then show ?thesis by blast
  next
    case (Some j)
    obtain db1 r1 where p1: "db_Put L (block_key (hash_value b)) j db = (db1, r1)" by (rule prod.exhaust)
    obtain db2 r2 where p2: "db_Put L ''latest_block'' (JStr (hash_value b)) db1 = (db2, r2)" by (rule prod.exhaust)
    show ?thesis
    proof (cases "r1 = Inr () \<and> r2 = Inr ()")
      case True
      have g: "db_Get L (block_key (hash_value b)) db2 = Inr j"
        using db_Get_Put [OF assms(1)] p1 p2 True block_key_not_latest by metis
      obtain b' where "load_block j = Ret (Some b')" "b_mu b' = Unlocked" using load_Serialize [OF Some assms(3)] by blast
      then have "\<exists>v. verifyBlockInDB L (hash_value b) (filled b) (bc\<lparr>bc_db := Some db2\<rparr>) = Ret v"
        using assms(2) g by (simp add: verifyBlockInDB_def Hash_unlocked)
      then have "saveBlock L b bc = Ret (bc\<lparr>bc_db := Some db2\<rparr>, Inr ())"
        using assms(2) Some db p1 p2 True by (auto simp: saveBlock_def Hash_unlocked put_block_def)
      then show ?thesis by blast
    next
      case False
      then obtain db' e where "put_block L b (hash_value b) db = (db', Inl e)"
        using Some p1 p2 by (cases r1; cases r2) (simp_all add: put_block_def)
      then have "saveBlock L b bc = Ret (bc\<lparr>bc_db := Some db'\<rparr>, Inl e)"
        using assms(2) Some db by (simp add: saveBlock_def Hash_unlocked)
      then show ?thesis by blast
    qed
  qed
qed

lemma remove_txs_eq:
  "mp_mu m = Unlocked \<Longrightarrow> remove_txs txs m =
    Ret (m\<lparr>mp_Transactions := filter (\<lambda>tx. tx_TransactionID tx \<notin> tx_TransactionID ` set txs) (mp_Transactions m)\<rparr>)"
proof (induction txs arbitrary: m)
  case (Cons tx txs)
  have "RemoveTransaction (tx_TransactionID tx) m =
      Ret (m\<lparr>mp_Transactions := filter (\<lambda>t. tx_TransactionID t \<noteq> tx_TransactionID tx) (mp_Transactions m)\<rparr>, ())"
    using Cons.prems mempool_mu.set_mu_same [of m] by (simp add: RemoveTransaction_def mempool_mu.lock_enters)
  then show ?case using Cons by (simp add: conj_ac)
qed simp


text \<open>The transactions that are taken from the mempool, and the block that is assembled from them.\<close>

definition best_paid :: "'d Blockchain \<Rightarrow> Transaction list" where
  "best_paid bc = (case bc_mempool bc of None \<Rightarrow> [] | Some m \<Rightarrow> take 200 (SliceStable by_fee (mp_Transactions m)))"

definition new_txs :: "int \<Rightarrow> string \<Rightarrow> 'd Blockchain \<Rightarrow> Transaction list" where
  "new_txs now miner bc = mined_txs (now div second) miner (last (Chain bc)) (best_paid bc)"

definition next_height :: "'d Blockchain \<Rightarrow> u64" where
  "next_height bc = h_BlockNumber (b_Header (last (Chain bc))) + 1"

definition executed :: "int \<Rightarrow> string \<Rightarrow> 'd Blockchain \<Rightarrow> utxo_map" where
  "executed now miner bc = fold (apply_tx (next_height bc)) (new_txs now miner bc) (outputs bc)"

definition assembled :: "int \<Rightarrow> string \<Rightarrow> 'd Blockchain \<Rightarrow> Block" where
  "assembled now miner bc =
    (let root = EncodeToString (Sum256 (root_data (executed now miner bc)))
     in set_roots root root (block_template (now div second) miner (last (Chain bc)) (new_txs now miner bc)))"

lemma assembled_simps [simp]:
  "h_BlockNumber (b_Header (assembled now miner bc)) = next_height bc"
  "h_PreviousHash (b_Header (assembled now miner bc)) = b_hash (last (Chain bc))"
  "h_Timestamp (b_Header (assembled now miner bc)) = now div second"
  "h_StateRoot (b_Header (assembled now miner bc)) = EncodeToString (Sum256 (root_data (executed now miner bc)))"
  "h_ValidatorProof (b_Header (assembled now miner bc)) = None"
  "b_mu (assembled now miner bc) = Unlocked" "b_originalHash (assembled now miner bc) = []"
  "GetAllTransactions (b_Transactions (assembled now miner bc)) = GetAllTransactions (InsertBatch (new_txs now miner bc) NewPatriciaTrie)"
proof -
  obtain t root where t: "GenerateRootHash (InsertBatch (new_txs now miner bc) NewPatriciaTrie) = (t, root)" by fastforce
  then have "GetAllTransactions t = GetAllTransactions (InsertBatch (new_txs now miner bc) NewPatriciaTrie)"
    by (metis GetAllTransactions_root_hash fst_conv)
  then show "GetAllTransactions (b_Transactions (assembled now miner bc)) = GetAllTransactions (InsertBatch (new_txs now miner bc) NewPatriciaTrie)"
    by (simp add: assembled_def block_template_def set_roots_def t Let_def)
qed (simp_all add: assembled_def block_template_def set_roots_def new_block_def zero_header_def next_height_def Let_def split: prod.split)

text \<open>The block that leaves the search and the validators.\<close>

lemma MineBlock_result:
  assumes "MineBlock now net b d sp = Ret (sp', (b', r))"
  shows "h_BlockNumber (b_Header b') = h_BlockNumber (b_Header b)" "h_PreviousHash (b_Header b') = h_PreviousHash (b_Header b)"
    "h_Timestamp (b_Header b') = h_Timestamp (b_Header b)" "h_StateRoot (b_Header b') = h_StateRoot (b_Header b)"
    "h_ValidatorProof (b_Header b') = h_ValidatorProof (b_Header b)" "b_mu b' = b_mu b" "b_originalHash b' = b_originalHash b"
    "b_Transactions b' = b_Transactions b" "h_Difficulty (b_Header b') = d" "b_hash b' = CalculateHash b'" "isHashValid (b_hash b') d"
proof -
  obtain m x y where m: "mine_loop d (set_difficulty d b) = Some m" "b' = stamped x y m" using MineBlock_shape [OF assms] by blast
  obtain n h where n: "m = (with_nonce n (set_difficulty d b))\<lparr>b_hash := h\<rparr>" "h = CalculateHash m" "isHashValid h d"
    using mine_loop_Some [OF m(1)] by metis
  have "b_hash m = h" unfolding n(1) by simp
  then show "b_hash b' = CalculateHash b'" "isHashValid (b_hash b') d" using n(2,3) m(2) by simp_all
  show "h_BlockNumber (b_Header b') = h_BlockNumber (b_Header b)" "h_PreviousHash (b_Header b') = h_PreviousHash (b_Header b)"
    "h_Timestamp (b_Header b') = h_Timestamp (b_Header b)" "h_StateRoot (b_Header b') = h_StateRoot (b_Header b)"
    "h_ValidatorProof (b_Header b') = h_ValidatorProof (b_Header b)" "b_mu b' = b_mu b" "b_originalHash b' = b_originalHash b"
    "b_Transactions b' = b_Transactions b" "h_Difficulty (b_Header b') = d"
    unfolding m(2) n(1) by (simp_all add: with_nonce_def set_difficulty_def)
qed

lemma pending_transactions_eq:
  assumes "\<forall>m. bc_mempool bc = Some m \<longrightarrow> mp_mu m = Unlocked"
  shows "pending_transactions bc = Ret (bc, best_paid bc)"
  using assms by (cases "bc_mempool bc")
    (simp_all add: pending_transactions_def best_paid_def GetTransactions_def mempool_mu.lock_readonly)

lemma execute_block_fine:
  assumes "chain_fine bc"
  shows "\<exists>bc' temp. execute_block L now txs block bc =
      Ret (bc', Some temp, let root = EncodeToString (Sum256 (root_data (fold (apply_tx (h_BlockNumber (b_Header block))) txs (outputs bc)))) in set_roots root root block) \<and>
    chain_fine bc' \<and> fine temp \<and> rest bc = rest bc' \<and> outputs bc' = outputs bc \<and>
    pl_utxos temp = fold (apply_tx (h_BlockNumber (b_Header block))) txs (outputs bc)"
proof -
  obtain p where p: "bc_utxoPool bc = Some p" "fine p" using assms by (auto simp: chain_fine_def)
  then have bc: "bc\<lparr>bc_utxoPool := Some p\<rparr> = bc" by simp
  have o: "outputs bc = pl_utxos p" using p(1) by (simp add: outputs_def)
  obtain bc' q where q: "on_other (add_all L now (map (\<lambda>tx. (tx, h_BlockNumber (b_Header block))) txs)) p bc = Ret (bc', q)"
    "chain_fine bc'" "fine q" "rest bc = rest bc'" "outputs bc' = outputs bc"
    "pl_utxos q = fold (apply_tx (h_BlockNumber (b_Header block))) txs (outputs bc)"
    using on_other_add [OF assms p(2)] o by metis
  have "GetRootHash q = Ret (q, EncodeToString (Sum256 (root_data (pl_utxos q))))"
    using q(3) by (simp add: GetRootHash_eq fine_def)
  then have "execute_block L now txs block bc = Ret (bc', Some q, let root = EncodeToString (Sum256 (root_data (pl_utxos q))) in set_roots root root block)"
    unfolding execute_block_def p(1) option.case Clone_fine [OF p(2)] go_bind.simps prod.case bc q(1) by (simp add: Let_def)
  then show ?thesis using q by auto
qed


lemma commit_block:
  assumes "chain_fine bc" "node_fine node" "fine temp" "leveldb_laws L" "\<forall>m. bc_mempool bc = Some m \<longrightarrow> mp_mu m = Unlocked"
    and "b_mu b = Unlocked" "b_originalHash b \<noteq> []" "header_ok (b_Header b)"
  shows "\<exists>bc' node'. go_bind (commit_pool L now (map (\<lambda>tx. (tx, h)) rewards) (Some temp) node bc) (\<lambda>(bc, node).
      go_bind (append_mined b bc) (\<lambda>(bc, b).
      go_bind (saveBlock L b bc) (\<lambda>(bc, _).
      go_bind (remove_mined pending bc) (\<lambda>bc.
      go_bind (finish_pool L now miner b node bc) (\<lambda>(bc, node).
        if x \<noteq> None \<and> bc_utxoPool bc = None then Panic else Ret (bc, node, Inr b)))))) = Ret (bc', node', Inr b) \<and>
    Chain bc' = Chain bc @ [b] \<and>
    bc_mempool bc' = map_option (\<lambda>m. m\<lparr>mp_Transactions :=
      filter (\<lambda>tx. tx_TransactionID tx \<notin> tx_TransactionID ` set pending) (mp_Transactions m)\<rparr>) (bc_mempool bc) \<and>
    outputs bc' = fold (apply_tx (h_BlockNumber (b_Header b))) (GetAllTransactions (b_Transactions b)) (pl_utxos temp)"
proof -
  obtain bc1 node1 where 1: "commit_pool L now (map (\<lambda>tx. (tx, h)) rewards) (Some temp) node bc = Ret (bc1, node1)" "chain_fine bc1"
    "node_fine node1" "mn_UTXOPool node1 \<noteq> ChainPool" "rest bc = rest bc1" "outputs bc1 = pl_utxos temp"
    using commit_pool_fine [OF assms(1-3)] by blast
  let ?bc2 = "bc1\<lparr>Chain := Chain bc1 @ [b], bc_currentHash := hash_value b\<rparr>"
  have filled: "filled b = b" using assms(7) by (simp add: filled_def)
  have "set_bc_mu Unlocked ?bc2 = ?bc2" using 1(2) by (simp add: chain_fine_def)
  then have 2: "append_mined b bc1 = Ret (?bc2, b)"
    using 1(2) assms(6) filled by (simp add: append_mined_def chain_mu.lock_enters chain_fine_def Hash_unlocked)
  obtain db r where 3: "saveBlock L b ?bc2 = Ret (?bc2\<lparr>bc_db := Some db\<rparr>, r)"
    using saveBlock_returns [OF assms(4,6,8), of ?bc2] 1(2) by (auto simp: chain_fine_def)
  let ?bc3 = "?bc2\<lparr>bc_db := Some db\<rparr>"
  let ?mp = "map_option (\<lambda>m. m\<lparr>mp_Transactions := filter (\<lambda>tx. tx_TransactionID tx \<notin> tx_TransactionID ` set pending) (mp_Transactions m)\<rparr>) (bc_mempool bc1)"
  have mp: "bc_mempool bc1 = bc_mempool bc" using rest_fields(2) [OF 1(5)] .
  have 4: "remove_mined pending ?bc3 = Ret (?bc3\<lparr>bc_mempool := ?mp\<rparr>)"
    using assms(5) mp by (cases "bc_mempool bc") (simp_all add: remove_mined_def remove_txs_eq)
  let ?bc4 = "?bc3\<lparr>bc_mempool := ?mp\<rparr>"
  have "chain_fine ?bc4" using 1(2) by (simp add: chain_fine_def)
  then obtain bc5 node5 where 5: "finish_pool L now miner b node1 ?bc4 = Ret (bc5, node5)" "bc_utxoPool bc5 \<noteq> None" "rest ?bc4 = rest bc5"
    "outputs bc5 = fold (apply_tx (h_BlockNumber (b_Header b))) (GetAllTransactions (b_Transactions b)) (outputs ?bc4)"
    using finish_pool_fine [OF _ 1(3,4) assms(6)] by blast
  have "outputs ?bc4 = pl_utxos temp" using 1(6) by (simp add: outputs_def)
  moreover have "Chain bc5 = Chain bc @ [b]" "bc_mempool bc5 = ?mp"
    using rest_fields(1,2) [OF 5(3)] rest_fields(1) [OF 1(5)] by simp_all
  ultimately show ?thesis using 5 mp unfolding 1(1) go_bind.simps prod.case 2 3 4 by simp
qed

text \<open>
  C5. What mining a block does, whatever the network answers. The block holds the rewards and the best-paid
  transactions of the mempool, its state root is the hash of the pool after their execution. When the search for a nonce and
  the validators succeed, the block is appended to the chain, its transactions leave the mempool, and they are
  executed a second time on the pool that already contains their effects, in the order of the trie;
  when they fail, the chain, its pool and the mempool stay as they were.
\<close>

theorem chain_MineBlock_spec:
  assumes "chain_fine bc" "node_fine node" "Chain bc \<noteq> []" "leveldb_laws L" "int64 (now div second)"
    and "\<forall>m. bc_mempool bc = Some m \<longrightarrow> mp_mu m = Unlocked"
    and "MineBlock now (mn_net node) (assembled now miner bc) (h_Difficulty (b_Header (last (Chain bc)))) (bc_StakePool bc) = Ret (sp, (b, r))"
  shows "\<exists>bc' node'. chain_MineBlock L now miner node bc = Ret (bc', node', case r of Inl e \<Rightarrow> Inl e | Inr _ \<Rightarrow> Inr (filled b)) \<and>
    (case r of
       Inl _ \<Rightarrow> Chain bc' = Chain bc \<and> bc_mempool bc' = bc_mempool bc \<and> outputs bc' = outputs bc
     | Inr _ \<Rightarrow> Chain bc' = Chain bc @ [filled b] \<and>
         bc_mempool bc' = map_option (\<lambda>m. m\<lparr>mp_Transactions :=
           filter (\<lambda>tx. tx_TransactionID tx \<notin> tx_TransactionID ` set (best_paid bc)) (mp_Transactions m)\<rparr>) (bc_mempool bc) \<and>
         outputs bc' = fold (apply_tx (next_height bc)) (GetAllTransactions (InsertBatch (new_txs now miner bc) NewPatriciaTrie)) (executed now miner bc))"
proof -
  let ?prev = "last (Chain bc)" and ?unix = "now div second"
  let ?txs = "new_txs now miner bc"
  let ?block = "block_template ?unix miner ?prev ?txs"
  have latest: "GetLatestBlock L bc = Ret (bc, Some ?prev)" 
    by (rule GetLatestBlock_memory) (use assms(1,3) in \<open>simp_all add: chain_fine_def\<close>)
  have pend: "pending_transactions bc = Ret (bc, best_paid bc)" using pending_transactions_eq [OF assms(6)] .
  have h: "h_BlockNumber (b_Header ?block) = next_height bc"
    by (simp add: block_template_def next_height_def new_block_def Let_def split: prod.split)
  obtain bc1 temp where 1: "execute_block L ?unix ?txs ?block bc = Ret (bc1, Some temp, assembled now miner bc)" "chain_fine bc1" "fine temp"
    "rest bc = rest bc1" "outputs bc1 = outputs bc" "pl_utxos temp = executed now miner bc"
    using execute_block_fine [OF assms(1), of L ?unix ?txs ?block] unfolding h assembled_def executed_def by blast
  note keep = rest_fields [OF 1(4)]
  note res = MineBlock_result [OF assms(7), simplified]
  have mine: "MineBlock now (mn_net node) (assembled now miner bc) (calculateDifficulty ?prev) (bc_StakePool bc1) = Ret (sp, (b, r))"
    using assms(7) keep(3) by (simp add: calculateDifficulty_def)
  let ?bc2 = "bc1\<lparr>bc_StakePool := sp\<rparr>"
  have run: "chain_MineBlock L now miner node bc = (case r of
      Inl e \<Rightarrow> Ret (?bc2, node, Inl e)
    | Inr _ \<Rightarrow> go_bind (Hash b) (\<lambda>(newBlock, _).
        go_bind (commit_pool L ?unix (map (\<lambda>tx. (tx, h_BlockNumber (b_Header newBlock)))
          (option_list (validator_reward_for ?unix ?prev) @ [coinbase_for ?unix miner ?prev])) (Some temp) node ?bc2) (\<lambda>(bc, node).
        go_bind (append_mined newBlock bc) (\<lambda>(bc, newBlock).
        go_bind (saveBlock L newBlock bc) (\<lambda>(bc, _).
        go_bind (remove_mined (best_paid bc0) bc) (\<lambda>bc.
        go_bind (finish_pool L ?unix miner newBlock node bc) (\<lambda>(bc, node).
          if validator_reward_for ?unix ?prev \<noteq> None \<and> bc_utxoPool bc = None then Panic else Ret (bc, node, Inr newBlock))))))))"
    if "bc0 = bc" for bc0
    unfolding that chain_MineBlock_def latest go_bind.simps prod.case option.case pend Let_def
      new_txs_def [symmetric] 1(1) mine ..
  show ?thesis
  proof (cases r)
    case (Inl e)
    then show ?thesis using run [OF refl] keep 1(5) by (simp add: outputs_def)
  next
    case (Inr u)
    have fine2: "chain_fine ?bc2" using 1(2) by (simp add: chain_fine_def)
    have mp: "\<forall>m. bc_mempool ?bc2 = Some m \<longrightarrow> mp_mu m = Unlocked" using assms(6) keep(2) by simp
    have b: "b_mu (filled b) = Unlocked" "b_originalHash (filled b) \<noteq> []" "header_ok (b_Header (filled b))"
      using res assms(5) by (simp_all add: filled_def CalculateHash_def header_ok_def)
    have ts: "GetAllTransactions (b_Transactions (filled b)) = GetAllTransactions (InsertBatch ?txs NewPatriciaTrie)"
      using res(8) by simp
    show ?thesis
      using commit_block [OF fine2 assms(2) 1(3) assms(4) mp b, of ?unix "h_BlockNumber (b_Header (filled b))"
          "option_list (validator_reward_for ?unix ?prev) @ [coinbase_for ?unix miner ?prev]" "best_paid bc" miner "validator_reward_for ?unix ?prev"]
        run [OF refl] res(1,6) keep(1,2) 1(6) Inr ts by (simp add: Hash_unlocked)
  qed
qed


text \<open>A fresh chain on an easy genesis block.\<close>

definition easy_chain :: "(string, json) gomap Blockchain" where
  "easy_chain = (InitialiseBlockchain 0 empty_db)\<lparr>Chain := [new_block zero_header], bc_StakePool := one_staker\<rparr>"

definition easy_node :: "(string, json) gomap mining_node" where
  "easy_node = \<lparr>mn_net = yes_net, mn_UTXOPool = ChainPool\<rparr>"

lemma easy_coinbase: "new_txs now miner easy_chain = [coinbase_for (now div second) miner (new_block zero_header)]"
proof -
  have "best_paid easy_chain = []" by (simp add: best_paid_def easy_chain_def InitialiseBlockchain_def NewMempool_def)
  moreover have "validator_reward_for t (new_block zero_header) = None" for t
    by (simp add: validator_reward_for_def new_block_def zero_header_def)
  moreover have "last (Chain easy_chain) = new_block zero_header" by (simp add: easy_chain_def)
  ultimately show ?thesis by (simp add: new_txs_def mined_txs_def option_list_def)
qed

lemma first_reward_finite: "\<exists>r. calculateMinerReward (calculateBlockReward (new_block zero_header)) = Fin r"
proof -
  obtain s where s: "round64 (7 / 10) = Fin s" "0 \<le> s" "s \<le> 1"
    using round64_between [of 0 1 "7 / 10"] representable_nat [of 1] by auto
  have s50: "0 \<le> 50 * s" "50 * s \<le> of_nat 50" using s(2,3) by simp_all
  obtain r where r: "round64 (50 * s) = Fin r" using round64_sandwich [of 0 "50 * s" 50] s50 by auto
  obtain m where m: "min_reward = Fin m"
    using round64_between [of 0 1 "1 / 10 ^ 8"] representable_nat [of 1] unfolding min_reward_def by auto
  have "calculateBlockReward (new_block zero_header) = Fin 50"
    by (simp add: calculateBlockReward_def new_block_def zero_header_def InitialBlockReward_def)
  then show ?thesis
    using r s(2) unfolding calculateMinerReward_def at_least_min_def m
    by (simp add: MinerRewardPercentage_def s(1) fmul_Fin_round)
qed

lemma easy_run: "\<exists>b'. MineBlock (100 * hour) yes_net (assembled (100 * hour) ''m'' easy_chain) 0 one_staker = Ret (one_staker, (b', Inr ()))"
proof -
  let ?c = "coinbase_for (100 * hour div second) ''m'' (new_block zero_header)"
  obtain r where r: "calculateMinerReward (calculateBlockReward (new_block zero_header)) = Fin r" using first_reward_finite by blast
  have "enc_tx ?c \<noteq> None"
    unfolding coinbase_for_def r
    by (simp add: NewCoinbaseTransaction_def enc_tx_def enc_float_def enc_list_def enc_output_def zero_tx_def Let_def)
  moreover have "mset (GetAllTransactions (InsertBatch [?c] NewPatriciaTrie)) = {#?c#}"
    using trie_of_distinct [of "[?c]"] by (simp add: InsertBatch_def)
  then have "GetAllTransactions (InsertBatch [?c] NewPatriciaTrie) = [?c]" by simp
  ultimately have "enc_tx tx \<noteq> None" if "tx \<in> set (GetAllTransactions (b_Transactions (assembled (100 * hour) ''m'' easy_chain)))" for tx
    using that by (simp add: easy_coinbase)
  moreover have "b_Receipts (assembled (100 * hour) ''m'' easy_chain) = []"
    by (simp add: assembled_def set_roots_def block_template_def new_block_def Let_def split: prod.split)
  ultimately show ?thesis by (rule approved_run)
qed

lemma easy_fine:
  "chain_fine easy_chain" "node_fine easy_node" "Chain easy_chain = [new_block zero_header]" "bc_StakePool easy_chain = one_staker"
  "bc_mempool easy_chain = Some NewMempool" "mp_mu NewMempool = Unlocked" "mn_net easy_node = yes_net"
  by (simp_all add: easy_chain_def easy_node_def InitialiseBlockchain_def NewUTXOPool_def NewMempool_def chain_fine_def fine_def node_fine_def)

theorem chain_MineBlock_spec_witness:
  "\<exists>bc' node' block. chain_MineBlock memory_leveldb (100 * hour) ''m'' easy_node easy_chain = Ret (bc', node', Inr block) \<and>
    Chain bc' = [new_block zero_header, block]"
proof -
  obtain b where b: "MineBlock (100 * hour) yes_net (assembled (100 * hour) ''m'' easy_chain) 0 one_staker = Ret (one_staker, (b, Inr ()))"
    using easy_run by blast
  have "int64 (100 * hour div second)" by code_simp
  moreover have "h_Difficulty (b_Header (new_block zero_header)) = 0" by (simp add: new_block_def zero_header_def)
  ultimately show ?thesis
    using chain_MineBlock_spec [OF easy_fine(1,2) _ memory_leveldb_laws, of "100 * hour" "''m''" one_staker b "Inr ()"] b by (auto simp: easy_fine)
qed


section \<open>What a validator does with a mined block\<close>

lemma VerifyBalance_frame: "VerifyBalance a x bc = Ret (bc', ok) \<Longrightarrow> bc_balances bc' = bc_balances bc"
  by (cases "bc_mu bc") (auto simp: VerifyBalance_def chain_GetBalance_def with_rlock_def go_simps)

lemma GetNonce_frame: "GetNonce a bc = Ret (bc', n) \<Longrightarrow> bc_balances bc' = bc_balances bc"
  by (cases "bc_mu bc"; cases "bc_utxoPool bc") (auto simp: GetNonce_def with_rlock_def go_simps)

lemma validateTransaction_frame:
  "validateTransaction keys tx bc = Ret (bc', r) \<Longrightarrow> bc_balances bc' = bc_balances bc"
  by (auto simp: validateTransaction_def go_simps dest!: VerifyBalance_frame GetNonce_frame split: if_splits)

lemma validateTransaction_unfunded:
  assumes "validateTransaction keys tx bc = Ret (bc', Inr ())" "bc_balances bc = []"
  shows "IsCoinbase tx \<or> IsValidatorReward tx \<or> \<not> flt (Fin 0) (fadd (tx_Amount tx) (tx_GasFee tx))"
proof (rule ccontr)
  assume n: "\<not> ?thesis"
  then obtain bc1 where "VerifyBalance (tx_Sender tx) (fadd (tx_Amount tx) (tx_GasFee tx)) bc = Ret (bc1, True)"
    using assms(1) by (auto simp: validateTransaction_def go_simps split: if_splits)
  then have "fle (fadd (tx_Amount tx) (tx_GasFee tx)) (Fin 0)"
    using assms(2) by (auto simp: VerifyBalance_def chain_GetBalance_def with_rlock_def gomap_get_or_def go_simps split: rwmutex.splits)
  then show False using n by (cases "fadd (tx_Amount tx) (tx_GasFee tx)") (auto simp: fle_def feq_def is_zero_def)
qed

lemma validate_txs_unfunded:
  "validate_txs keys txs bc = Ret (bc', Inr ()) \<Longrightarrow> bc_balances bc = [] \<Longrightarrow> tx \<in> set txs \<Longrightarrow>
    IsCoinbase tx \<or> IsValidatorReward tx \<or> \<not> flt (Fin 0) (fadd (tx_Amount tx) (tx_GasFee tx))"
proof (induction txs arbitrary: bc)
  case (Cons t txs)
  obtain bc1 r where 1: "validateTransaction keys t bc = Ret (bc1, r)" using Cons.prems(1) by (auto simp: go_simps)
  then obtain u where r: "r = Inr u" using Cons.prems(1) by (cases r) auto
  have "bc_balances bc1 = []" using validateTransaction_frame [OF 1] Cons.prems(2) by simp
  then show ?case
    using validateTransaction_unfunded [of keys t bc bc1] Cons 1 r by auto
qed simp

text \<open>
  C29. A validator compares the amount of a payment with the balances that only the reward calculator
  writes. As long as there is none, which is the case in every run of the program, it accepts no block with a
  payment.
\<close>

theorem validateBlock_rejects_payments:
  assumes "bc_balances bc = []" "tx \<in> set (GetAllTransactions (b_Transactions block))" "\<not> IsCoinbase tx" "\<not> IsValidatorReward tx"
    and "flt (Fin 0) (fadd (tx_Amount tx) (tx_GasFee tx))"
  shows "validateBlock L keys now block bc \<noteq> Ret (bc', Inr ())"
proof
  assume "validateBlock L keys now block bc = Ret (bc', Inr ())"
  then obtain block1 h bc1 r where 1: "Hash block = Ret (block1, h)" "validate_txs keys (GetAllTransactions (b_Transactions block1)) bc = Ret (bc1, r)"
    "(case r of Inl e \<Rightarrow> Ret (bc1, Inl e) | Inr _ \<Rightarrow> validateStateTransitions L now block1 bc1) = Ret (bc', Inr ())"
    by (auto simp: validateBlock_def go_simps split: if_splits)
  obtain u where r: "r = Inr u" using 1(3) by (cases r) auto
  have "b_Transactions block1 = b_Transactions block"
    using 1(1) by (auto simp: Hash_def with_lock_def with_rlock_def go_simps Let_def split: rwmutex.splits if_splits)
  then show False using validate_txs_unfunded [of keys _ bc bc1 tx] 1(2) r assms by auto
qed

theorem validateBlock_rejects_payments_witness:
  "\<exists>b. b_hash b = [] \<and> validateBlock memory_leveldb [] 5 b (InitialiseBlockchain 0 empty_db) \<noteq> Ret (InitialiseBlockchain 0 empty_db, Inr ())"
proof -
  let ?tx = "zero_tx\<lparr>tx_Amount := Fin 3\<rparr>"
  let ?b = "(new_block zero_header)\<lparr>b_Transactions := InsertBatch [?tx] NewPatriciaTrie\<rparr>"
  have "mset (GetAllTransactions (b_Transactions ?b)) = {#?tx#}" using trie_of_distinct [of "[?tx]"] by (simp add: InsertBatch_def)
  then have "?tx \<in> set (GetAllTransactions (b_Transactions ?b))" by simp
  moreover have "flt (Fin 0) (fadd (tx_Amount ?tx) (tx_GasFee ?tx))" unfolding zero_tx_def by code_simp
  moreover have "\<not> IsCoinbase ?tx" "\<not> IsValidatorReward ?tx" by (simp_all add: IsCoinbase_def IsValidatorReward_def zero_tx_def tx_types)
  ultimately have "validateBlock memory_leveldb [] 5 ?b (InitialiseBlockchain 0 empty_db) \<noteq> Ret (InitialiseBlockchain 0 empty_db, Inr ())"
    by (intro validateBlock_rejects_payments [of "InitialiseBlockchain 0 empty_db" ?tx]) (simp_all add: InitialiseBlockchain_def)
  moreover have "b_hash ?b = []" by (simp add: new_block_def)
  ultimately show ?thesis by blast
qed


definition grows :: "utxo_map \<Rightarrow> utxo_map \<Rightarrow> bool" where
  "grows m m' \<longleftrightarrow> fst ` set m \<subseteq> fst ` set m' \<and> length m \<le> length m'"

lemma grows_refl [simp]: "grows m m"
  by (simp add: grows_def)

lemma grows_trans: "grows m1 m2 \<Longrightarrow> grows m2 m3 \<Longrightarrow> grows m1 m3"
  unfolding grows_def by (meson order_trans)

lemma grows_put: "grows m (gomap_put k v m)"
  unfolding grows_def by (induction m) auto

lemma grows_fold: "(\<And>x m. grows m (f x m)) \<Longrightarrow> grows m (fold f xs m)"
  by (induction xs arbitrary: m) (auto intro: grows_trans)

lemma apply_tx_grows: "grows m (apply_tx h tx m)"
proof -
  have spent: "grows m (mark_spent k m)" for k m by (simp add: mark_spent_def grows_put split: option.split)
  have made: "grows m (put_output tx h out m)" for out m by (cases out) (simp add: put_output_def grows_put)
  have "grows m (if is_system tx then m else fold mark_spent (map input_key (tx_Inputs tx)) m)"
    using grows_fold [of mark_spent m "map input_key (tx_Inputs tx)"] spent by simp
  moreover have "grows m' (fold (put_output tx h) os m')" for m' os by (rule grows_fold) (rule made)
  ultimately show ?thesis unfolding apply_tx_def by (rule grows_trans)
qed

lemma fold_apply_grows: "grows m (fold (apply_tx h) txs m)"
  by (rule grows_fold) (rule apply_tx_grows)

lemma coinbase_key: "utxo_key (tx_TransactionID (coinbase_for now miner prev)) 0 \<in> fst ` set (executed now' miner bc)"
  if "now = now' div second" "prev = last (Chain bc)"
proof -
  let ?c = "coinbase_for now miner prev"
  have o: "tx_Outputs ?c = [\<lparr>out_Receiver = miner, out_Amount = calculateMinerReward (calculateBlockReward prev), out_ScriptPubKey = []\<rparr>]"
    by (simp add: coinbase_for_def NewCoinbaseTransaction_def Let_def)
  have "fst ` set (gomap_put k v m) = insert k (fst ` set m)" for k v and m :: utxo_map
    by (simp add: gomap_simps flip: dom_map_of_conv_image_fst)
  then have "utxo_key (tx_TransactionID ?c) 0 \<in> fst ` set (apply_tx (next_height bc) ?c (outputs bc))"
    by (simp add: apply_tx_def o put_output_def)
  moreover have "executed now' miner bc = fold (apply_tx (next_height bc)) (option_list (validator_reward_for now prev) @ best_paid bc)
      (apply_tx (next_height bc) ?c (outputs bc))"
    by (simp add: executed_def new_txs_def mined_txs_def that)
  moreover have "fst ` set (apply_tx (next_height bc) ?c (outputs bc)) \<subseteq>
      fst ` set (fold (apply_tx (next_height bc)) txs (apply_tx (next_height bc) ?c (outputs bc)))" for txs
    using fold_apply_grows [of "apply_tx (next_height bc) ?c (outputs bc)"] by (simp only: grows_def)
  ultimately show ?thesis by (simp only: subset_iff)
qed

lemma hex_digits: "45 \<notin> set (bytes_of_string (hash_hex s))"
proof -
  have digit: "CHR ''-'' \<noteq> hex_digit d" if "d < 16" for d
  proof
    assume "CHR ''-'' = hex_digit d"
    then have "of_char (hex_digit d) = (of_char (CHR ''-'') :: nat)" by (simp only:)
    then show False using that by (simp add: hex_digit_def split: if_splits)
  qed
  have range: "unat b div 16 < 16" "unat b mod 16 < 16" for b :: u8
    using unsigned_less [of b, where 'a = nat] by auto
  have "CHR ''-'' \<notin> set (hex_byte b)" for b
    using digit [OF range(1) [of b]] digit [OF range(2) [of b]]
    by (simp only: hex_byte_def list.set insert_iff empty_iff simp_thms)
  then have "CHR ''-'' \<notin> set (EncodeToString bs)" for bs
    by (auto simp: EncodeToString_def)
  then have "CHR ''-'' \<notin> set (hash_hex s)" by (simp add: hash_hex_def)
  moreover have "c = CHR ''-''" if "(word_of_nat (of_char c) :: u8) = 45" for c :: char
  proof -
    have "bytes_of_string [c] = bytes_of_string [CHR ''-'']" using that by (simp add: bytes_of_string_def)
    then show ?thesis by (simp only: bytes_of_string_inject list.inject)
  qed
  ultimately show ?thesis by (auto simp: bytes_of_string_def)
qed

text \<open>The nodes below the root of a Merkle tree with at least two leaves, and what the root is the hash of.\<close>

function top_pair :: "('a list \<Rightarrow> 'a list) \<Rightarrow> 'a list list \<Rightarrow> 'a list list" where
  "top_pair h xs = (if length xs > 2 then top_pair h (pair_hashes h xs) else xs)"
  by auto
termination by (relation "measure (\<lambda>(h, xs). length xs)") auto

declare top_pair.simps [simp del]

definition merkle_input :: "utxo_map \<Rightarrow> string" where
  "merkle_input m = concat (top_pair hash_hex (leaf_hashes m))"

lemma set_pair_hashes: "set (pair_hashes h xs) \<subseteq> range h"
  by (induction h xs rule: pair_hashes.induct) auto

lemma length_top_pair: "2 \<le> length xs \<Longrightarrow> length (top_pair h xs) = 2"
proof (induction h xs rule: top_pair.induct)
  case (1 h xs)
  then show ?case by (cases "length xs > 2") (simp_all add: top_pair.simps [of h xs])
qed

lemma set_top_pair: "set xs \<subseteq> range h \<Longrightarrow> set (top_pair h xs) \<subseteq> range h"
proof (induction h xs rule: top_pair.induct)
  case (1 h xs)
  then show ?case using set_pair_hashes [of h xs] by (cases "length xs > 2") (simp_all add: top_pair.simps [of h xs])
qed

lemma merkle_loop_top_pair: "2 \<le> length xs \<Longrightarrow> merkle_loop h xs = [h (concat (top_pair h xs))]"
proof (induction h xs rule: top_pair.induct)
  case (1 h xs)
  have step: "merkle_loop h xs = merkle_loop h (pair_hashes h xs)" using 1(2) by (simp add: merkle_loop.simps [of h xs])
  show ?case
  proof (cases "length xs > 2")
    case True
    then show ?thesis using 1(1) by (simp add: step top_pair.simps [of h xs])
  next
    case False
    then have "length xs = 2" using 1(2) by simp
    then obtain x y where xs: "xs = [x, y]" by (auto simp: numeral_2_eq_2 length_Suc_conv)
    show ?thesis
      unfolding xs by (simp add: top_pair.simps [of h "[x, y]"] merkle_loop.simps [of h "[x, y]"] merkle_loop.simps [of h "[h (x @ y)]"])
  qed
qed

lemma merkle_input_root:
  assumes "2 \<le> length m"
  shows "CalculateMerkleRoot m = hash_hex (merkle_input m)" "45 \<notin> set (bytes_of_string (merkle_input m))"
proof -
  have "m \<noteq> []" "2 \<le> length (leaf_hashes m)" using assms by (auto simp: leaf_hashes_def)
  then show "CalculateMerkleRoot m = hash_hex (merkle_input m)"
    by (simp add: CalculateMerkleRoot_def merkle_input_def merkle_loop_top_pair)
  have "set (leaf_hashes m) \<subseteq> range hash_hex" by (auto simp: leaf_hashes_def)
  then have "set (top_pair hash_hex (leaf_hashes m)) \<subseteq> range hash_hex" by (rule set_top_pair)
  then show "45 \<notin> set (bytes_of_string (merkle_input m))"
    using hex_digits by (fastforce simp: merkle_input_def bytes_of_string_def)
qed

lemma add_all_root:
  assumes "pl_merkleRoot p = CalculateMerkleRoot (pl_utxos p)" "add_all L now txs p = Ret (q, u)"
  shows "pl_merkleRoot q = CalculateMerkleRoot (pl_utxos q)"
  using assms
proof (induction txs arbitrary: p)
  case (Cons t txs)
  obtain tx h where t: "t = (tx, h)" by fastforce
  obtain p1 where p1: "AddUTXO L now tx h p = Ret (p1, ())" "add_all L now txs p1 = Ret (q, u)"
    using Cons.prems(2) by (auto simp: t go_simps)
  show ?case by (rule Cons.IH [OF AddUTXO_effect(2) [OF p1(1)] p1(2)])
qed simp

lemma root_data_dash:
  assumes "utxo_key t i \<in> fst ` set m"
  shows "45 \<in> set (root_data m)"
proof -
  obtain u where u: "(utxo_key t i, u) \<in> set m" using assms by auto
  have "45 \<in> set (bytes_of_string (utxo_key t i))" by (simp add: utxo_key_def bytes_of_string_def)
  then show ?thesis unfolding root_data_def set_concat set_map using u by (intro UN_I [OF imageI [OF u]]) simp
qed

text \<open>The pool of a validator, with its root up to date.\<close>

definition root_current :: "'d Blockchain \<Rightarrow> bool" where
  "root_current bc \<longleftrightarrow> (\<forall>p. bc_utxoPool bc = Some p \<longrightarrow> pl_merkleRoot p = CalculateMerkleRoot (pl_utxos p))"

lemma validateStateTransitions_eq:
  assumes "chain_fine bc" "root_current bc"
  shows "\<exists>bc'. validateStateTransitions L now block bc = Ret (bc',
    if CalculateMerkleRoot (fold (apply_tx (h_BlockNumber (b_Header block))) (GetAllTransactions (b_Transactions block)) (outputs bc))
      \<noteq> h_StateRoot (b_Header block) then Inl InvalidStateRoot else Inr ())"
proof -
  let ?h = "h_BlockNumber (b_Header block)" and ?txs = "GetAllTransactions (b_Transactions block)"
  obtain p where p: "bc_utxoPool bc = Some p" "fine p" using assms(1) by (auto simp: chain_fine_def)
  have bc: "bc\<lparr>bc_utxoPool := Some p\<rparr> = bc" using p(1) by simp
  let ?q = "(share_accounts p p)\<lparr>pl_db := bc_db bc\<rparr>"
  obtain q where q: "add_all L now (map (\<lambda>tx. (tx, ?h)) ?txs) ?q = Ret (q, ())" "fine q" "pl_utxos q = fold (apply_tx ?h) ?txs (pl_utxos p)"
    using add_all_fine [of ?q L now ?h ?txs] assms(1) p(2) by (auto simp: chain_fine_def)
  have "pl_merkleRoot ?q = CalculateMerkleRoot (pl_utxos ?q)"
    using assms(2) p(1) by (simp add: root_current_def share_accounts_def split: option.split)
  then have "pl_merkleRoot q = CalculateMerkleRoot (fold (apply_tx ?h) ?txs (outputs bc))"
    using add_all_root [OF _ q(1)] q(3) p(1) by (simp add: outputs_def)
  then have root: "GetMerkleRoot q = Ret (q, CalculateMerkleRoot (fold (apply_tx ?h) ?txs (outputs bc)))"
    using q(2) by (simp add: GetMerkleRoot_def fine_def pool_mu.lock_readonly)
  obtain bc' where "on_other (add_all L now (map (\<lambda>tx. (tx, ?h)) ?txs)) p bc = Ret (bc', q)"
    by (simp add: on_other_def p(1) q(1))
  then show ?thesis
    unfolding validateStateTransitions_def p(1) option.case Clone_fine [OF p(2)] go_bind.simps prod.case bc by (simp add: root)
qed

text \<open>
  C6. Miners and validators compute the state root in two ways: a miner hashes the outputs in a row, a validator
  builds a Merkle tree of them. So a validator rejects a mined block, whatever outputs it has itself, as soon
  as two of them are there after the execution; the only exception is a collision of SHA-256 between the two inputs.
\<close>

theorem mined_block_rejected:
  assumes "MineBlock now net (assembled now miner bc) d sp = Ret (sp', (b, r))" "chain_fine vbc" "root_current vbc"
    and "m = fold (apply_tx (next_height bc)) (GetAllTransactions (InsertBatch (new_txs now miner bc) NewPatriciaTrie)) (outputs vbc)"
    and "2 \<le> length m"
  shows "(\<exists>vbc'. validateStateTransitions L now' (filled b) vbc = Ret (vbc', Inl InvalidStateRoot)) \<or>
    collision Sum256 [root_data (executed now miner bc)] [bytes_of_string (merkle_input m)]"
proof (cases "CalculateMerkleRoot m = h_StateRoot (b_Header b)")
  case True
  note res = MineBlock_result [OF assms(1), simplified]
  have "utxo_key (tx_TransactionID (coinbase_for (now div second) miner (last (Chain bc)))) 0 \<in> fst ` set (executed now miner bc)"
    by (rule coinbase_key) (rule refl)+
  then have "45 \<in> set (root_data (executed now miner bc))" by (rule root_data_dash)
  then have "root_data (executed now miner bc) \<noteq> bytes_of_string (merkle_input m)" using merkle_input_root(2) [OF assms(5)] by auto
  moreover have "EncodeToString (Sum256 (root_data (executed now miner bc))) = EncodeToString (Sum256 (bytes_of_string (merkle_input m)))"
    using True res(4) merkle_input_root(1) [OF assms(5)] by (simp add: hash_hex_def)
  then have "Sum256 (root_data (executed now miner bc)) = Sum256 (bytes_of_string (merkle_input m))"
    by (metis DecodeString_EncodeToString option.inject)
  ultimately show ?thesis by (simp add: collision_def)
next
  case False
  note res = MineBlock_result [OF assms(1), simplified]
  have "fold (apply_tx (h_BlockNumber (b_Header (filled b)))) (GetAllTransactions (b_Transactions (filled b))) (outputs vbc) = m"
    using res(1,8) assms(4) by simp
  then show ?thesis using validateStateTransitions_eq [OF assms(2,3), of L now' "filled b"] False by simp
qed

text \<open>A validator that holds two outputs.\<close>

definition two_outputs :: utxo_map where
  "two_outputs = [(''a-0'', zero_utxo\<lparr>u_TransactionID := ''a''\<rparr>), (''b-0'', zero_utxo\<lparr>u_TransactionID := ''b''\<rparr>)]"

definition funded_chain :: "(string, json) gomap Blockchain" where
  "funded_chain = easy_chain\<lparr>bc_utxoPool := Some ((NewUTXOPool (Some empty_db))\<lparr>pl_utxos := two_outputs, pl_merkleRoot := CalculateMerkleRoot two_outputs\<rparr>)\<rparr>"

theorem mined_block_rejected_witness:
  "\<exists>b m. MineBlock (100 * hour) yes_net (assembled (100 * hour) ''m'' easy_chain) 0 one_staker = Ret (one_staker, (b, Inr ())) \<and> 2 \<le> length m \<and>
    ((\<exists>vbc'. validateStateTransitions memory_leveldb 0 (filled b) funded_chain = Ret (vbc', Inl InvalidStateRoot)) \<or>
     collision Sum256 [root_data (executed (100 * hour) ''m'' easy_chain)] [bytes_of_string (merkle_input m)])"
proof -
  obtain b where b: "MineBlock (100 * hour) yes_net (assembled (100 * hour) ''m'' easy_chain) 0 one_staker = Ret (one_staker, (b, Inr ()))"
    using easy_run by blast
  have fine: "chain_fine funded_chain" "root_current funded_chain" "outputs funded_chain = two_outputs"
    by (simp_all add: funded_chain_def easy_chain_def InitialiseBlockchain_def NewUTXOPool_def chain_fine_def fine_def root_current_def outputs_def)
  let ?m = "fold (apply_tx (next_height easy_chain)) (GetAllTransactions (InsertBatch (new_txs (100 * hour) ''m'' easy_chain) NewPatriciaTrie)) (outputs funded_chain)"
  have "length two_outputs \<le> length ?m" using fold_apply_grows [of "outputs funded_chain"] unfolding grows_def fine(3) by blast
  then have "2 \<le> length ?m" by (simp add: two_outputs_def)
  then show ?thesis using b mined_block_rejected [OF b fine(1,2) refl] by blast
qed


end
