(* ===== verification/Spec2Isabelle.thy ===== *)
theory Spec2Isabelle
  imports
    Ledger
    Pool_Sync
    Mining
begin

text \<open>
  A verification of the core of the hybrid proof-of-work / proof-of-stake node under \<open>src/\<close>, a Go program.

  \<^bold>\<open>The program.\<close> A node keeps a chain of blocks (\<open>src/blockchain/blockchain.go\<close>, \<open>block.go\<close>), a pool of transaction
  outputs (\<open>utxo.go\<close>), accounts (\<open>account_state.go\<close>), a mempool (\<open>mempool.go\<close>), a pool of stakes (\<open>stake_pool.go\<close>) and
  validators (\<open>validator.go\<close>, \<open>validator_selection.go\<close>). A miner takes transactions from the mempool, executes them on a
  copy of the pool, searches for a nonce, asks staked validators for their approval and appends the block; rewards
  (\<open>rewards.go\<close>) and penalties (\<open>slashing.go\<close>) follow. Everything is written to one LevelDB database (\<open>db/\<close>).

  \<^bold>\<open>How Go is modelled.\<close>
  \<^item> A struct is a \<open>record\<close>, its methods are functions that return the updated record; a pointer that two components
    share is written out where a statement depends on it (the database and the accounts of the pools).
  \<^item> A computation returns, panics, or waits for ever: the type \<open>go\<close> of \<open>Prelude\<close>. An \<open>error\<close> result is a sum. A
    \<open>sync.RWMutex\<close> is a field with its state, and a call that locks it while it is held is the outcome \<open>Block\<close>. The locale
    \<open>mutexed\<close> states what a lock promises, and each lock of the program is an interpretation of it.
  \<^item> \<open>uint64\<close>, \<open>uint32\<close> and \<open>byte\<close> are words, so that sums wrap; \<open>float64\<close> is binary64 with its rounding (\<open>Float64\<close>); an \<open>int\<close> is
    an integer. A map is an association list in the order in which \<open>range\<close> visits it.
  \<^item> SHA-256, hexadecimal, base64, P-256, the decimal forms of \<open>fmt\<close> and the trees of \<open>encoding/json\<close> are executable
    definitions. LevelDB is a parameter with the law that a read returns the last write (\<open>leveldb_laws\<close>), which a store in
    memory satisfies. The time and what the network answers are arguments.

  \<^bold>\<open>The theories.\<close>
  \<^item> \<open>Prelude\<close>, \<open>Float64\<close>, \<open>Sha256\<close>: the vocabulary above; rounding is monotone and exact on the numbers that occur.
  \<^item> \<open>Gas\<close> (\<open>gas/*.go\<close>, \<open>gas_conversion.go\<close>): prices, fees, budgets. The computations through \<open>float64\<close> equal integer rules.
  \<^item> \<open>Merkle\<close> (\<open>block.go\<close>, \<open>utxo.go\<close>): the two Merkle loops agree and bind their leaves up to a collision.
  \<^item> \<open>Crypto\<close>, \<open>Transaction\<close> (\<open>crypto.go\<close>, \<open>wallet.go\<close>, \<open>multi_sig_*.go\<close>, \<open>transaction.go\<close>): keys, signatures, addresses,
    transactions; what a signature covers, which gas parameters and which multi-signature transactions are accepted.
  \<^item> \<open>Database\<close>, \<open>Accounts\<close> (\<open>db/*.go\<close>, \<open>account_state.go\<close>): JSON, the wrapper of LevelDB, accounts that survive a restart.
  \<^item> \<open>Trie\<close>, \<open>Blocks\<close> (\<open>patricia_trie.go\<close>, \<open>block.go\<close>, \<open>types.go\<close>, \<open>state.go\<close>): the trie as a map, with sound caches; what the block
    hash binds; the JSON form of a block is read back.
  \<^item> \<open>Utxo\<close>, \<open>Ledger\<close>, \<open>Pool_Sync\<close> (\<open>utxo.go\<close>): the pool of outputs. \<open>Ledger\<close> proves that marking outputs as spent refines removing
    them, that value is conserved, that processing a block is adding its transactions, and that the operations return.
    \<open>Pool_Sync\<close> treats roots, deltas, chunks, snapshots, balances and the selection of outputs.
  \<^item> \<open>Mempool\<close> (\<open>mempool.go\<close>): validation and insertion on every branch, and an invariant over all local runs.
  \<^item> \<open>Stake\<close>, \<open>Validators\<close> (\<open>stake_pool.go\<close>, \<open>validator.go\<close>, \<open>validator_selection.go\<close>): stakes, penalties, withdrawals, the merge with
    a peer, the weighted draws, and the calls that wait for a lock that their caller holds.
  \<^item> \<open>Chain\<close>, \<open>Queries\<close> (\<open>blockchain.go\<close>): appending, forks, rollback, storage; an invariant over all runs; searches, roots, balances.
  \<^item> \<open>Incentives\<close> (\<open>rewards.go\<close>, \<open>slashing.go\<close>, \<open>blockchain.go\<close>): the two reward schedules, the limit of 21 million, the books of the
    rewards, and what a violation costs.
  \<^item> \<open>Mining\<close> (\<open>block.go\<close>, \<open>blockchain.go\<close>, \<open>validator.go\<close>): the assembly of a block, the search for a nonce, the approval by
    validators, the commitment of a mined block, and the checks of a validator.

  \<^bold>\<open>Loops.\<close> Loops over lists are structural or have a measure. The one bound is in the printing of a number below 1
  (\<open>small_exponent\<close>): 330 steps, enough because the smallest positive \<open>float64\<close> is above \<open>10 powi - 324\<close>. The loops that may run for ever, the search for a
  nonce (\<open>mine_loop\<close>) and the check of a chunk (\<open>rebuild\<close>), are partial functions into \<open>option\<close>, and the theorems say exactly
  when they return.

  \<^bold>\<open>Where the code falls short.\<close> Several theorems state that an operation does not do what it means to: selecting a
  validator never returns, no fork is ever adopted from a fresh genesis block, a stored block comes back without its
  transactions, mined blocks are executed twice, and validators compute another state root than miners.

  \<^bold>\<open>Not modelled.\<close> The network (\<open>p2p.go\<close>, \<open>peer_manager.go\<close>, \<open>nat_traversal.go\<close>, \<open>bootnode.go\<close>, \<open>sync/\<close>), whose effects are
  streams of libp2p and gRPC; the JSON-RPC and HTTP servers and the command line (\<open>RPC/\<close>, \<open>api/\<close>, \<open>cmd/\<close>, \<open>main.go\<close>), which
  translate requests into calls of the parts above; the rounds of \<open>consensus.go\<close> and the heartbeats of
  \<open>validator_protocol.go\<close>, which are goroutines over timers and channels; the stores of \<open>store.go\<close>; the configuration; and the
  creation and encryption of wallet files, which use randomness and the file system. Messages to the log are left out
  everywhere.
\<close>

end
